theory Spec2Isabelle
  imports Complex_Main "HOL-Library.AList"
begin

section \<open>Data model of the authoritative game server\<close>

text \<open>
  The embedding follows \<^verbatim>\<open>src/server/game-logic.js\<close> (class \<^verbatim>\<open>GameServer\<close>) and the
  round state machine of \<^verbatim>\<open>src/server.js\<close> (class \<^verbatim>\<open>GameServerManager\<close>).
  In the physics and the painting JavaScript numbers are read as exact reals. The two clocks
  of the fixed-timestep loop, \<^verbatim>\<open>accumulator\<close> and \<^verbatim>\<open>gameTime\<close>, the tick of a snapshot and the
  queue countdown are IEEE doubles in the model as in the code: there the rounding decides how
  many steps run and when the countdown has run out.
  \<^verbatim>\<open>NaN\<close> and the infinities are outside the model. A JavaScript \<^verbatim>\<open>Map\<close> or \<^verbatim>\<open>Set\<close> iterates in insertion order, so
  it is an association list (a list without duplicates for a set); \<^verbatim>\<open>Map.set\<close> on a key
  already present keeps its position, which is what \<^const>\<open>AList.update\<close> does.
\<close>

datatype color = White | Red | Blue

record block =
  block_x :: real
  block_y :: real
  block_width :: real
  block_height :: real
  imageIndex :: int

record spawnPoint =
  spawn_x :: real
  spawn_y :: real
  spawn_row :: "int option"
  spawn_col :: "int option"

text \<open>The parsed map file: \<^verbatim>\<open>cols\<close>, \<^verbatim>\<open>rows\<close> (0 stands for a missing or falsy entry),
  \<^verbatim>\<open>blocks\<close> (arrays \<^verbatim>\<open>[row, col]\<close> or \<^verbatim>\<open>[row, col, imageIndex]\<close>), the spawn cells
  of both teams (a missing list is the empty list) and the optional \<^verbatim>\<open>bombSpawns\<close>.\<close>

record mapData =
  md_cols :: nat
  md_rows :: nat
  md_blocks :: "int list list"
  md_spawns_red :: "(int \<times> int) list"
  md_spawns_blue :: "(int \<times> int) list"
  md_bombSpawns :: "(int \<times> int) list option"

text \<open>The part of \<^verbatim>\<open>GameServer\<close> that \<^verbatim>\<open>loadMap\<close> computes and nothing changes afterwards.\<close>

record geometry =
  mapCols :: nat
  mapRows :: nat
  blockWidth :: real
  blockHeight :: real
  startX :: real
  startY :: real
  CHAR_WIDTH :: real
  CHAR_HEIGHT :: real
  blocks :: "block option list list"
  spawnPoints_red :: "spawnPoint list"
  spawnPoints_blue :: "spawnPoint list"
  bombSpawns :: "(int \<times> int) list option"

definition GRAVITY :: real where "GRAVITY = 1500"
definition JUMP_POWER :: real where "JUMP_POWER = - 600"
definition JUMP_PAD_BOUNCE :: real where "JUMP_PAD_BOUNCE = - 900"
definition SPEED :: real where "SPEED = 180"
definition MAX_FALL_SPEED :: real where "MAX_FALL_SPEED = 1200"
definition MAX_JUMPS :: nat where "MAX_JUMPS = 2"
definition GAME_WIDTH :: real where "GAME_WIDTH = 1920"
definition GAME_HEIGHT :: real where "GAME_HEIGHT = 1080"
definition JUMP_PAD_INDEX :: int where "JUMP_PAD_INDEX = 9"
definition fixedTimestep :: real where "fixedTimestep = 1 / 60"

lemmas consts_defs = GRAVITY_def JUMP_POWER_def JUMP_PAD_BOUNCE_def SPEED_def
  MAX_FALL_SPEED_def MAX_JUMPS_def GAME_WIDTH_def GAME_HEIGHT_def JUMP_PAD_INDEX_def
  fixedTimestep_def

subsection \<open>\<^verbatim>\<open>loadMap\<close>\<close>

text \<open>One entry of \<^verbatim>\<open>mapData.blocks\<close>: arrays of another length and cells outside the grid
  are skipped.\<close>

definition placeBlock ::
  "nat \<Rightarrow> nat \<Rightarrow> real \<Rightarrow> real \<Rightarrow> real \<Rightarrow> block option list list \<Rightarrow> int list
    \<Rightarrow> block option list list" where
  "placeBlock rows cols bw sx sy grid blockData =
     (case (case blockData of
              [row, col] \<Rightarrow> Some (row, col, 0)
            | [row, col, idx] \<Rightarrow> Some (row, col, idx)
            | _ \<Rightarrow> None) of
        None \<Rightarrow> grid
      | Some (row, col, idx) \<Rightarrow>
          if row \<ge> 0 \<and> row < int rows \<and> col \<ge> 0 \<and> col < int cols
          then grid[nat row := (grid ! nat row)[nat col :=
                 Some \<lparr>block_x = sx + of_int col * bw, block_y = sy + of_int row * bw,
                       block_width = bw, block_height = bw, imageIndex = idx\<rparr>]]
          else grid)"

definition mkSpawn :: "real \<Rightarrow> real \<Rightarrow> real \<Rightarrow> int \<times> int \<Rightarrow> spawnPoint" where
  "mkSpawn bw sx sy rc =
     \<lparr>spawn_x = sx + of_int (snd rc) * bw + bw / 2, spawn_y = sy + of_int (fst rc) * bw,
      spawn_row = Some (fst rc), spawn_col = Some (snd rc)\<rparr>"

text \<open>The numbers that \<^verbatim>\<open>loadMap\<close> derives from the file: the grid size (63 by 43 when the
  file gives none), the side of a block, and the top left corner of the centred grid.\<close>

definition mapColsOf :: "mapData \<Rightarrow> nat" where
  "mapColsOf md = (if md_cols md = 0 then 63 else md_cols md)"

definition mapRowsOf :: "mapData \<Rightarrow> nat" where
  "mapRowsOf md = (if md_rows md = 0 then 43 else md_rows md)"

definition blockWidthOf :: "mapData \<Rightarrow> real" where
  "blockWidthOf md =
     (let padding = 20;
          availableWidth = GAME_WIDTH - padding * 2;
          availableHeight = GAME_HEIGHT - padding * 2;
          blockWidthByCols = availableWidth / real (mapColsOf md);
          blockHeightByRows = availableHeight / real (mapRowsOf md)
      in of_int \<lfloor>min blockWidthByCols blockHeightByRows\<rfloor>)"

definition startXOf :: "mapData \<Rightarrow> real" where
  "startXOf md = (GAME_WIDTH - blockWidthOf md * real (mapColsOf md)) / 2"

definition startYOf :: "mapData \<Rightarrow> real" where
  "startYOf md = (GAME_HEIGHT - blockWidthOf md * real (mapRowsOf md)) / 2"

definition loadMap :: "mapData \<Rightarrow> geometry" where
  "loadMap md =
     \<lparr>mapCols = mapColsOf md, mapRows = mapRowsOf md,
      blockWidth = blockWidthOf md, blockHeight = blockWidthOf md,
      startX = startXOf md, startY = startYOf md,
      CHAR_WIDTH = blockWidthOf md, CHAR_HEIGHT = blockWidthOf md,
      blocks = foldl (placeBlock (mapRowsOf md) (mapColsOf md) (blockWidthOf md)
                        (startXOf md) (startYOf md))
                 (replicate (mapRowsOf md) (replicate (mapColsOf md) None)) (md_blocks md),
      spawnPoints_red = map (mkSpawn (blockWidthOf md) (startXOf md) (startYOf md))
                          (md_spawns_red md),
      spawnPoints_blue = map (mkSpawn (blockWidthOf md) (startXOf md) (startYOf md))
                           (md_spawns_blue md),
      bombSpawns = md_bombSpawns md\<rparr>"

subsection \<open>Scanning the grid\<close>

text \<open>Every geometry query runs \<^verbatim>\<open>for row < mapRows, for col < mapCols\<close> over
  \<^verbatim>\<open>blocks[row][col]\<close> and skips \<^verbatim>\<open>null\<close>. \<^verbatim>\<open>loadMap\<close> builds the grid with exactly
  \<^verbatim>\<open>mapRows\<close> rows of \<^verbatim>\<open>mapCols\<close> cells, so the reads stay in range; \<open>cellAt\<close> gives
  no block outside it.\<close>

definition cellAt :: "geometry \<Rightarrow> nat \<Rightarrow> nat \<Rightarrow> block option" where
  "cellAt g row col =
     (if row < length (blocks g) \<and> col < length (blocks g ! row)
      then blocks g ! row ! col else None)"

definition gridCells :: "geometry \<Rightarrow> (nat \<times> nat) list" where
  "gridCells g = concat (map (\<lambda>row. map (\<lambda>col. (row, col)) [0..<mapCols g]) [0..<mapRows g])"

definition allCells :: "geometry \<Rightarrow> ((nat \<times> nat) \<times> block) list" where
  "allCells g =
     List.map_filter (\<lambda>rc. case cellAt g (fst rc) (snd rc) of None \<Rightarrow> None
                                | Some b \<Rightarrow> Some (rc, b)) (gridCells g)"

definition allBlocks :: "geometry \<Rightarrow> block list" where
  "allBlocks g = map snd (allCells g)"

text \<open>Jump pads are three blocks wide.\<close>

definition isJumpPad :: "block \<Rightarrow> bool" where
  "isJumpPad b = (imageIndex b = JUMP_PAD_INDEX)"

definition blockRight :: "block \<Rightarrow> real" where
  "blockRight b = block_x b + (if isJumpPad b then block_width b * 3 else block_width b)"

definition blockBottom :: "block \<Rightarrow> real" where
  "blockBottom b = block_y b + block_height b"

subsection \<open>Geometry queries\<close>

text \<open>\<^verbatim>\<open>getGroundY(x, y)\<close>: the smallest top among the blocks under the character's footprint
  whose top lies between 3 pixels above and 50 pixels below \<open>y\<close>; \<^verbatim>\<open>null\<close> is \<open>None\<close>.
  \<open>groundCandidate\<close> is the pair of nested tests of the loop body, \<open>groundStep\<close> the update
  of \<^verbatim>\<open>closestGround\<close>.\<close>

definition groundCandidate :: "geometry \<Rightarrow> real \<Rightarrow> real \<Rightarrow> block \<Rightarrow> bool" where
  "groundCandidate g x y b =
     (let charLeft = x - CHAR_WIDTH g / 2;
          charRight = x + CHAR_WIDTH g / 2;
          maxGroundDistance = 50;
          distanceBelow = block_y b - y
      in charLeft < blockRight b \<and> charRight > block_x b
         \<and> distanceBelow \<ge> - 3 \<and> distanceBelow \<le> maxGroundDistance)"

definition groundStep :: "geometry \<Rightarrow> real \<Rightarrow> real \<Rightarrow> real option \<Rightarrow> block \<Rightarrow> real option" where
  "groundStep g x y closestGround b =
     (if groundCandidate g x y b
      then (case closestGround of
              None \<Rightarrow> Some (block_y b)
            | Some c \<Rightarrow> if block_y b < c then Some (block_y b) else Some c)
      else closestGround)"

definition getGroundY :: "geometry \<Rightarrow> real \<Rightarrow> real \<Rightarrow> real option" where
  "getGroundY g x y = foldl (groundStep g x y) None (allBlocks g)"

text \<open>A loop that returns from inside its body: the first block for which the body returns.\<close>

fun firstSome :: "('a \<Rightarrow> 'b option) \<Rightarrow> 'a list \<Rightarrow> 'b option" where
  "firstSome f [] = None"
| "firstSome f (b # bs) = (case f b of Some r \<Rightarrow> Some r | None \<Rightarrow> firstSome f bs)"

record collision =
  collided :: bool
  hitBottom :: "real option"

text \<open>The body of the loop of \<^verbatim>\<open>checkCollision\<close> for one block: \<open>None\<close> is \<^verbatim>\<open>continue\<close>,
  \<open>Some r\<close> is \<^verbatim>\<open>return r\<close> (\<open>hitBottom\<close> is the field \<^verbatim>\<open>blockBottom\<close> of the result).\<close>

definition collideBlock ::
  "geometry \<Rightarrow> real \<Rightarrow> real \<Rightarrow> real \<Rightarrow> real option \<Rightarrow> block \<Rightarrow> collision option" where
  "collideBlock g x y vY prevY b =
     (let charLeft = x - CHAR_WIDTH g / 2;
          charRight = x + CHAR_WIDTH g / 2;
          charTop = y - CHAR_HEIGHT g;
          charBottom = y;
          epsilon = 1 / 2;
          horizontalEpsilon = 0;
          verticalEpsilon = epsilon;
          blockLeft = block_x b;
          blockTop = block_y b
      in if charLeft < blockRight b - horizontalEpsilon \<and> charRight > blockLeft + horizontalEpsilon
            \<and> charTop < blockBottom b - verticalEpsilon \<and> charBottom > blockTop + verticalEpsilon
         then
           (let distanceFromTop = y - blockTop;
                charTopY = y - CHAR_HEIGHT g
            in if isJumpPad b \<and> vY < 0 then None
               else if isJumpPad b \<and> distanceFromTop \<le> 5 then None
               else if isJumpPad b \<and> distanceFromTop > 5
                         \<and> distanceFromTop \<le> block_height b + 10 then None
               else if isJumpPad b \<and> charTopY \<ge> blockTop \<and> charTopY < blockBottom b then None
               else if vY < 0 then
                 (if charLeft < blockRight b \<and> charRight > blockLeft then
                    (if charTop \<le> blockBottom b then
                       (case prevY of
                          Some pY \<Rightarrow> Some \<lparr>collided = True, hitBottom = Some (blockBottom b)\<rparr>
                        | None \<Rightarrow> Some \<lparr>collided = True, hitBottom = Some (blockBottom b)\<rparr>)
                     else None)
                  else None)
               else Some \<lparr>collided = True, hitBottom = None\<rparr>)
         else None)"

definition checkCollision ::
  "geometry \<Rightarrow> real \<Rightarrow> real \<Rightarrow> real \<Rightarrow> real option \<Rightarrow> collision" where
  "checkCollision g x y vY prevY =
     (case firstSome (collideBlock g x y vY prevY) (allBlocks g) of
        Some r \<Rightarrow> r
      | None \<Rightarrow> \<lparr>collided = False, hitBottom = None\<rparr>)"

definition touchDistance :: "geometry \<Rightarrow> real" where
  "touchDistance g = max 3 ((5 / 20) * blockWidth g)"

definition ceilingTouchDistance :: "geometry \<Rightarrow> real" where
  "ceilingTouchDistance g = max 5 ((8 / 20) * blockWidth g)"

definition touchesBlock :: "geometry \<Rightarrow> real \<Rightarrow> real \<Rightarrow> block \<Rightarrow> bool" where
  "touchesBlock g x y b =
     (let charLeft = x - CHAR_WIDTH g / 2;
          charRight = x + CHAR_WIDTH g / 2;
          charTop = y - CHAR_HEIGHT g;
          charBottom = y;
          blockLeft = block_x b;
          blockTop = block_y b
      in (charRight \<ge> blockLeft - touchDistance g \<and> charRight \<le> blockLeft + touchDistance g
            \<and> charTop < blockBottom b \<and> charBottom > blockTop)
         \<or> (charLeft \<le> blockRight b + touchDistance g \<and> charLeft \<ge> blockRight b - touchDistance g
            \<and> charTop < blockBottom b \<and> charBottom > blockTop)
         \<or> (charBottom \<ge> blockTop - ceilingTouchDistance g
            \<and> charBottom \<le> blockTop + ceilingTouchDistance g
            \<and> charLeft < blockRight b \<and> charRight > blockLeft)
         \<or> (charTop \<le> blockBottom b + touchDistance g \<and> charTop \<ge> blockBottom b - touchDistance g
            \<and> charLeft < blockRight b \<and> charRight > blockLeft))"

definition isTouchingBlock :: "geometry \<Rightarrow> real \<Rightarrow> real \<Rightarrow> bool" where
  "isTouchingBlock g x y = list_ex (touchesBlock g x y) (allBlocks g)"

definition overlapsJumpPad :: "geometry \<Rightarrow> real \<Rightarrow> real \<Rightarrow> block \<Rightarrow> bool" where
  "overlapsJumpPad g x y b =
     (isJumpPad b \<and> x - CHAR_WIDTH g / 2 < blockRight b \<and> x + CHAR_WIDTH g / 2 > block_x b
      \<and> y - CHAR_HEIGHT g < blockBottom b \<and> y > block_y b)"

definition checkJumpPadCollision :: "geometry \<Rightarrow> real \<Rightarrow> real \<Rightarrow> bool" where
  "checkJumpPadCollision g x y = list_ex (overlapsJumpPad g x y) (allBlocks g)"

definition isJumpPadAt :: "geometry \<Rightarrow> real \<Rightarrow> real \<Rightarrow> block \<Rightarrow> bool" where
  "isJumpPadAt g x groundY b =
     (isJumpPad b \<and> x - CHAR_WIDTH g / 2 < blockRight b \<and> x + CHAR_WIDTH g / 2 > block_x b
      \<and> \<bar>groundY - block_y b\<bar> < 2)"

definition getJumpPadAt :: "geometry \<Rightarrow> real \<Rightarrow> real \<Rightarrow> block option" where
  "getJumpPadAt g x groundY = find (isJumpPadAt g x groundY) (allBlocks g)"

section \<open>Players and the per-tick physics step\<close>

record player =
  playerId :: string
  team :: color
  p_x :: real
  p_y :: real
  velocityY :: real
  hasBomb :: bool
  onGround :: bool
  jumpsUsed :: nat
  wasInJumpPad :: bool

record inputState =
  key_a :: bool
  key_d :: bool
  key_w :: bool
  key_s :: bool
  wasPressingW :: bool
  wasPressingS :: bool

text \<open>\<^verbatim>\<open>spawnIndices\<close>: the round-robin counters of \<^verbatim>\<open>getSpawnPoint\<close>, one per team. They are
  state of the server, not of the player or of the map.\<close>

record spawnIndices =
  si_red :: nat
  si_blue :: nat

definition fallbackSpawn :: spawnPoint where
  "fallbackSpawn = \<lparr>spawn_x = 960, spawn_y = 500, spawn_row = None, spawn_col = None\<rparr>"

definition getSpawnPoint :: "geometry \<Rightarrow> color \<Rightarrow> spawnIndices \<Rightarrow> spawnPoint \<times> spawnIndices" where
  "getSpawnPoint g t si =
     (let spawns = (case t of Red \<Rightarrow> spawnPoints_red g | Blue \<Rightarrow> spawnPoints_blue g
                    | White \<Rightarrow> [])
      in if length spawns = 0 then (fallbackSpawn, si)
         else (case t of
                 Red \<Rightarrow> (spawns ! (si_red si mod length spawns), si\<lparr>si_red := si_red si + 1\<rparr>)
               | Blue \<Rightarrow> (spawns ! (si_blue si mod length spawns), si\<lparr>si_blue := si_blue si + 1\<rparr>)
               | White \<Rightarrow> (fallbackSpawn, si)))"

definition mapLeft :: "geometry \<Rightarrow> real" where
  "mapLeft g = startX g + CHAR_WIDTH g / 2"

definition mapRight :: "geometry \<Rightarrow> real" where
  "mapRight g = startX g + (real (mapCols g) * blockWidth g) - CHAR_WIDTH g / 2"

definition clampX :: "geometry \<Rightarrow> real \<Rightarrow> real" where
  "clampX g v = max (mapLeft g) (min (mapRight g) v)"

text \<open>\<^verbatim>\<open>applyMovement\<close>: the first loop looks for a block edge already touched in the direction
  of movement, the second for the block the character would run into.\<close>

definition alreadyTouchingBlock :: "geometry \<Rightarrow> real \<Rightarrow> real \<Rightarrow> real \<Rightarrow> block \<Rightarrow> bool" where
  "alreadyTouchingBlock g x y dx b =
     (let currentCharLeft = x - CHAR_WIDTH g / 2;
          currentCharRight = x + CHAR_WIDTH g / 2;
          touchThreshold = 2;
          charTop = y - CHAR_HEIGHT g;
          charBottom = y
      in charTop < blockBottom b \<and> charBottom > block_y b
         \<and> ((dx > 0 \<and> currentCharRight \<ge> block_x b - touchThreshold
                    \<and> currentCharRight \<le> block_x b + touchThreshold)
            \<or> (dx < 0 \<and> currentCharLeft \<le> blockRight b + touchThreshold
                    \<and> currentCharLeft \<ge> blockRight b - touchThreshold)))"

definition edgePosition :: "geometry \<Rightarrow> real \<Rightarrow> real \<Rightarrow> real \<Rightarrow> block \<Rightarrow> real option" where
  "edgePosition g newX y dx b =
     (let charLeft = newX - CHAR_WIDTH g / 2;
          charRight = newX + CHAR_WIDTH g / 2
      in if charLeft < blockRight b \<and> charRight > block_x b
         then (let charTop = y - CHAR_HEIGHT g; charBottom = y
               in if charTop < blockBottom b \<and> charBottom > block_y b
                  then (if dx > 0 then Some (block_x b - CHAR_WIDTH g / 2)
                        else Some (blockRight b + CHAR_WIDTH g / 2))
                  else None)
         else None)"

definition applyMovement :: "geometry \<Rightarrow> real \<Rightarrow> inputState option \<Rightarrow> player \<Rightarrow> player" where
  "applyMovement g deltaTime inp p =
     (case inp of
        None \<Rightarrow> p
      | Some inputState \<Rightarrow>
          (let dx0 = (if key_a inputState then 0 - SPEED * deltaTime else 0);
               dx = (if key_d inputState then dx0 + SPEED * deltaTime else dx0)
           in if dx \<noteq> 0 then
                (let newX = p_x p + dx;
                     alreadyTouching = list_ex (alreadyTouchingBlock g (p_x p) (p_y p) dx) (allBlocks g);
                     p1 = (if \<not> alreadyTouching then
                             (let collision = checkCollision g newX (p_y p) (velocityY p) None
                              in if \<not> collided collision then p\<lparr>p_x := clampX g newX\<rparr>
                                 else (case firstSome (edgePosition g newX (p_y p) dx) (allBlocks g) of
                                         None \<Rightarrow> p
                                       | Some newPosition \<Rightarrow>
                                           if \<bar>p_x p - newPosition\<bar> > 1 / 1000
                                           then p\<lparr>p_x := clampX g newPosition\<rparr> else p))
                           else p)
                 in p1\<lparr>p_x := clampX g (p_x p1)\<rparr>)
              else p))"

text \<open>The test of \<^verbatim>\<open>processJumpInput\<close> that refuses a manual jump: the ground found under
  the player is the top of a jump pad (\<^verbatim>\<open>isOnJumpPad\<close>), or the player overlaps a jump pad
  (\<^verbatim>\<open>isInsideJumpPad\<close>).\<close>

definition onOrInsideJumpPad :: "geometry \<Rightarrow> player \<Rightarrow> bool" where
  "onOrInsideJumpPad g p =
     (let currentGroundY = getGroundY g (p_x p) (p_y p);
          isOnJumpPad = (case currentGroundY of
                           Some gy \<Rightarrow> getJumpPadAt g (p_x p) gy \<noteq> None
                         | None \<Rightarrow> False);
          isInsideJumpPad = checkJumpPadCollision g (p_x p) (p_y p)
      in isOnJumpPad \<or> isInsideJumpPad)"

text \<open>\<^verbatim>\<open>processJumpInput\<close>: the jump is edge-triggered; the latch \<^verbatim>\<open>wasPressingW\<close> is
  updated whether or not a jump happens.\<close>

definition processJumpInput ::
  "geometry \<Rightarrow> inputState option \<Rightarrow> player \<Rightarrow> player \<times> inputState option" where
  "processJumpInput g inp p =
     (case inp of
        None \<Rightarrow> (p, None)
      | Some inputState \<Rightarrow>
          (let justPressedW = (key_w inputState \<and> \<not> wasPressingW inputState);
               inputState' = inputState\<lparr>wasPressingW := key_w inputState\<rparr>
           in if justPressedW then
                (if onOrInsideJumpPad g p then (p, Some inputState')
                 else if onGround p then
                   (p\<lparr>velocityY := JUMP_POWER, jumpsUsed := 1, onGround := False\<rparr>,
                    Some inputState')
                 else if isTouchingBlock g (p_x p) (p_y p) then
                   (p\<lparr>velocityY := JUMP_POWER, jumpsUsed := 0\<rparr>, Some inputState')
                 else if jumpsUsed p < MAX_JUMPS \<and> velocityY p > 0 then
                   (p\<lparr>velocityY := JUMP_POWER, jumpsUsed := jumpsUsed p + 1\<rparr>,
                    Some inputState')
                 else (p, Some inputState'))
              else (p, Some inputState')))"

subsection \<open>The per-player block of \<^verbatim>\<open>updateGame\<close>\<close>

text \<open>STEP 1: the ground check before input is processed.\<close>

definition groundCheck :: "geometry \<Rightarrow> player \<Rightarrow> player" where
  "groundCheck g p =
     (case getGroundY g (p_x p) (p_y p) of
        Some groundY \<Rightarrow>
          if \<bar>p_y p - groundY\<bar> < 2 \<and> \<bar>velocityY p\<bar> < 36
          then p\<lparr>p_y := groundY, velocityY := 0, onGround := True, jumpsUsed := 0\<rparr>
          else p\<lparr>onGround := False\<rparr>
      | None \<Rightarrow> p\<lparr>onGround := False\<rparr>)"

text \<open>STEP 3: gravity, clamped to the maximal fall speed.\<close>

definition applyGravity :: "real \<Rightarrow> player \<Rightarrow> player" where
  "applyGravity deltaTime p =
     (let v = velocityY p + GRAVITY * deltaTime
      in p\<lparr>velocityY := (if v > MAX_FALL_SPEED then MAX_FALL_SPEED else v)\<rparr>)"

text \<open>STEP 4: vertical movement with the one-way jump pads.\<close>

definition verticalMove :: "geometry \<Rightarrow> real \<Rightarrow> player \<Rightarrow> player" where
  "verticalMove g deltaTime p =
     (let newY = p_y p + velocityY p * deltaTime;
          prevY = p_y p;
          willBeInJumpPad = checkJumpPadCollision g (p_x p) newY;
          enteringJumpPad = (\<not> wasInJumpPad p \<and> willBeInJumpPad);
          newGroundY = getGroundY g (p_x p) (p_y p);
          jumpPad = (case newGroundY of Some gy \<Rightarrow> getJumpPadAt g (p_x p) gy | None \<Rightarrow> None);
          notLanding =
            (if enteringJumpPad
             then p\<lparr>velocityY := JUMP_PAD_BOUNCE, jumpsUsed := 0, p_y := newY,
                    onGround := False, wasInJumpPad := True\<rparr>
             else (let collision = checkCollision g (p_x p) newY (velocityY p) (Some prevY)
                   in if \<not> collided collision then p\<lparr>p_y := newY, onGround := False\<rparr>
                      else p\<lparr>velocityY := 0, onGround := False\<rparr>))
      in if velocityY p > 0 then
           (case newGroundY of
              None \<Rightarrow> notLanding
            | Some gy \<Rightarrow>
                if newY \<ge> gy then
                  (if jumpPad \<noteq> None
                   then p\<lparr>p_y := gy, velocityY := JUMP_PAD_BOUNCE, onGround := False,
                          jumpsUsed := 0, wasInJumpPad := True\<rparr>
                   else (let collision = checkCollision g (p_x p) newY (velocityY p) (Some prevY)
                         in if \<not> collided collision then p\<lparr>p_y := newY, onGround := False\<rparr>
                            else p\<lparr>p_y := gy, velocityY := 0, onGround := True, jumpsUsed := 0\<rparr>))
                else notLanding)
         else if enteringJumpPad then
           (let v = (if velocityY p < 0 then JUMP_PAD_BOUNCE
                     else if velocityY p = 0 then JUMP_PAD_BOUNCE else velocityY p)
            in p\<lparr>velocityY := v, jumpsUsed := 0, p_y := newY, onGround := False\<rparr>)
         else
           (let currentlyOnJumpPad = checkJumpPadCollision g (p_x p) (p_y p)
            in if currentlyOnJumpPad \<and> velocityY p < 0
               then p\<lparr>p_y := newY, onGround := False, wasInJumpPad := True\<rparr>
               else
                 (let collision = checkCollision g (p_x p) newY (velocityY p) (Some prevY)
                  in if \<not> collided collision
                     then p\<lparr>p_y := newY, onGround := False, wasInJumpPad := willBeInJumpPad\<rparr>
                     else
                       (let hitJumpPad = checkJumpPadCollision g (p_x p) newY
                        in if hitJumpPad \<and> velocityY p < 0
                           then p\<lparr>p_y := newY, onGround := False, wasInJumpPad := True\<rparr>
                           else
                             (let p1 = (case hitBottom collision of
                                          Some bb \<Rightarrow> if velocityY p < 0
                                                     then p\<lparr>p_y := bb + CHAR_HEIGHT g\<rparr> else p
                                        | None \<Rightarrow> p)
                              in p1\<lparr>velocityY := 0, onGround := False, jumpsUsed := 0,
                                     wasInJumpPad := False\<rparr>)))))"

text \<open>STEP 6: the final ground check, skipped right after a jump-pad bounce.\<close>

definition finalGroundCheck :: "geometry \<Rightarrow> player \<Rightarrow> player" where
  "finalGroundCheck g p =
     (let justBouncedOnJumpPad = (velocityY p < - 400 \<and> wasInJumpPad p)
      in if \<not> justBouncedOnJumpPad then
           (let finalGroundY = getGroundY g (p_x p) (p_y p);
                notOnGround = (if velocityY p > 1 / 10 then p\<lparr>onGround := False\<rparr> else p)
            in case finalGroundY of
                 None \<Rightarrow> notOnGround
               | Some fy \<Rightarrow>
                   if \<bar>p_y p - fy\<bar> < 3 \<and> \<bar>velocityY p\<bar> < 36 then
                     (if getJumpPadAt g (p_x p) fy \<noteq> None
                      then p\<lparr>p_y := fy, onGround := False\<rparr>
                      else p\<lparr>p_y := fy, velocityY := 0, onGround := True, jumpsUsed := 0\<rparr>)
                   else notOnGround)
         else p)"

text \<open>The jump-pad latch for the next tick.\<close>

definition updateJumpPadState :: "geometry \<Rightarrow> player \<Rightarrow> player" where
  "updateJumpPadState g p =
     (if \<not> checkJumpPadCollision g (p_x p) (p_y p)
      then p\<lparr>wasInJumpPad := False\<rparr> else p\<lparr>wasInJumpPad := True\<rparr>)"

text \<open>The safety check: a player found inside a block is put on the ground, or respawned at
  the next spawn point of the team, which advances the round-robin counter.\<close>

definition respawnAt :: "spawnPoint \<Rightarrow> player \<Rightarrow> player" where
  "respawnAt spawn p =
     p\<lparr>p_x := spawn_x spawn, p_y := spawn_y spawn, velocityY := 0, onGround := True\<rparr>"

definition safetyCheck :: "geometry \<Rightarrow> player \<times> spawnIndices \<Rightarrow> player \<times> spawnIndices" where
  "safetyCheck g ps =
     (let p = fst ps; si = snd ps;
          isInsideJumpPad = checkJumpPadCollision g (p_x p) (p_y p)
      in if \<not> isInsideJumpPad then
           (let safetyCollision = checkCollision g (p_x p) (p_y p) 0 None
            in if collided safetyCollision then
                 (case getGroundY g (p_x p) (p_y p) of
                    Some safetyGroundY \<Rightarrow>
                      (p\<lparr>p_y := safetyGroundY, velocityY := 0, onGround := True\<rparr>, si)
                  | None \<Rightarrow>
                      (let r = getSpawnPoint g (team p) si in (respawnAt (fst r) p, snd r)))
               else (p, si))
         else (p, si))"

text \<open>The boundary check and the fall below the map.\<close>

definition boundaryCheck :: "geometry \<Rightarrow> player \<Rightarrow> player" where
  "boundaryCheck g p = p\<lparr>p_x := clampX g (p_x p)\<rparr>"

definition fallCheck :: "geometry \<Rightarrow> player \<times> spawnIndices \<Rightarrow> player \<times> spawnIndices" where
  "fallCheck g ps =
     (let p = fst ps; si = snd ps
      in if p_y p > GAME_HEIGHT then
           (case getGroundY g (p_x p) GAME_HEIGHT of
              Some emergencyGround \<Rightarrow>
                (p\<lparr>p_y := emergencyGround, velocityY := 0, onGround := True\<rparr>, si)
            | None \<Rightarrow> (let r = getSpawnPoint g (team p) si in (respawnAt (fst r) p, snd r)))
         else (p, si))"

text \<open>The whole per-player step. Its state is the player object, the player's entry of
  \<^verbatim>\<open>playerInputs\<close> (absent for a player without one) and the spawn counters of the server.\<close>

record stepState =
  st_player :: player
  st_input :: "inputState option"
  st_spawn :: spawnIndices

definition stepPlayer :: "geometry \<Rightarrow> real \<Rightarrow> stepState \<Rightarrow> stepState" where
  "stepPlayer g deltaTime st =
     (let p1 = groundCheck g (st_player st);
          p2 = applyMovement g deltaTime (st_input st) p1;
          j = processJumpInput g (st_input st) p2;
          p3 = applyGravity deltaTime (fst j);
          p4 = verticalMove g deltaTime p3;
          p5 = finalGroundCheck g p4;
          p6 = updateJumpPadState g p5;
          s7 = safetyCheck g (p6, st_spawn st);
          s8 = (boundaryCheck g (fst s7), snd s7);
          s9 = fallCheck g s8
      in \<lparr>st_player = fst s9, st_input = snd j, st_spawn = snd s9\<rparr>)"

section \<open>The entity state store\<close>

record bomb =
  bomb_id :: nat
  bomb_x :: real
  bomb_y :: real
  bomb_width :: real
  bomb_height :: real
  bomb_spawn :: spawnPoint
  collected :: bool
  respawnTimer :: real
  respawnDelay :: real

record thrownBomb =
  tb_playerId :: string
  tb_x :: real
  tb_y :: real
  tb_team :: color
  tb_velocityX :: real
  tb_velocityY :: real
  tb_timer :: real
  tb_exploded :: bool

record gameServer =
  geom :: geometry
  players :: "(string \<times> player) list"
  playerInputs :: "(string \<times> inputState) list"
  lastProcessedSequence :: "(string \<times> int) list"
  bombs :: "bomb list"
  thrownBombs :: "thrownBomb list"
  gameTime :: real
  accumulator :: real
  spawnIndices :: spawnIndices
  blockColors :: "color list list"
  changedBlocks :: "(nat \<times> nat) list"

text \<open>\<^verbatim>\<open>Set.add\<close>: a new element goes to the end, a present one stays where it is.\<close>

definition setAdd :: "'a \<Rightarrow> 'a list \<Rightarrow> 'a list" where
  "setAdd k ks = (if k \<in> set ks then ks else ks @ [k])"

definition colorAt :: "color list list \<Rightarrow> nat \<Rightarrow> nat \<Rightarrow> color" where
  "colorAt cs row col =
     (if row < length cs \<and> col < length (cs ! row) then cs ! row ! col else White)"

definition setColorAt :: "color list list \<Rightarrow> nat \<Rightarrow> nat \<Rightarrow> color \<Rightarrow> color list list" where
  "setColorAt cs row col c = cs[row := (cs ! row)[col := c]]"

subsection \<open>Block painting and the dirty set\<close>

definition spawnMatches :: "int \<Rightarrow> int \<Rightarrow> spawnPoint \<Rightarrow> bool" where
  "spawnMatches row col spawn =
     ((spawn_row spawn = Some row \<and> spawn_col spawn = Some col)
      \<or> (case (spawn_row spawn, spawn_col spawn) of
            (Some r, Some c) \<Rightarrow> row = r + 1 \<and> col = c
          | _ \<Rightarrow> False))"

definition isAtSpawn :: "geometry \<Rightarrow> int \<Rightarrow> int \<Rightarrow> bool" where
  "isAtSpawn g row col =
     (list_ex (spawnMatches row col) (spawnPoints_red g)
      \<or> list_ex (spawnMatches row col) (spawnPoints_blue g))"

definition setBlockColor :: "int \<Rightarrow> int \<Rightarrow> color \<Rightarrow> gameServer \<Rightarrow> gameServer" where
  "setBlockColor row col c s =
     (if row < 0 \<or> row \<ge> int (mapRows (geom s)) \<or> col < 0 \<or> col \<ge> int (mapCols (geom s))
      then s
      else if cellAt (geom s) (nat row) (nat col) = None then s
      else (let oldColor = colorAt (blockColors s) (nat row) (nat col)
            in if oldColor \<noteq> c
               then s\<lparr>blockColors := setColorAt (blockColors s) (nat row) (nat col) c,
                      changedBlocks := setAdd (nat row, nat col) (changedBlocks s)\<rparr>
               else if isAtSpawn (geom s) row col
               then s\<lparr>changedBlocks := setAdd (nat row, nat col) (changedBlocks s)\<rparr>
               else s))"

definition resetCell :: "gameServer \<Rightarrow> (nat \<times> nat) \<times> block \<Rightarrow> gameServer" where
  "resetCell s rcb =
     s\<lparr>blockColors := setColorAt (blockColors s) (fst (fst rcb)) (snd (fst rcb)) White,
       changedBlocks := setAdd (fst rcb) (changedBlocks s)\<rparr>"

definition resetAllBlocks :: "gameServer \<Rightarrow> gameServer" where
  "resetAllBlocks s = foldl resetCell s (allCells (geom s))"

definition paintTouches :: "geometry \<Rightarrow> real \<Rightarrow> real \<Rightarrow> block \<Rightarrow> bool" where
  "paintTouches g x y b =
     (let charLeft = x - CHAR_WIDTH g / 2;
          charRight = x + CHAR_WIDTH g / 2;
          charTop = y - CHAR_HEIGHT g;
          charBottom = y;
          blockLeft = block_x b;
          blockTop = block_y b
      in (charRight \<ge> blockLeft - touchDistance g \<and> charRight \<le> blockLeft + touchDistance g
            \<and> charTop < blockBottom b \<and> charBottom > blockTop)
         \<or> (charLeft \<le> blockRight b + touchDistance g \<and> charLeft \<ge> blockRight b - touchDistance g
            \<and> charTop < blockBottom b \<and> charBottom > blockTop)
         \<or> (charBottom \<ge> blockTop - touchDistance g \<and> charBottom \<le> blockTop + touchDistance g
            \<and> charLeft < blockRight b \<and> charRight > blockLeft)
         \<or> (charTop \<le> blockBottom b + touchDistance g \<and> charTop \<ge> blockBottom b - touchDistance g
            \<and> charLeft < blockRight b \<and> charRight > blockLeft))"

type_synonym blockTouches = "((nat \<times> nat) \<times> (color \<times> string)) list"

definition collectBlockTouches :: "geometry \<Rightarrow> player \<Rightarrow> blockTouches \<Rightarrow> blockTouches" where
  "collectBlockTouches g p touches =
     foldl (\<lambda>acc rcb. if paintTouches g (p_x p) (p_y p) (snd rcb)
                       then AList.update (fst rcb) (team p, playerId p) acc else acc)
       touches (allCells g)"

definition paintBlocks :: "gameServer \<Rightarrow> gameServer" where
  "paintBlocks s =
     (let blockTouches = foldl (\<lambda>acc kp. collectBlockTouches (geom s) (snd kp) acc) [] (players s)
      in foldl (\<lambda>s' t. setBlockColor (int (fst (fst t))) (int (snd (fst t))) (fst (snd t)) s')
           s blockTouches)"

subsection \<open>Bombs\<close>

definition addBomb :: "geometry \<Rightarrow> bomb list \<Rightarrow> int \<times> int \<Rightarrow> bomb list" where
  "addBomb g bs rc =
     (let row = fst rc; col = snd rc
      in if row \<ge> 0 \<and> row < int (mapRows g) \<and> col \<ge> 0 \<and> col < int (mapCols g) then
           (let xy = (case cellAt g (nat row) (nat col) of
                        Some b \<Rightarrow> (block_x b + block_width b / 2, block_y b)
                      | None \<Rightarrow> (startX g + of_int col * blockWidth g + blockWidth g / 2,
                                 startY g + of_int row * blockHeight g))
            in bs @ [\<lparr>bomb_id = length bs, bomb_x = fst xy, bomb_y = snd xy,
                      bomb_width = 20, bomb_height = 20,
                      bomb_spawn = \<lparr>spawn_x = fst xy, spawn_y = snd xy,
                                    spawn_row = Some row, spawn_col = Some col\<rparr>,
                      collected = False, respawnTimer = 0, respawnDelay = 10\<rparr>])
         else bs)"

definition initializeBombs :: "gameServer \<Rightarrow> gameServer" where
  "initializeBombs s =
     (case bombSpawns (geom s) of
        None \<Rightarrow> s
      | Some spawns \<Rightarrow> s\<lparr>bombs := foldl (addBomb (geom s)) [] spawns\<rparr>)"

definition checkBombCollision :: "geometry \<Rightarrow> player \<Rightarrow> bomb \<Rightarrow> bool" where
  "checkBombCollision g p b =
     (let charLeft = p_x p - CHAR_WIDTH g / 2;
          charRight = p_x p + CHAR_WIDTH g / 2;
          charTop = p_y p - CHAR_HEIGHT g;
          charBottom = p_y p;
          bombLeft = bomb_x b - bomb_width b / 2;
          bombRight = bomb_x b + bomb_width b / 2;
          bombTop = bomb_y b - bomb_height b;
          bombBottom = bomb_y b
      in charLeft < bombRight \<and> charRight > bombLeft \<and> charTop < bombBottom
         \<and> charBottom > bombTop)"

text \<open>One pickup bomb in the loop of \<^verbatim>\<open>updateGame\<close>: the respawn timer, then every player
  without a bomb that overlaps an uncollected bomb takes it (\<^verbatim>\<open>collected\<close> is tested once,
  before the loop over the players).\<close>

definition updateBomb ::
  "geometry \<Rightarrow> real \<Rightarrow> (string \<times> player) list \<Rightarrow> bomb \<Rightarrow> (string \<times> player) list \<times> bomb" where
  "updateBomb g deltaTime ps b =
     (let b1 = (if collected b then
                  (let t = respawnTimer b + deltaTime
                   in if t \<ge> respawnDelay b then b\<lparr>collected := False, respawnTimer := 0\<rparr>
                      else b\<lparr>respawnTimer := t\<rparr>)
                else b)
      in if \<not> collected b1 then
           (let takes = (\<lambda>p. \<not> hasBomb p \<and> checkBombCollision g p b1)
            in (map (\<lambda>kp. if takes (snd kp) then (fst kp, (snd kp)\<lparr>hasBomb := True\<rparr>) else kp) ps,
                if list_ex (\<lambda>kp. takes (snd kp)) ps
                then b1\<lparr>collected := True, respawnTimer := 0\<rparr> else b1))
         else (ps, b1))"

fun updateBombs ::
  "geometry \<Rightarrow> real \<Rightarrow> (string \<times> player) list \<Rightarrow> bomb list \<Rightarrow> (string \<times> player) list \<times> bomb list"
  where
  "updateBombs g deltaTime ps [] = (ps, [])"
| "updateBombs g deltaTime ps (b # bs) =
     (let r = updateBomb g deltaTime ps b;
          rest = updateBombs g deltaTime (fst r) bs
      in (fst rest, snd r # snd rest))"

definition stepThrownBomb :: "real \<Rightarrow> thrownBomb \<Rightarrow> thrownBomb" where
  "stepThrownBomb deltaTime b =
     (let vy = tb_velocityY b + GRAVITY * deltaTime
      in b\<lparr>tb_velocityY := vy, tb_y := tb_y b + vy * deltaTime,
           tb_x := tb_x b + tb_velocityX b * deltaTime, tb_timer := tb_timer b + deltaTime\<rparr>)"

definition keepThrownBomb :: "thrownBomb \<Rightarrow> bool" where
  "keepThrownBomb b = (\<not> (tb_exploded b \<or> tb_timer b > 2 \<or> tb_y b > 1200))"

subsection \<open>\<^verbatim>\<open>updateGame\<close>\<close>

text \<open>The loop over the players: each player object and its input entry are updated in place,
  the spawn counters are shared by all of them.\<close>

fun stepPlayers ::
  "geometry \<Rightarrow> real \<Rightarrow> (string \<times> player) list \<Rightarrow> (string \<times> inputState) list \<Rightarrow> spawnIndices
    \<Rightarrow> (string \<times> player) list \<times> (string \<times> inputState) list \<times> spawnIndices" where
  "stepPlayers g deltaTime [] inputs si = ([], inputs, si)"
| "stepPlayers g deltaTime (kp # kps) inputs si =
     (let st = stepPlayer g deltaTime
                 \<lparr>st_player = snd kp, st_input = map_of inputs (fst kp), st_spawn = si\<rparr>;
          inputs' = (case st_input st of None \<Rightarrow> inputs
                     | Some i \<Rightarrow> AList.update (fst kp) i inputs);
          rest = stepPlayers g deltaTime kps inputs' (st_spawn st)
      in ((fst kp, st_player st) # fst rest, snd rest))"

definition updateGame :: "real \<Rightarrow> gameServer \<Rightarrow> gameServer" where
  "updateGame deltaTime0 s =
     (let deltaTime = min deltaTime0 (1 / 30);
          r = stepPlayers (geom s) deltaTime (players s) (playerInputs s) (spawnIndices s);
          s1 = s\<lparr>players := fst r, playerInputs := fst (snd r), spawnIndices := snd (snd r)\<rparr>;
          s2 = s1\<lparr>thrownBombs := filter keepThrownBomb
                                     (map (stepThrownBomb deltaTime) (thrownBombs s1))\<rparr>;
          s3 = paintBlocks s2;
          rb = updateBombs (geom s3) deltaTime (players s3) (bombs s3)
      in s3\<lparr>players := fst rb, bombs := snd rb\<rparr>)"

subsection \<open>Double arithmetic\<close>

text \<open>
  A finite double is a real of the form \<open>m * 2^e\<close> with \<open>\<bar>m\<bar> \<le> 2^53\<close> and \<open>e \<ge> -1074\<close>.
  \<open>round64\<close> is rounding to the nearest double, ties to the even significand, which is
  what \<^verbatim>\<open>+\<close>, \<^verbatim>\<open>-\<close>, \<^verbatim>\<open>*\<close>, \<^verbatim>\<open>/\<close> and a decimal literal do with the exact result.
  \<open>scaleExp\<close> finds the exponent that brings a positive real into \<open>[2^52, 2^53)\<close>; its
  first argument bounds the search and 1200 covers every double. Results of magnitude
  \<open>2^1024\<close> and more (the infinities) are not modelled.
\<close>

definition pow2 :: "int \<Rightarrow> real" where
  "pow2 e = (if e \<ge> 0 then 2 ^ nat e else 1 / 2 ^ nat (- e))"

definition roundEven :: "real \<Rightarrow> int" where
  "roundEven x =
     (let f = \<lfloor>x\<rfloor>; d = x - of_int f
      in if d < 1 / 2 then f else if d > 1 / 2 then f + 1
         else if even f then f else f + 1)"

fun scaleExp :: "nat \<Rightarrow> real \<Rightarrow> int \<Rightarrow> int" where
  "scaleExp 0 x e = e"
| "scaleExp (Suc fuel) x e =
     (if x \<ge> 2 ^ 53 then scaleExp fuel (x / 2) (e + 1)
      else if x < 2 ^ 52 then scaleExp fuel (x * 2) (e - 1)
      else e)"

definition round64 :: "real \<Rightarrow> real" where
  "round64 x =
     (if x = 0 then 0
      else (let e = max (scaleExp 1200 \<bar>x\<bar> 0) (- 1074)
            in sgn x * of_int (roundEven (\<bar>x\<bar> / pow2 e)) * pow2 e))"

definition dadd :: "real \<Rightarrow> real \<Rightarrow> real" where
  "dadd a b = round64 (a + b)"

definition dsub :: "real \<Rightarrow> real \<Rightarrow> real" where
  "dsub a b = round64 (a - b)"

definition dmul :: "real \<Rightarrow> real \<Rightarrow> real" where
  "dmul a b = round64 (a * b)"

definition ddiv :: "real \<Rightarrow> real \<Rightarrow> real" where
  "ddiv a b = round64 (a / b)"

text \<open>\<^verbatim>\<open>this.fixedTimestep = 1/60\<close> and the literal \<^verbatim>\<open>0.1\<close> as the doubles they are.\<close>

definition fixedTimestep64 :: real where
  "fixedTimestep64 = round64 (1 / 60)"

definition maxDelta :: real where
  "maxDelta = round64 (1 / 10)"

subsection \<open>The fixed-timestep loop \<^verbatim>\<open>update\<close>\<close>

text \<open>The \<^verbatim>\<open>while\<close> loop of \<^verbatim>\<open>update\<close>, with its counter \<^verbatim>\<open>updates\<close>; \<open>fixedStep\<close> is its
  body, and the loop returns the counter with the state. The time step that the body hands
  to \<^verbatim>\<open>updateGame\<close> is the double \<^verbatim>\<open>this.fixedTimestep\<close>.\<close>

definition fixedStep :: "gameServer \<Rightarrow> gameServer" where
  "fixedStep s =
     (let s1 = s\<lparr>gameTime := dadd (gameTime s) fixedTimestep64\<rparr>;
          s2 = updateGame fixedTimestep64 s1
      in s2\<lparr>accumulator := dsub (accumulator s2) fixedTimestep64\<rparr>)"

function updateLoop :: "nat \<Rightarrow> gameServer \<Rightarrow> gameServer \<times> nat" where
  "updateLoop updates s =
     (if accumulator s \<ge> fixedTimestep64 \<and> updates < 5
      then updateLoop (updates + 1) (fixedStep s)
      else (s, updates))"
  by pat_completeness auto
termination
  by (relation "measure (\<lambda>(updates, s). 5 - updates)") auto

definition capAccumulator :: "gameServer \<Rightarrow> gameServer" where
  "capAccumulator s =
     (if accumulator s \<ge> fixedTimestep64 then s\<lparr>accumulator := fixedTimestep64\<rparr> else s)"

definition addDelta :: "real \<Rightarrow> gameServer \<Rightarrow> gameServer" where
  "addDelta deltaTime0 s =
     (let deltaTime = min deltaTime0 maxDelta
      in s\<lparr>accumulator := dadd (accumulator s) deltaTime\<rparr>)"

definition update :: "real \<Rightarrow> gameServer \<Rightarrow> gameServer" where
  "update deltaTime s = capAccumulator (fst (updateLoop 0 (addDelta deltaTime s)))"

text \<open>The number of simulation steps that one call of \<^verbatim>\<open>update\<close> executes.\<close>

definition stepsRun :: "real \<Rightarrow> gameServer \<Rightarrow> nat" where
  "stepsRun deltaTime s = snd (updateLoop 0 (addDelta deltaTime s))"

declare updateLoop.simps [simp del]

text \<open>What the loop does to its counter and the two clocks alone.\<close>

function clockLoop :: "nat \<Rightarrow> real \<Rightarrow> real \<Rightarrow> nat \<times> real \<times> real" where
  "clockLoop updates acc gt =
     (if acc \<ge> fixedTimestep64 \<and> updates < 5
      then clockLoop (updates + 1) (dsub acc fixedTimestep64) (dadd gt fixedTimestep64)
      else (updates, acc, gt))"
  by pat_completeness auto
termination
  by (relation "measure (\<lambda>(updates, acc, gt). 5 - updates)") auto

declare clockLoop.simps [simp del]

text \<open>The counter, the accumulator and the game time after a call of \<^verbatim>\<open>update\<close> on a
  server with the given accumulator and game time.\<close>

definition updateClocks :: "real \<Rightarrow> real \<times> real \<Rightarrow> nat \<times> real \<times> real" where
  "updateClocks deltaTime ag =
     (let r = clockLoop 0 (dadd (fst ag) (min deltaTime maxDelta)) (snd ag);
          acc = fst (snd r)
      in (fst r, if acc \<ge> fixedTimestep64 then fixedTimestep64 else acc, snd (snd r)))"

subsection \<open>Players joining and leaving\<close>

definition freshInput :: inputState where
  "freshInput = \<lparr>key_a = False, key_d = False, key_w = False, key_s = False,
                 wasPressingW = False, wasPressingS = False\<rparr>"

definition addPlayer :: "string \<Rightarrow> color \<Rightarrow> gameServer \<Rightarrow> player \<times> gameServer" where
  "addPlayer pid t s =
     (let r = getSpawnPoint (geom s) t (spawnIndices s);
          p = \<lparr>playerId = pid, team = t, p_x = spawn_x (fst r), p_y = spawn_y (fst r),
               velocityY = 0, hasBomb = False, onGround = False, jumpsUsed = 0,
               wasInJumpPad = False\<rparr>
      in (p, s\<lparr>spawnIndices := snd r,
               playerInputs := AList.update pid freshInput (playerInputs s),
               players := AList.update pid p (players s)\<rparr>))"

definition removePlayer :: "string \<Rightarrow> gameServer \<Rightarrow> gameServer" where
  "removePlayer pid s =
     s\<lparr>players := AList.delete pid (players s),
       playerInputs := AList.delete pid (playerInputs s),
       lastProcessedSequence := AList.delete pid (lastProcessedSequence s)\<rparr>"

subsection \<open>\<^verbatim>\<open>applyInputs\<close>\<close>

text \<open>The payload of an input message comes from the client as parsed JSON, so it is any
  JavaScript value. Reading a property of \<^verbatim>\<open>undefined\<close> or \<^verbatim>\<open>null\<close> and calling a method
  that the value does not have throw a \<^verbatim>\<open>TypeError\<close>.\<close>

datatype jsval =
  JUndefined | JNull | JBool bool | JNum real | JStr string
  | JArr "jsval list" | JObj "(string \<times> jsval) list"

datatype jsError = TypeError

fun getProp :: "jsval \<Rightarrow> string \<Rightarrow> jsError + jsval" where
  "getProp JUndefined k = Inl TypeError"
| "getProp JNull k = Inl TypeError"
| "getProp (JObj kvs) k = Inr (case map_of kvs k of Some v \<Rightarrow> v | None \<Rightarrow> JUndefined)"
| "getProp v k = Inr JUndefined"

fun truthy :: "jsval \<Rightarrow> bool" where
  "truthy JUndefined = False"
| "truthy JNull = False"
| "truthy (JBool b) = b"
| "truthy (JNum r) = (r \<noteq> 0)"
| "truthy (JStr str) = (str \<noteq> [])"
| "truthy v = True"

text \<open>\<^verbatim>\<open>String.prototype.toLowerCase\<close> on the ASCII letters.\<close>

definition lowerChar :: "char \<Rightarrow> char" where
  "lowerChar c =
     (let n = (of_char c :: nat) in if 65 \<le> n \<and> n \<le> 90 then char_of (n + 32) else c)"

definition toLowerCase :: "jsval \<Rightarrow> jsError + string" where
  "toLowerCase v = (case v of JStr str \<Rightarrow> Inr (map lowerChar str) | _ \<Rightarrow> Inl TypeError)"

text \<open>The body of \<^verbatim>\<open>inputs.forEach\<close> for one event. The key states are only ever read as
  conditions, so the state keeps the truth value of \<^verbatim>\<open>input.pressed\<close>.\<close>

definition applyInputEvent :: "inputState \<Rightarrow> jsval \<Rightarrow> jsError + inputState" where
  "applyInputEvent inputState input =
     (case getProp input ''key'' of
        Inl e \<Rightarrow> Inl e
      | Inr k \<Rightarrow>
          (case toLowerCase k of
             Inl e \<Rightarrow> Inl e
           | Inr key \<Rightarrow>
               if key \<notin> set [''a'', ''d'', ''w'', ''s''] then Inr inputState
               else (case getProp input ''pressed'' of
                       Inl e \<Rightarrow> Inl e
                     | Inr pressed \<Rightarrow>
                         (let newState = truthy pressed
                          in if key = ''a'' then Inr (inputState\<lparr>key_a := newState\<rparr>)
                             else if key = ''d'' then Inr (inputState\<lparr>key_d := newState\<rparr>)
                             else if key = ''w'' then
                               Inr (inputState\<lparr>wasPressingW := key_w inputState,
                                               key_w := newState\<rparr>)
                             else Inr (if \<not> newState
                                       then inputState\<lparr>key_s := newState, wasPressingS := False\<rparr>
                                       else inputState\<lparr>key_s := newState\<rparr>)))))"

fun applyInputEvents :: "inputState \<Rightarrow> jsval list \<Rightarrow> jsError + inputState" where
  "applyInputEvents inputState [] = Inr inputState"
| "applyInputEvents inputState (input # rest) =
     (case applyInputEvent inputState input of
        Inl e \<Rightarrow> Inl e
      | Inr inputState' \<Rightarrow> applyInputEvents inputState' rest)"

text \<open>\<^verbatim>\<open>applyInputs(playerId, inputs, gameTime, sequence)\<close>; \<open>None\<close> is an \<^verbatim>\<open>undefined\<close>
  sequence, \<open>Inl\<close> the exception that leaves the handler.\<close>

definition applyInputs ::
  "string \<Rightarrow> jsval \<Rightarrow> int option \<Rightarrow> gameServer \<Rightarrow> jsError + gameServer" where
  "applyInputs pid inputs sequence s =
     (case map_of (players s) pid of
        None \<Rightarrow> Inr s
      | Some player \<Rightarrow>
          (let s1 = (if map_of (playerInputs s) pid = None
                     then s\<lparr>playerInputs := AList.update pid freshInput (playerInputs s)\<rparr>
                     else s);
               inputState = (case map_of (playerInputs s1) pid of
                               Some i \<Rightarrow> i | None \<Rightarrow> freshInput);
               s2 = (case sequence of
                       Some sq \<Rightarrow> s1\<lparr>lastProcessedSequence :=
                                        AList.update pid sq (lastProcessedSequence s1)\<rparr>
                     | None \<Rightarrow> s1)
           in case inputs of
                JArr events \<Rightarrow>
                  (case applyInputEvents inputState events of
                     Inl e \<Rightarrow> Inl e
                   | Inr inputState' \<Rightarrow>
                       Inr (s2\<lparr>playerInputs := AList.update pid inputState' (playerInputs s2)\<rparr>))
              | _ \<Rightarrow> Inl TypeError))"

subsection \<open>\<^verbatim>\<open>getSnapshot\<close>\<close>

record playerView =
  pv_playerId :: string
  pv_team :: color
  pv_x :: real
  pv_y :: real
  pv_velocityX :: real
  pv_velocityY :: real
  pv_hasBomb :: bool
  pv_onGround :: bool
  pv_jumpsUsed :: nat

record bombView =
  bv_id :: nat
  bv_x :: real
  bv_y :: real
  bv_collected :: bool
  bv_respawnTimer :: real

record snapshot =
  snap_tick :: int
  snap_serverTime :: int
  snap_gameTime :: real
  snap_players :: "playerView list"
  snap_thrownBombs :: "thrownBomb list"
  snap_bombs :: "bombView list"
  blockChanges :: "(nat \<times> nat \<times> color) list"
  lastProcessedSequences :: "(string \<times> int) list"

definition viewPlayer :: "gameServer \<Rightarrow> player \<Rightarrow> playerView" where
  "viewPlayer s p =
     (let velocityX = (case map_of (playerInputs s) (playerId p) of
                         None \<Rightarrow> 0
                       | Some inputState \<Rightarrow>
                           (let v = (if key_a inputState then - SPEED else 0)
                            in if key_d inputState then SPEED else v))
      in \<lparr>pv_playerId = playerId p, pv_team = team p, pv_x = p_x p, pv_y = p_y p,
          pv_velocityX = velocityX, pv_velocityY = velocityY p, pv_hasBomb = hasBomb p,
          pv_onGround = onGround p, pv_jumpsUsed = jumpsUsed p\<rparr>)"

definition viewBomb :: "bomb \<Rightarrow> bombView" where
  "viewBomb b = \<lparr>bv_id = bomb_id b, bv_x = bomb_x b, bv_y = bomb_y b,
                 bv_collected = collected b, bv_respawnTimer = respawnTimer b\<rparr>"

text \<open>\<^verbatim>\<open>getSnapshot\<close> reads the clock (\<open>now\<close> is \<^verbatim>\<open>Date.now()\<close>) and returns the message with
  the state it leaves behind. The tick is the floor of the double quotient of the game time by
  \<^verbatim>\<open>this.fixedTimestep\<close>.\<close>

definition getSnapshot :: "int \<Rightarrow> gameServer \<Rightarrow> snapshot \<times> gameServer" where
  "getSnapshot now s =
     (let tick = \<lfloor>ddiv (gameTime s) fixedTimestep64\<rfloor>;
          changes = map (\<lambda>rc. (fst rc, snd rc, colorAt (blockColors s) (fst rc) (snd rc)))
                      (filter (\<lambda>rc. fst rc < mapRows (geom s) \<and> snd rc < mapCols (geom s))
                         (changedBlocks s));
          s' = s\<lparr>changedBlocks := []\<rparr>
      in (\<lparr>snap_tick = tick, snap_serverTime = now, snap_gameTime = gameTime s',
           snap_players = map (\<lambda>kp. viewPlayer s' (snd kp)) (players s'),
           snap_thrownBombs = thrownBombs s',
           snap_bombs = map viewBomb (bombs s'),
           blockChanges = changes,
           lastProcessedSequences =
             foldl (\<lambda>acc kv. AList.update (fst kv) (snd kv) acc) [] (lastProcessedSequence s')\<rparr>,
          s'))"

section \<open>The round state machine\<close>

datatype phase = QUEUE | PLAYING | ENDED

record playerInfo =
  socketId :: string
  pi_team :: "color option"
  character :: "player option"

record manager =
  gameServer :: gameServer
  queued :: "(string \<times> playerInfo) list"
  gameState :: phase
  queueCountdown :: real
  gameCountdown :: real
  lastQueueUpdate :: int
  lastGameUpdate :: int
  roundNumber :: nat
  currentRoundStartTime :: "int option"

text \<open>\<^verbatim>\<open>startGame\<close>: \<open>queued\<close> is the map \<^verbatim>\<open>this.players\<close> of the manager; the loop over it
  carries \<^verbatim>\<open>teamIndex\<close>. \<open>now\<close> is \<^verbatim>\<open>Date.now()\<close> in milliseconds; the readings of the
  clock within one call are taken as one instant. The call ends with \<^verbatim>\<open>broadcastSnapshot\<close>,
  which builds a snapshot, and with it empties the set of changed blocks, and sends it to
  every socket: the snapshot is returned with the manager. The other messages
  (\<^verbatim>\<open>teamAssigned\<close>, the game state) and the database record leave the state alone.\<close>

fun assignTeams ::
  "nat \<Rightarrow> (string \<times> playerInfo) list \<Rightarrow> gameServer \<Rightarrow> (string \<times> playerInfo) list \<times> gameServer"
  where
  "assignTeams teamIndex [] gs = ([], gs)"
| "assignTeams teamIndex (kp # kps) gs =
     (let t = [Red, Blue] ! (teamIndex mod 2);
          r = addPlayer (fst kp) t gs;
          info = (snd kp)\<lparr>pi_team := Some t, character := Some (fst r)\<rparr>;
          rest = assignTeams (teamIndex + 1) kps (snd r)
      in ((fst kp, info) # fst rest, snd rest))"

definition broadcastSnapshot :: "int \<Rightarrow> manager \<Rightarrow> manager \<times> snapshot" where
  "broadcastSnapshot now m =
     (let r = getSnapshot now (gameServer m) in (m\<lparr>gameServer := snd r\<rparr>, fst r))"

definition startGame :: "int \<Rightarrow> manager \<Rightarrow> manager \<times> snapshot" where
  "startGame now m =
     (let m1 = m\<lparr>gameState := PLAYING, gameCountdown := 120, lastGameUpdate := now,
                 roundNumber := roundNumber m + 1, currentRoundStartTime := Some now\<rparr>;
          gs1 = resetAllBlocks (gameServer m1);
          gs2 = gs1\<lparr>gameTime := 0\<rparr>;
          gs3 = initializeBombs gs2;
          r = assignTeams 0 (queued m1) gs3
      in broadcastSnapshot now (m1\<lparr>queued := fst r, gameServer := snd r\<rparr>))"

text \<open>The \<^verbatim>\<open>QUEUE\<close> branch of \<^verbatim>\<open>updateTimers\<close>, in double arithmetic; the times are
  integers of milliseconds. When the countdown has run out it asks for the
  pause flag (an asynchronous read of the admin configuration, which answers \<^verbatim>\<open>false\<close> when
  the read fails) and parks the countdown at
  0.1 s; the flag it returns says that the question is out. \<open>queueExpired\<close> is the
  continuation that runs with the answer; it returns the snapshot that \<^verbatim>\<open>startGame\<close>
  broadcasts, if the game starts.\<close>

definition updateTimersQueue :: "int \<Rightarrow> manager \<Rightarrow> manager \<times> bool" where
  "updateTimersQueue now m =
     (let delta = ddiv (real_of_int (now - lastQueueUpdate m)) 1000;
          m1 = m\<lparr>lastQueueUpdate := now, queueCountdown := dsub (queueCountdown m) delta\<rparr>
      in if queueCountdown m1 \<le> 0 then (m1\<lparr>queueCountdown := round64 (1 / 10)\<rparr>, True)
         else (m1, False))"

definition queueExpired :: "int \<Rightarrow> bool \<Rightarrow> manager \<Rightarrow> manager \<times> snapshot option" where
  "queueExpired now isPaused m =
     (if isPaused then (m\<lparr>queueCountdown := 60\<rparr>, None)
      else if length (queued m) \<ge> 2
      then (let r = startGame now m in (fst r, Some (snd r)))
      else (m\<lparr>queueCountdown := 60\<rparr>, None))"

text \<open>One tick of the timers at time \<open>now\<close> in state \<^verbatim>\<open>QUEUE\<close>, followed, when the countdown
  has run out, by the continuation at time \<open>later\<close> with the pause flag it was given.\<close>

definition queueTick :: "int \<Rightarrow> int \<Rightarrow> bool \<Rightarrow> manager \<Rightarrow> manager \<times> snapshot option" where
  "queueTick now later isPaused m =
     (let r = updateTimersQueue now m
      in if snd r then queueExpired later isPaused (fst r) else (fst r, None))"

text \<open>The constructor of \<^verbatim>\<open>GameServer\<close> for a map file that loads.\<close>

definition newGameServer :: "mapData \<Rightarrow> gameServer" where
  "newGameServer md =
     (let g = loadMap md
      in initializeBombs
           \<lparr>geom = g, players = [], playerInputs = [], lastProcessedSequence = [],
            bombs = [], thrownBombs = [], gameTime = 0, accumulator = 0,
            spawnIndices = \<lparr>si_red = 0, si_blue = 0\<rparr>,
            blockColors = replicate (mapRows g) (replicate (mapCols g) White),
            changedBlocks = []\<rparr>)"

text \<open>Several input messages of one player, handled one after the other; each is a pair of
  the \<^verbatim>\<open>inputs\<close> array and the \<^verbatim>\<open>sequence\<close> of the message.\<close>

fun applyBatches :: "string \<Rightarrow> (jsval \<times> int option) list \<Rightarrow> gameServer \<Rightarrow> jsError + gameServer"
  where
  "applyBatches pid [] s = Inr s"
| "applyBatches pid (b # bs) s =
     (case applyInputs pid (fst b) (snd b) s of
        Inl e \<Rightarrow> Inl e
      | Inr s' \<Rightarrow> applyBatches pid bs s')"

definition recordedSequence :: "string \<Rightarrow> jsError + gameServer \<Rightarrow> int option" where
  "recordedSequence pid r =
     (case r of Inl e \<Rightarrow> None | Inr s \<Rightarrow> map_of (lastProcessedSequence s) pid)"

section \<open>A small map for concrete runs\<close>

text \<open>Five columns and three rows of blocks of 346 pixels. The bottom row holds two regular
  blocks in its first two cells; the third cell of the middle row holds a jump pad, which
  reaches to the right border and has nothing below it. Red spawns in the top left cell;
  blue has two spawn cells, of which only the first has a block right below it.\<close>

definition demoMap :: mapData where
  "demoMap = \<lparr>md_cols = 5, md_rows = 3, md_blocks = [[2, 0], [2, 1, 0], [1, 2, 9]],
     md_spawns_red = [(0, 0)], md_spawns_blue = [(1, 1), (0, 3)],
     md_bombSpawns = Some [(1, 1)]\<rparr>"

definition demoServer :: gameServer where
  "demoServer = snd (addPlayer ''p1'' Red (newGameServer demoMap))"

definition pressD :: jsval where
  "pressD = JArr [JObj [(''key'', JStr ''d''), (''pressed'', JBool True)]]"

definition releaseD :: jsval where
  "releaseD = JArr [JObj [(''key'', JStr ''d''), (''pressed'', JBool False)]]"

text \<open>The operations that change block colours between two snapshots.\<close>

datatype colorOp = SetBlockColor int int color | ResetAllBlocks

fun applyOp :: "gameServer \<Rightarrow> colorOp \<Rightarrow> gameServer" where
  "applyOp s (SetBlockColor row col c) = setBlockColor row col c s"
| "applyOp s ResetAllBlocks = resetAllBlocks s"

definition applyOps :: "colorOp list \<Rightarrow> gameServer \<Rightarrow> gameServer" where
  "applyOps ops s = foldl applyOp s ops"

definition changedCells :: "snapshot \<Rightarrow> (nat \<times> nat) list" where
  "changedCells snap = map (\<lambda>ch. (fst ch, fst (snd ch))) (blockChanges snap)"

text \<open>When an operation, run in state \<open>s\<close>, makes a cell dirty: \<^verbatim>\<open>setBlockColor\<close> on a cell
  of the grid that holds a block, if it changes the stored colour or the cell is at or right
  below a spawn cell; \<^verbatim>\<open>resetAllBlocks\<close> for every cell that holds a block.\<close>

fun dirties :: "gameServer \<Rightarrow> colorOp \<Rightarrow> nat \<times> nat \<Rightarrow> bool" where
  "dirties s (SetBlockColor row col c) rc =
     (0 \<le> row \<and> row < int (mapRows (geom s)) \<and> 0 \<le> col \<and> col < int (mapCols (geom s))
      \<and> rc = (nat row, nat col) \<and> cellAt (geom s) (nat row) (nat col) \<noteq> None
      \<and> (colorAt (blockColors s) (nat row) (nat col) \<noteq> c \<or> isAtSpawn (geom s) row col))"
| "dirties s ResetAllBlocks rc = (rc \<in> fst ` set (allCells (geom s)))"

definition noKeyEvent :: jsval where
  "noKeyEvent = JArr [JObj [(''pressed'', JBool True)]]"

text \<open>The colour grid has the shape that \<^verbatim>\<open>loadMap\<close> gives it: \<^verbatim>\<open>mapRows\<close> rows of
  \<^verbatim>\<open>mapCols\<close> cells.\<close>

definition gridShape :: "nat \<Rightarrow> nat \<Rightarrow> 'a list list \<Rightarrow> bool" where
  "gridShape rows cols cs = (length cs = rows \<and> list_all (\<lambda>row. length row = cols) cs)"

definition wfColors :: "gameServer \<Rightarrow> bool" where
  "wfColors s = gridShape (mapRows (geom s)) (mapCols (geom s)) (blockColors s)"

text \<open>The team of the \<open>i\<close>-th queued player under alternating assignment: red first.\<close>

definition alternating :: "nat \<Rightarrow> color" where
  "alternating i = (if even i then Red else Blue)"

definition teamOf :: "gameServer \<Rightarrow> string \<Rightarrow> color option" where
  "teamOf s pid = map_option team (map_of (players s) pid)"

text \<open>A lobby of three on the small map with 125 ms left on its countdown. The server still
  has a red block and a collected bomb.\<close>

definition demoLobbyServer :: gameServer where
  "demoLobbyServer =
     (setBlockColor 2 0 Red (newGameServer demoMap))
       \<lparr>bombs := map (\<lambda>b. b\<lparr>collected := True, respawnTimer := 3\<rparr>)
                    (bombs (newGameServer demoMap))\<rparr>"

definition demoManager :: manager where
  "demoManager =
     \<lparr>gameServer = demoLobbyServer,
      queued = [(''p1'', \<lparr>socketId = ''s1'', pi_team = None, character = None\<rparr>),
                (''p2'', \<lparr>socketId = ''s2'', pi_team = None, character = None\<rparr>),
                (''p3'', \<lparr>socketId = ''s3'', pi_team = None, character = None\<rparr>)],
      gameState = QUEUE, queueCountdown = 1 / 8, gameCountdown = 120,
      lastQueueUpdate = 0, lastGameUpdate = 0, roundNumber = 0,
      currentRoundStartTime = None\<rparr>"

text \<open>A server whose map has no bomb spawns never holds a pickup bomb: the constructor
  starts with none and \<^verbatim>\<open>initializeBombs\<close> returns at once.\<close>

definition bombsInv :: "gameServer \<Rightarrow> bool" where
  "bombsInv s = (bombSpawns (geom s) = None \<longrightarrow> bombs s = [])"

text \<open>The bomb spawns of the map that lie in the grid, in their order, and the place of the
  bomb for one of them: top centre of the block in that cell, or of the empty cell.\<close>

definition spawnInGrid :: "geometry \<Rightarrow> int \<times> int \<Rightarrow> bool" where
  "spawnInGrid g rc =
     (0 \<le> fst rc \<and> fst rc < int (mapRows g) \<and> 0 \<le> snd rc \<and> snd rc < int (mapCols g))"

definition bombPlace :: "geometry \<Rightarrow> int \<times> int \<Rightarrow> real \<times> real" where
  "bombPlace g rc =
     (case cellAt g (nat (fst rc)) (nat (snd rc)) of
        Some b \<Rightarrow> (block_x b + block_width b / 2, block_y b)
      | None \<Rightarrow> (startX g + of_int (snd rc) * blockWidth g + blockWidth g / 2,
                 startY g + of_int (fst rc) * blockHeight g))"

definition pressW :: inputState where
  "pressW = freshInput\<lparr>key_w := True\<rparr>"

text \<open>A player of the small map at a given position, with a given vertical velocity,
  ground flag and jump count.\<close>

definition demoPlayer :: "color \<Rightarrow> real \<Rightarrow> real \<Rightarrow> real \<Rightarrow> bool \<Rightarrow> nat \<Rightarrow> player" where
  "demoPlayer t x y vY og ju =
     \<lparr>playerId = ''p1'', team = t, p_x = x, p_y = y, velocityY = vY, hasBomb = False,
      onGround = og, jumpsUsed = ju, wasInJumpPad = False\<rparr>"

text \<open>The jump pad of the small map.\<close>

definition demoPad :: block where
  "demoPad = \<lparr>block_x = 787, block_y = 367, block_width = 346, block_height = 346,
               imageIndex = 9\<rparr>"

text \<open>A block that \<^verbatim>\<open>loadMap\<close> places in row \<open>row\<close> of the grid has its top at
  \<^verbatim>\<open>startY + row * blockHeight\<close>.\<close>

definition topOk :: "real \<Rightarrow> real \<Rightarrow> nat \<Rightarrow> block \<Rightarrow> bool" where
  "topOk bw sy rows b = (\<exists>row::int. 0 \<le> row \<and> row < int rows \<and> block_y b = sy + of_int row * bw)"

text \<open>The server of the small map with its player at rest on the first regular block.\<close>

definition demoResting :: gameServer where
  "demoResting = demoServer\<lparr>players := [(''p1'', demoPlayer Red 268 713 0 True 0)]\<rparr>"

text \<open>A blue player of the small map that falls past the bottom of the game area, to the
  right of the regular blocks and below the jump pad, and a red one at rest; both with no
  key held and fresh spawn counters.\<close>

definition demoFalling :: stepState where
  "demoFalling = \<lparr>st_player = demoPlayer Blue 1000 1075 1200 False 0,
                   st_input = Some freshInput,
                   st_spawn = \<lparr>si_red = 0, si_blue = 0\<rparr>\<rparr>"

definition demoStanding :: stepState where
  "demoStanding = \<lparr>st_player = demoPlayer Red 268 713 0 True 0,
                    st_input = Some freshInput,
                    st_spawn = \<lparr>si_red = 1, si_blue = 0\<rparr>\<rparr>"

text \<open>The spawn counters only grow.\<close>

definition spawnLe :: "spawnIndices \<Rightarrow> spawnIndices \<Rightarrow> bool" where
  "spawnLe a b = (si_red a \<le> si_red b \<and> si_blue a \<le> si_blue b)"

text \<open>The sequence that the next snapshot reports for a player.\<close>

definition acknowledgedSequence :: "int \<Rightarrow> string \<Rightarrow> jsError + gameServer \<Rightarrow> int option" where
  "acknowledgedSequence now pid r =
     (case r of Inl e \<Rightarrow> None
      | Inr s \<Rightarrow> map_of (lastProcessedSequences (fst (getSnapshot now s))) pid)"

text \<open>The same lobby on the small map without bomb spawns; its server holds no bomb.\<close>

definition demoBareManager :: manager where
  "demoBareManager =
     demoManager\<lparr>gameServer :=
       demoLobbyServer\<lparr>geom := (geom demoLobbyServer)\<lparr>bombSpawns := None\<rparr>, bombs := []\<rparr>\<rparr>"

section \<open>Verified properties\<close>

subsection \<open>Snapshots leave the simulation alone\<close>

text \<open>
  Claim C10. In every state of the game server, \<^verbatim>\<open>getSnapshot\<close> leaves the players, their
  input states, the pickup bombs, the thrown bombs, the block colours, the last processed
  sequences and the game time as they are: the state after the call is the state before it
  with an empty set of changed blocks.
\<close>

theorem getSnapshot_frame:
  "snd (getSnapshot now s) = s\<lparr>changedBlocks := []\<rparr>
   \<and> players (snd (getSnapshot now s)) = players s
   \<and> playerInputs (snd (getSnapshot now s)) = playerInputs s
   \<and> bombs (snd (getSnapshot now s)) = bombs s
   \<and> thrownBombs (snd (getSnapshot now s)) = thrownBombs s
   \<and> blockColors (snd (getSnapshot now s)) = blockColors s
   \<and> lastProcessedSequence (snd (getSnapshot now s)) = lastProcessedSequence s
   \<and> gameTime (snd (getSnapshot now s)) = gameTime s
   \<and> changedBlocks (snd (getSnapshot now s)) = []"
  by (simp add: getSnapshot_def Let_def)

subsection \<open>Input sequence acknowledgment\<close>

lemma map_of_foldl_update:
  "map_of (foldl (\<lambda>acc kv. AList.update (fst kv) (snd kv) acc) acc xs) k =
     (case map_of (rev xs) k of Some v \<Rightarrow> Some v | None \<Rightarrow> map_of acc k)"
proof (induction xs arbitrary: acc)
  case Nil
  show ?case by simp
next
  case (Cons x xs)
  show ?case
    by (simp add: Cons.IH update_conv' map_add_def split: option.splits)
qed

lemma map_of_rev_distinct:
  "distinct (map fst xs) \<Longrightarrow> map_of (rev xs) = map_of xs"
  by (metis distinct_rev map_of_inject_set rev_map set_rev)

lemma applyInputs_players:
  "applyInputs pid inputs sq s = Inr s' \<Longrightarrow> players s' = players s"
  by (auto simp: applyInputs_def Let_def split: option.splits jsval.splits sum.splits if_splits)

lemma applyInputs_sequence:
  "applyInputs pid inputs (Some q) s = Inr s' \<Longrightarrow> map_of (players s) pid \<noteq> None
   \<Longrightarrow> map_of (lastProcessedSequence s') pid = Some q"
  by (auto simp: applyInputs_def Let_def update_conv' split: option.splits jsval.splits sum.splits if_splits)

lemma applyInputs_distinct:
  "applyInputs pid inputs sq s = Inr s' \<Longrightarrow> distinct (map fst (lastProcessedSequence s))
   \<Longrightarrow> distinct (map fst (lastProcessedSequence s'))"
  by (auto simp: applyInputs_def Let_def distinct_update split: option.splits jsval.splits sum.splits if_splits)


lemma applyBatches_last:
  assumes "applyBatches pid bs s = Inr s'"
      and "map_of (players s) pid \<noteq> None"
      and "map snd bs = map Some sqs" and "sqs \<noteq> []"
      and "distinct (map fst (lastProcessedSequence s))"
  shows "map_of (lastProcessedSequence s') pid = Some (last sqs)
         \<and> distinct (map fst (lastProcessedSequence s'))"
  using assms
proof (induction bs arbitrary: s sqs)
  case Nil
  then show ?case by simp
next
  case (Cons b bs)
  from Cons.prems(3) obtain q qs where sqs: "sqs = q # qs" and b: "snd b = Some q"
    and rest: "map snd bs = map Some qs"
    by (cases sqs) auto
  from Cons.prems(1) obtain s1 where s1: "applyInputs pid (fst b) (Some q) s = Inr s1"
    and run: "applyBatches pid bs s1 = Inr s'"
    by (auto simp: b split: sum.splits)
  have pl: "map_of (players s1) pid \<noteq> None"
    using applyInputs_players[OF s1] Cons.prems(2) by simp
  have d1: "distinct (map fst (lastProcessedSequence s1))"
    using applyInputs_distinct[OF s1 Cons.prems(5)] .
  show ?case
  proof (cases qs)
    case Nil
    with rest have "bs = []" by simp
    with run have "s' = s1" by simp
    with applyInputs_sequence[OF s1 Cons.prems(2)] d1 show ?thesis
      by (simp add: sqs Nil)
  next
    case (Cons q' qs')
    then have "qs \<noteq> []" by simp
    from Cons.IH[OF run pl rest this d1] show ?thesis
      by (simp add: sqs Cons)
  qed
qed

lemma sorted_last_Max:
  "sorted (sqs :: int list) \<Longrightarrow> sqs \<noteq> [] \<Longrightarrow> last sqs = Max (set sqs)"
proof (induction sqs)
  case Nil
  then show ?case by simp
next
  case (Cons a xs)
  show ?case
  proof (cases "xs = []")
    case True
    then show ?thesis by simp
  next
    case False
    with Cons have l: "last xs = Max (set xs)" by simp
    from False have "hd xs \<in> set xs" by simp
    moreover from Cons.prems have "\<forall>x\<in>set xs. a \<le> x" by simp
    ultimately have "a \<le> Max (set xs)"
      using False by (meson List.finite_set Max_ge order_trans)
    with l False show ?thesis by (simp add: max_def)
  qed
qed

text \<open>
  Claim C7, as the code has it. \<^verbatim>\<open>applyInputs\<close> overwrites the recorded sequence of the
  player with the sequence of the message it handles. After a non-empty run of messages of an
  existing player that all carry a sequence, the store holds the sequence of the last message;
  this is the highest one when the sequences arrive in ascending order. Every snapshot built
  afterwards reports that value for the player and leaves the record unchanged.
\<close>

theorem lastProcessedSequence_is_last_applied:
  assumes "applyBatches pid bs s = Inr s'"
      and "map_of (players s) pid \<noteq> None"
      and "map snd bs = map Some sqs" and "sqs \<noteq> []"
      and "distinct (map fst (lastProcessedSequence s))"
  shows "map_of (lastProcessedSequence s') pid = Some (last sqs)
         \<and> (sorted sqs \<longrightarrow> last sqs = Max (set sqs))
         \<and> map_of (lastProcessedSequences (fst (getSnapshot now s'))) pid = Some (last sqs)
         \<and> lastProcessedSequence (snd (getSnapshot now s')) = lastProcessedSequence s'"
proof -
  from applyBatches_last[OF assms]
  have l: "map_of (lastProcessedSequence s') pid = Some (last sqs)"
    and d: "distinct (map fst (lastProcessedSequence s'))" by simp_all
  have "map_of (lastProcessedSequences (fst (getSnapshot now s'))) pid
        = map_of (lastProcessedSequence s') pid"
    by (simp add: getSnapshot_def Let_def map_of_foldl_update map_of_rev_distinct[OF d]
          split: option.splits)
  with l show ?thesis
    by (simp add: sorted_last_Max assms(4) getSnapshot_def Let_def)
qed

lemma demoServer_players:
  "map_of (players demoServer) ''p1'' \<noteq> None"
  by (simp add: demoServer_def addPlayer_def newGameServer_def initializeBombs_def Let_def
        loadMap_def demoMap_def)

lemma demoServer_sequences:
  "lastProcessedSequence demoServer = []"
  by (simp add: demoServer_def addPlayer_def newGameServer_def initializeBombs_def Let_def
        loadMap_def demoMap_def)

lemma applyInputs_ok:
  "map_of (players s) pid \<noteq> None \<Longrightarrow> inputs \<in> {pressD, releaseD}
   \<Longrightarrow> \<exists>s'. applyInputs pid inputs sq s = Inr s'"
  by (auto simp: applyInputs_def pressD_def releaseD_def applyInputEvent_def toLowerCase_def
        lowerChar_def Let_def split: option.splits)

text \<open>The run of claim C7: after the messages with the sequences 1, 2, 3 the store holds 3,
  and so does the next snapshot.\<close>

theorem lastProcessedSequence_witness:
  "recordedSequence ''p1''
     (applyBatches ''p1'' [(pressD, Some 1), (releaseD, Some 2), (pressD, Some 3)] demoServer)
   = Some 3
   \<and> acknowledgedSequence 0 ''p1''
       (applyBatches ''p1'' [(pressD, Some 1), (releaseD, Some 2), (pressD, Some 3)] demoServer)
     = Some 3"
proof -
  let ?bs = "[(pressD, Some 1), (releaseD, Some 2), (pressD, Some (3::int))]"
  obtain s1 where s1: "applyInputs ''p1'' pressD (Some 1) demoServer = Inr s1"
    using applyInputs_ok[OF demoServer_players, of pressD] by auto
  have p1: "map_of (players s1) ''p1'' \<noteq> None"
    using applyInputs_players[OF s1] demoServer_players by simp
  obtain s2 where s2: "applyInputs ''p1'' releaseD (Some 2) s1 = Inr s2"
    using applyInputs_ok[OF p1, of releaseD] by auto
  have p2: "map_of (players s2) ''p1'' \<noteq> None"
    using applyInputs_players[OF s2] p1 by simp
  obtain s3 where s3: "applyInputs ''p1'' pressD (Some 3) s2 = Inr s3"
    using applyInputs_ok[OF p2, of pressD] by auto
  have run: "applyBatches ''p1'' ?bs demoServer = Inr s3"
    by (simp add: s1 s2 s3)
  have "map_of (lastProcessedSequence s3) ''p1'' = Some (last [1, 2, 3])
        \<and> map_of (lastProcessedSequences (fst (getSnapshot 0 s3))) ''p1'' = Some (last [1, 2, 3])"
    using lastProcessedSequence_is_last_applied[OF run demoServer_players, of "[1, 2, 3]" 0]
    by (simp add: demoServer_sequences)
  then show ?thesis unfolding run recordedSequence_def acknowledgedSequence_def by simp
qed

text \<open>
  Claim C7 as the specification words it speaks of the highest sequence applied, for every
  order of the messages. When the message with sequence 2 is handled before the one with
  sequence 1, the store holds 1, which is not the highest.
\<close>

theorem lastProcessedSequence_counterexample:
  "recordedSequence ''p1''
     (applyBatches ''p1'' [(pressD, Some 2), (releaseD, Some 1)] demoServer) = Some 1
   \<and> Max {2, 1 :: int} = 2"
proof -
  obtain s1 where s1: "applyInputs ''p1'' pressD (Some 2) demoServer = Inr s1"
    using applyInputs_ok[OF demoServer_players, of pressD] by auto
  have p1: "map_of (players s1) ''p1'' \<noteq> None"
    using applyInputs_players[OF s1] demoServer_players by simp
  obtain s2 where s2: "applyInputs ''p1'' releaseD (Some 1) s1 = Inr s2"
    using applyInputs_ok[OF p1, of releaseD] by auto
  have "map_of (lastProcessedSequence s2) ''p1'' = Some 1"
    using applyInputs_sequence[OF s2 p1] .
  moreover have "applyBatches ''p1'' [(pressD, Some 2), (releaseD, Some 1)] demoServer = Inr s2"
    by (simp add: s1 s2)
  ultimately show ?thesis unfolding recordedSequence_def by simp
qed

subsection \<open>Delta compression of block changes\<close>

lemma set_setAdd: "set (setAdd k ks) = insert k (set ks)"
  by (auto simp: setAdd_def)

lemma setBlockColor_geom: "geom (setBlockColor row col c s) = geom s"
  by (simp add: setBlockColor_def Let_def)

lemma setBlockColor_changed:
  "set (changedBlocks (setBlockColor row col c s))
   = set (changedBlocks s) \<union> {rc. dirties s (SetBlockColor row col c) rc}"
  by (auto simp: setBlockColor_def Let_def set_setAdd)

lemma foldl_resetCell:
  "geom (foldl resetCell s cs) = geom s
   \<and> set (changedBlocks (foldl resetCell s cs)) = set (changedBlocks s) \<union> fst ` set cs"
  by (induction cs arbitrary: s) (auto simp: resetCell_def set_setAdd)

lemma applyOp_geom: "geom (applyOp s op) = geom s"
  by (cases op) (simp_all add: setBlockColor_geom resetAllBlocks_def foldl_resetCell)

lemma applyOp_changed:
  "set (changedBlocks (applyOp s op)) = set (changedBlocks s) \<union> {rc. dirties s op rc}"
proof (cases op)
  case (SetBlockColor row col c)
  then show ?thesis by (simp add: setBlockColor_changed)
next
  case ResetAllBlocks
  then show ?thesis by (auto simp: resetAllBlocks_def foldl_resetCell)
qed

lemma applyOps_snoc: "applyOps (ops @ [op]) s = applyOp (applyOps ops s) op"
  by (simp add: applyOps_def)

lemma applyOps_geom: "geom (applyOps ops s) = geom s"
  by (induction ops rule: rev_induct) (simp_all add: applyOps_def applyOp_geom)

lemma applyOps_changed:
  "set (changedBlocks (applyOps ops s))
   = set (changedBlocks s) \<union> {rc. \<exists>i<length ops. dirties (applyOps (take i ops) s) (ops ! i) rc}"
proof (induction ops rule: rev_induct)
  case Nil
  show ?case by (simp add: applyOps_def)
next
  case (snoc op ops)
  have split: "(\<exists>i<length (ops @ [op]). P i) \<longleftrightarrow> (\<exists>i<length ops. P i) \<or> P (length ops)" for P
    by (auto simp: less_Suc_eq)
  have old: "i < length ops \<Longrightarrow>
      dirties (applyOps (take i (ops @ [op])) s) ((ops @ [op]) ! i) rc
      = dirties (applyOps (take i ops) s) (ops ! i) rc" for i rc
    by (simp add: nth_append)
  have "{rc. \<exists>i<length (ops @ [op]). dirties (applyOps (take i (ops @ [op])) s) ((ops @ [op]) ! i) rc}
        = {rc. \<exists>i<length ops. dirties (applyOps (take i ops) s) (ops ! i) rc}
          \<union> {rc. dirties (applyOps ops s) op rc}"
    unfolding split using old by auto
  then show ?case
    unfolding applyOps_snoc applyOp_changed snoc.IH by auto
qed

lemma gridCells_range:
  "rc \<in> set (gridCells g) \<Longrightarrow> fst rc < mapRows g \<and> snd rc < mapCols g"
  by (auto simp: gridCells_def)

lemma allCells_range:
  "rc \<in> fst ` set (allCells g) \<Longrightarrow> fst rc < mapRows g \<and> snd rc < mapCols g"
proof -
  assume "rc \<in> fst ` set (allCells g)"
  then have "rc \<in> set (gridCells g)"
    by (auto simp: allCells_def List.map_filter_def split: option.splits)
  then show ?thesis by (rule gridCells_range)
qed

lemma dirties_range:
  assumes "dirties s op rc"
  shows "fst rc < mapRows (geom s) \<and> snd rc < mapCols (geom s)"
proof (cases op)
  case (SetBlockColor row col c)
  with assms show ?thesis by auto
next
  case ResetAllBlocks
  with assms show ?thesis using allCells_range[of rc "geom s"] by simp
qed

text \<open>
  Claim C2, as the code has it. Start right after a snapshot (the dirty set is empty) and run
  any sequence of \<^verbatim>\<open>setBlockColor\<close> and \<^verbatim>\<open>resetAllBlocks\<close> calls. The cells listed in
  \<^verbatim>\<open>blockChanges\<close> of the next snapshot are exactly the cells that one of the calls made
  dirty: a \<^verbatim>\<open>setBlockColor\<close> on a cell with a block that changed the stored colour or hit a
  cell at or right below a spawn cell, or a \<^verbatim>\<open>resetAllBlocks\<close>, which marks every cell with
  a block. Each entry carries the current colour of its cell, and the dirty set is empty
  after \<^verbatim>\<open>getSnapshot\<close>.
\<close>

theorem blockChanges_are_dirty_cells:
  assumes "changedBlocks s = []"
  shows "set (changedCells (fst (getSnapshot now (applyOps ops s))))
           = {rc. \<exists>i<length ops. dirties (applyOps (take i ops) s) (ops ! i) rc}
         \<and> blockChanges (fst (getSnapshot now (applyOps ops s)))
           = map (\<lambda>rc. (fst rc, snd rc, colorAt (blockColors (applyOps ops s)) (fst rc) (snd rc)))
               (changedCells (fst (getSnapshot now (applyOps ops s))))
         \<and> changedBlocks (snd (getSnapshot now (applyOps ops s))) = []"
proof -
  let ?s' = "applyOps ops s"
  let ?D = "{rc. \<exists>i<length ops. dirties (applyOps (take i ops) s) (ops ! i) rc}"
  have ch: "set (changedBlocks ?s') = ?D"
    using applyOps_changed[of ops s] assms by simp
  have "\<forall>rc \<in> ?D. fst rc < mapRows (geom ?s') \<and> snd rc < mapCols (geom ?s')"
  proof
    fix rc assume "rc \<in> ?D"
    then obtain i where "dirties (applyOps (take i ops) s) (ops ! i) rc" by blast
    from dirties_range[OF this] show "fst rc < mapRows (geom ?s') \<and> snd rc < mapCols (geom ?s')"
      by (simp add: applyOps_geom)
  qed
  with ch have keep: "filter (\<lambda>rc. fst rc < mapRows (geom ?s') \<and> snd rc < mapCols (geom ?s'))
                        (changedBlocks ?s') = changedBlocks ?s'"
    by (simp add: filter_id_conv)
  have cells: "changedCells (fst (getSnapshot now ?s')) = changedBlocks ?s'"
    by (simp add: changedCells_def getSnapshot_def Let_def keep o_def)
  show ?thesis
    unfolding cells using ch
    by (simp add: getSnapshot_def Let_def keep)
qed

lemma changedCells_getSnapshot:
  "changedCells (fst (getSnapshot now s))
   = filter (\<lambda>rc. fst rc < mapRows (geom s) \<and> snd rc < mapCols (geom s)) (changedBlocks s)"
  by (simp add: changedCells_def getSnapshot_def Let_def o_def)

text \<open>On the small map: painting cell (2,0) red and painting the white cell (2,1), which lies
  below a blue spawn, white again lists both cells.\<close>

theorem blockChanges_witness:
  "set (changedCells (fst (getSnapshot 0
          (applyOps [SetBlockColor 2 0 Red, SetBlockColor 2 1 White] demoServer))))
   = {(2, 0), (2, 1)}"
proof -
  let ?ops = "[SetBlockColor 2 0 Red, SetBlockColor 2 1 White]"
  have e: "changedBlocks demoServer = []" by code_simp
  have g: "mapRows (geom demoServer) = 3" "mapCols (geom demoServer) = 5"
    "cellAt (geom demoServer) 2 0 \<noteq> None" "cellAt (geom demoServer) 2 (Suc 0) \<noteq> None"
    "isAtSpawn (geom demoServer) 2 1"
    by code_simp+
  have c0: "colorAt (blockColors demoServer) 2 0 = White" by code_simp
  have c1: "colorAt (blockColors (setBlockColor 2 0 Red demoServer)) 2 1 = White" by code_simp
  have d0: "dirties (applyOps (take 0 ?ops) demoServer) (?ops ! 0) rc \<longleftrightarrow> rc = (2, 0)" for rc
    by (simp add: applyOps_def g c0)
  have d1: "dirties (applyOps (take 1 ?ops) demoServer) (?ops ! 1) rc \<longleftrightarrow> rc = (2, 1)" for rc
    by (simp add: applyOps_def g c1 setBlockColor_geom)
  have "(\<exists>i<length ?ops. P i) \<longleftrightarrow> P 0 \<or> P 1" for P :: "nat \<Rightarrow> bool"
    by (auto simp: less_Suc_eq numeral_2_eq_2)
  then have "{rc. \<exists>i<length ?ops. dirties (applyOps (take i ?ops) demoServer) (?ops ! i) rc}
        = {(2, 0), (2, 1)}"
    using d0 d1 by auto
  with blockChanges_are_dirty_cells[OF e, of 0 ?ops] show ?thesis by simp
qed

text \<open>
  Claim C2 as the specification words it fails in both directions. After a snapshot,
  \<^verbatim>\<open>resetAllBlocks\<close> lists cell (2,0) although its colour is white before and after and
  no spawn is near it; and cell (2,1), right below a spawn, is not listed when nothing
  touched it.
\<close>

theorem blockChanges_counterexample:
  "changedBlocks demoServer = []
   \<and> (2, 0) \<in> set (changedCells (fst (getSnapshot 0 (applyOps [ResetAllBlocks] demoServer))))
   \<and> colorAt (blockColors (applyOps [ResetAllBlocks] demoServer)) 2 0
       = colorAt (blockColors demoServer) 2 0
   \<and> isAtSpawn (geom demoServer) 2 0 = False
   \<and> isAtSpawn (geom demoServer) 2 1
   \<and> (2, 1) \<notin> set (changedCells (fst (getSnapshot 0 (applyOps [] demoServer))))"
  unfolding changedCells_getSnapshot by code_simp

subsection \<open>Invalid input events\<close>

text \<open>An event whose key is a string other than a, d, w, s (in either case) is dropped: the
  input state stays as it is.\<close>

lemma applyInputEvent_unknown_key:
  "map lowerChar k \<notin> {''a'', ''d'', ''w'', ''s''}
   \<Longrightarrow> applyInputEvent st (JObj [(''key'', JStr k), (''pressed'', v)]) = Inr st"
  by (simp add: applyInputEvent_def toLowerCase_def)

text \<open>
  Claim C8 says that an event with an unknown key or a malformed payload is dropped without
  an error. For an unknown key the code does that; for an event without a \<^verbatim>\<open>key\<close>
  property, \<^verbatim>\<open>input.key.toLowerCase()\<close> throws a \<^verbatim>\<open>TypeError\<close> out of \<^verbatim>\<open>applyInputs\<close>,
  which nothing catches.
\<close>

theorem applyInputs_missing_key_throws:
  "applyInputs ''p1'' noKeyEvent (Some 1) demoServer = Inl TypeError"
  by (simp add: applyInputs_def noKeyEvent_def applyInputEvent_def toLowerCase_def Let_def
        demoServer_def addPlayer_def newGameServer_def initializeBombs_def loadMap_def
        demoMap_def)

subsection \<open>The jump quota\<close>

text \<open>
  Claim C4, as the code has it. Take an edge-triggered jump (\<open>w\<close> pressed, not pressed at
  the previous check). A player that is over a jump pad or overlaps one is left as it is.
  Any other player on the ground gets the velocity \<^verbatim>\<open>JUMP_POWER\<close> and \<^verbatim>\<open>jumpsUsed = 1\<close>.
  In the air, touching no block and falling, any other player with one jump used gets
  \<^verbatim>\<open>JUMP_POWER\<close> and \<^verbatim>\<open>jumpsUsed = 2\<close>; with two jumps used it is left as it is. The latch
  remembers the pressed key in every case.
\<close>

theorem jump_quota:
  assumes "key_w i" and "\<not> wasPressingW i"
  shows "(onOrInsideJumpPad g p \<longrightarrow> fst (processJumpInput g (Some i) p) = p)
       \<and> (\<not> onOrInsideJumpPad g p \<and> onGround p \<longrightarrow>
            velocityY (fst (processJumpInput g (Some i) p)) = JUMP_POWER
            \<and> jumpsUsed (fst (processJumpInput g (Some i) p)) = 1)
       \<and> (\<not> onOrInsideJumpPad g p \<and> \<not> onGround p \<and> \<not> isTouchingBlock g (p_x p) (p_y p)
            \<and> velocityY p > 0 \<and> jumpsUsed p = 1 \<longrightarrow>
            velocityY (fst (processJumpInput g (Some i) p)) = JUMP_POWER
            \<and> jumpsUsed (fst (processJumpInput g (Some i) p)) = 2)
       \<and> (\<not> onOrInsideJumpPad g p \<and> \<not> onGround p \<and> \<not> isTouchingBlock g (p_x p) (p_y p)
            \<and> velocityY p > 0 \<and> jumpsUsed p \<ge> 2 \<longrightarrow>
            fst (processJumpInput g (Some i) p) = p)
       \<and> snd (processJumpInput g (Some i) p) = Some (i\<lparr>wasPressingW := True\<rparr>)"
  using assms by (simp add: processJumpInput_def Let_def MAX_JUMPS_def)

text \<open>On the small map: a jump from the first regular block, a second jump high in the air
  above it, a refused third one, and a refused jump on top of the jump pad.\<close>

theorem jump_quota_witness:
  "velocityY (fst (processJumpInput (loadMap demoMap) (Some pressW)
                    (demoPlayer Red 268 713 0 True 0))) = - 600
   \<and> jumpsUsed (fst (processJumpInput (loadMap demoMap) (Some pressW)
                    (demoPlayer Red 268 713 0 True 0))) = 1
   \<and> jumpsUsed (fst (processJumpInput (loadMap demoMap) (Some pressW)
                    (demoPlayer Red 268 300 100 False 1))) = 2
   \<and> velocityY (fst (processJumpInput (loadMap demoMap) (Some pressW)
                    (demoPlayer Red 268 300 100 False 2))) = 100
   \<and> jumpsUsed (fst (processJumpInput (loadMap demoMap) (Some pressW)
                    (demoPlayer Red 1306 367 0 True 0))) = 0"
proof -
  have k: "key_w pressW" "\<not> wasPressingW pressW"
    by (simp_all add: pressW_def freshInput_def)
  have a: "\<not> onOrInsideJumpPad (loadMap demoMap) (demoPlayer Red 268 713 0 True 0)"
    by code_simp
  have b: "\<not> onOrInsideJumpPad (loadMap demoMap) (demoPlayer Red 268 300 100 False 1)"
    "\<not> onOrInsideJumpPad (loadMap demoMap) (demoPlayer Red 268 300 100 False 2)"
    by code_simp+
  have c: "onOrInsideJumpPad (loadMap demoMap) (demoPlayer Red 1306 367 0 True 0)"
    by code_simp
  have t: "\<not> isTouchingBlock (loadMap demoMap) 268 300"
    by code_simp
  from jump_quota[OF k, of "loadMap demoMap" "demoPlayer Red 268 713 0 True 0"]
       jump_quota[OF k, of "loadMap demoMap" "demoPlayer Red 268 300 100 False 1"]
       jump_quota[OF k, of "loadMap demoMap" "demoPlayer Red 268 300 100 False 2"]
       jump_quota[OF k, of "loadMap demoMap" "demoPlayer Red 1306 367 0 True 0"]
       a b c t
  show ?thesis
    by (simp add: demoPlayer_def JUMP_POWER_def)
qed

text \<open>
  Claim C4 as the specification words it does not mention jump pads. A player that the
  ground check has put on top of the jump pad is on the ground, and its jump is refused;
  a falling player with one jump used that overlaps the jump pad and touches no block is
  refused the second jump as well.
\<close>

theorem jump_quota_counterexample:
  "onGround (groundCheck (loadMap demoMap) (demoPlayer Red 1306 367 0 False 0))
   \<and> fst (processJumpInput (loadMap demoMap) (Some pressW)
            (groundCheck (loadMap demoMap) (demoPlayer Red 1306 367 0 False 0)))
       = groundCheck (loadMap demoMap) (demoPlayer Red 1306 367 0 False 0)
   \<and> velocityY (groundCheck (loadMap demoMap) (demoPlayer Red 1306 367 0 False 0)) = 0
   \<and> isTouchingBlock (loadMap demoMap) 1306 567 = False
   \<and> jumpsUsed (fst (processJumpInput (loadMap demoMap) (Some pressW)
                       (demoPlayer Red 1306 567 100 False 1))) = 1
   \<and> velocityY (fst (processJumpInput (loadMap demoMap) (Some pressW)
                       (demoPlayer Red 1306 567 100 False 1))) = 100"
  by code_simp

subsection \<open>Jump pads are one-way\<close>

lemma firstSome_Some:
  "firstSome f bs = Some r \<Longrightarrow> \<exists>b \<in> set bs. f b = Some r"
  by (induction bs) (auto split: option.splits)

lemma collideBlock_jumpPad_up:
  "vY < 0 \<Longrightarrow> isJumpPad b \<Longrightarrow> collideBlock g x y vY prevY b = None"
  by (simp add: collideBlock_def Let_def)

lemma checkCollision_collided:
  assumes "collided (checkCollision g x y vY prevY)"
  shows "\<exists>b \<in> set (allBlocks g). collideBlock g x y vY prevY b = Some (checkCollision g x y vY prevY)"
proof (cases "firstSome (collideBlock g x y vY prevY) (allBlocks g)")
  case None
  with assms show ?thesis by (simp add: checkCollision_def)
next
  case (Some r)
  then have "checkCollision g x y vY prevY = r" by (simp add: checkCollision_def)
  with firstSome_Some[OF Some] show ?thesis by simp
qed

lemma checkCollision_up_regular:
  assumes "vY < 0" and "collided (checkCollision g x y vY prevY)"
  shows "\<exists>b \<in> set (allBlocks g). \<not> isJumpPad b
           \<and> collideBlock g x y vY prevY b = Some (checkCollision g x y vY prevY)"
proof -
  from checkCollision_collided[OF assms(2)] obtain b where b: "b \<in> set (allBlocks g)"
    and c: "collideBlock g x y vY prevY b = Some (checkCollision g x y vY prevY)" by blast
  from c collideBlock_jumpPad_up[OF assms(1), of b g x y prevY] have "\<not> isJumpPad b" by auto
  with b c show ?thesis by blast
qed

lemma verticalMove_up:
  assumes "velocityY p < 0"
  shows "(p_y (verticalMove g dt p) = p_y p + velocityY p * dt
          \<and> (velocityY (verticalMove g dt p) = velocityY p
              \<or> velocityY (verticalMove g dt p) = JUMP_PAD_BOUNCE))
       \<or> (\<not> checkJumpPadCollision g (p_x p) (p_y p + velocityY p * dt)
          \<and> \<not> checkJumpPadCollision g (p_x p) (p_y p)
          \<and> collided (checkCollision g (p_x p) (p_y p + velocityY p * dt) (velocityY p)
                        (Some (p_y p))))"
  using assms by (auto simp: verticalMove_def Let_def)

text \<open>
  Claim C6. With an upward velocity, the loop of \<^verbatim>\<open>checkCollision\<close> passes over every jump
  pad, so a collision it reports is one with a regular block. The vertical movement of a
  player that moves upward either takes the player to the new height, with the velocity
  kept or replaced by the jump-pad bounce, or it stops the player at a regular block while
  the player overlaps no jump pad, neither where it is nor where it would be.
\<close>

theorem jump_pad_one_way:
  assumes "vY < 0" and "velocityY p < 0"
  shows "(\<forall>b \<in> set (allBlocks g). isJumpPad b \<longrightarrow> collideBlock g x y vY prevY b = None)
       \<and> (collided (checkCollision g x y vY prevY) \<longrightarrow>
            (\<exists>b \<in> set (allBlocks g). \<not> isJumpPad b
               \<and> collideBlock g x y vY prevY b = Some (checkCollision g x y vY prevY)))
       \<and> ((p_y (verticalMove g dt p) = p_y p + velocityY p * dt
             \<and> (velocityY (verticalMove g dt p) = velocityY p
                 \<or> velocityY (verticalMove g dt p) = JUMP_PAD_BOUNCE))
           \<or> (\<not> checkJumpPadCollision g (p_x p) (p_y p + velocityY p * dt)
              \<and> \<not> checkJumpPadCollision g (p_x p) (p_y p)
              \<and> (\<exists>b \<in> set (allBlocks g). \<not> isJumpPad b
                    \<and> collideBlock g (p_x p) (p_y p + velocityY p * dt) (velocityY p)
                         (Some (p_y p)) b \<noteq> None)))"
proof (intro conjI)
  show "\<forall>b \<in> set (allBlocks g). isJumpPad b \<longrightarrow> collideBlock g x y vY prevY b = None"
    using collideBlock_jumpPad_up[OF assms(1)] by blast
  show "collided (checkCollision g x y vY prevY) \<longrightarrow>
          (\<exists>b \<in> set (allBlocks g). \<not> isJumpPad b
             \<and> collideBlock g x y vY prevY b = Some (checkCollision g x y vY prevY))"
    using checkCollision_up_regular[OF assms(1)] by blast
  from verticalMove_up[OF assms(2), of g dt]
  show "(p_y (verticalMove g dt p) = p_y p + velocityY p * dt
             \<and> (velocityY (verticalMove g dt p) = velocityY p
                 \<or> velocityY (verticalMove g dt p) = JUMP_PAD_BOUNCE))
           \<or> (\<not> checkJumpPadCollision g (p_x p) (p_y p + velocityY p * dt)
              \<and> \<not> checkJumpPadCollision g (p_x p) (p_y p)
              \<and> (\<exists>b \<in> set (allBlocks g). \<not> isJumpPad b
                    \<and> collideBlock g (p_x p) (p_y p + velocityY p * dt) (velocityY p)
                         (Some (p_y p)) b \<noteq> None))"
  proof (elim disjE)
    assume "p_y (verticalMove g dt p) = p_y p + velocityY p * dt
          \<and> (velocityY (verticalMove g dt p) = velocityY p
              \<or> velocityY (verticalMove g dt p) = JUMP_PAD_BOUNCE)"
    then show ?thesis by blast
  next
    assume h: "\<not> checkJumpPadCollision g (p_x p) (p_y p + velocityY p * dt)
          \<and> \<not> checkJumpPadCollision g (p_x p) (p_y p)
          \<and> collided (checkCollision g (p_x p) (p_y p + velocityY p * dt) (velocityY p)
                        (Some (p_y p)))"
    from checkCollision_up_regular[OF assms(2), of g "p_x p" "p_y p + velocityY p * dt" "Some (p_y p)"] h
    obtain b where "b \<in> set (allBlocks g)" "\<not> isJumpPad b"
      "collideBlock g (p_x p) (p_y p + velocityY p * dt) (velocityY p) (Some (p_y p)) b \<noteq> None"
      by auto
    with h show ?thesis by blast
  qed
qed

text \<open>On the small map: a player right below the jump pad moves up into it.\<close>

theorem jump_pad_one_way_witness:
  "collideBlock (loadMap demoMap) 1306 1054 (- 600) (Some 1064) demoPad = None
   \<and> collided (checkCollision (loadMap demoMap) 1306 1054 (- 600) (Some 1064)) = False
   \<and> p_y (verticalMove (loadMap demoMap) (1 / 60) (demoPlayer Red 1306 1064 (- 600) False 1)) = 1054"
proof -
  let ?p = "demoPlayer Red 1306 1064 (- 600) False 1"
  have v: "(- 600 :: real) < 0" "velocityY ?p < 0" by (simp_all add: demoPlayer_def)
  have pad: "demoPad \<in> set (allBlocks (loadMap demoMap))" "isJumpPad demoPad"
    by code_simp+
  have only: "\<forall>b \<in> set (allBlocks (loadMap demoMap)). \<not> isJumpPad b
               \<longrightarrow> collideBlock (loadMap demoMap) 1306 1054 (- 600) (Some 1064) b = None"
    by code_simp
  have inpad: "checkJumpPadCollision (loadMap demoMap) 1306 1054" by code_simp
  note t = jump_pad_one_way[OF v, of "loadMap demoMap" 1306 1054 "Some 1064" "1 / 60"]
  from t pad have 1: "collideBlock (loadMap demoMap) 1306 1054 (- 600) (Some 1064) demoPad = None"
    by blast
  from t only have 2: "collided (checkCollision (loadMap demoMap) 1306 1054 (- 600) (Some 1064)) = False"
    by fastforce
  from t inpad have 3: "p_y (verticalMove (loadMap demoMap) (1 / 60) ?p) = 1054"
    by (simp add: demoPlayer_def)
  from 1 2 3 show ?thesis by simp
qed

subsection \<open>Resting on the ground\<close>

text \<open>What \<^verbatim>\<open>getGroundY\<close> returns: the top of a candidate block that no candidate block
  lies above.\<close>

lemma foldl_groundStep_Some:
  "foldl (groundStep g x y) acc bs = Some t \<longleftrightarrow>
     ((acc = Some t \<or> (\<exists>b \<in> set bs. groundCandidate g x y b \<and> block_y b = t))
      \<and> (\<forall>c. acc = Some c \<longrightarrow> t \<le> c)
      \<and> (\<forall>b \<in> set bs. groundCandidate g x y b \<longrightarrow> t \<le> block_y b))"
proof (induction bs arbitrary: acc)
  case Nil
  show ?case by auto
next
  case (Cons b bs)
  show ?case
  proof (cases "groundCandidate g x y b")
    case False
    then have "groundStep g x y acc b = acc" by (simp add: groundStep_def)
    with False show ?thesis by (simp add: Cons.IH)
  next
    case True
    show ?thesis
    proof (cases acc)
      case None
      with True have "groundStep g x y acc b = Some (block_y b)" by (simp add: groundStep_def)
      with True None show ?thesis by (auto simp: Cons.IH)
    next
      case (Some c)
      with True have "groundStep g x y acc b = Some (min c (block_y b))"
        by (simp add: groundStep_def min_def)
      with True Some show ?thesis by (auto simp: Cons.IH min_def split: if_splits)
    qed
  qed
qed

lemma getGroundY_Some:
  "getGroundY g x y = Some t \<longleftrightarrow>
     ((\<exists>b \<in> set (allBlocks g). groundCandidate g x y b \<and> block_y b = t)
      \<and> (\<forall>b \<in> set (allBlocks g). groundCandidate g x y b \<longrightarrow> t \<le> block_y b))"
  by (simp add: getGroundY_def foldl_groundStep_Some)

lemma getGroundY_shift:
  assumes "getGroundY g x y = Some y" and "0 \<le> d" and "d \<le> 3"
  shows "getGroundY g x (y + d) = Some y"
proof -
  from assms(1) obtain b where b: "b \<in> set (allBlocks g)" "groundCandidate g x y b" "block_y b = y"
    and low: "\<forall>b \<in> set (allBlocks g). groundCandidate g x y b \<longrightarrow> y \<le> block_y b"
    unfolding getGroundY_Some by blast
  have 1: "groundCandidate g x (y + d) b"
    using b assms(2,3) by (simp add: groundCandidate_def Let_def)
  have 2: "y \<le> block_y c" if "c \<in> set (allBlocks g)" "groundCandidate g x (y + d) c" for c
  proof (rule ccontr)
    assume "\<not> y \<le> block_y c"
    with that(2) assms(2,3) have "groundCandidate g x y c"
      by (simp add: groundCandidate_def Let_def)
    with low that(1) \<open>\<not> y \<le> block_y c\<close> show False by blast
  qed
  from b(1,3) 1 2 show ?thesis unfolding getGroundY_Some by blast
qed

text \<open>The grid of a loaded map lies inside the game area: no block top is below 1060.\<close>

lemma loadMap_blockWidth:
  "0 \<le> blockWidth (loadMap md) \<and> blockWidth (loadMap md) * real (mapRows (loadMap md)) \<le> 1040
   \<and> 0 < mapRows (loadMap md)
   \<and> blockHeight (loadMap md) = blockWidth (loadMap md)
   \<and> startY (loadMap md) = (1080 - blockWidth (loadMap md) * real (mapRows (loadMap md))) / 2"
proof -
  let ?m = "min (1880 / real (mapColsOf md)) (1040 / real (mapRowsOf md))"
  have r: "0 < real (mapRowsOf md)" and c: "0 < real (mapColsOf md)"
    by (simp_all add: mapRowsOf_def mapColsOf_def)
  have bw: "blockWidthOf md = of_int \<lfloor>?m\<rfloor>"
    by (simp add: blockWidthOf_def GAME_WIDTH_def GAME_HEIGHT_def)
  have m0: "0 \<le> ?m" using r c by (simp add: min_def)
  have bw0: "0 \<le> (of_int \<lfloor>?m\<rfloor> :: real)" using m0 by simp
  have "(of_int \<lfloor>?m\<rfloor> :: real) \<le> ?m" by (rule of_int_floor_le)
  also have "?m \<le> 1040 / real (mapRowsOf md)" by simp
  finally have "(of_int \<lfloor>?m\<rfloor> :: real) * real (mapRowsOf md) \<le> 1040"
    using r by (simp add: pos_le_divide_eq)
  with bw0 r show ?thesis
    by (simp add: loadMap_def bw[symmetric] startYOf_def GAME_HEIGHT_def)
qed

lemma placeBlock_tops:
  assumes "\<forall>r \<in> set grid. \<forall>c \<in> set r. \<forall>b. c = Some b \<longrightarrow> topOk bw sy rows b"
  shows "\<forall>r \<in> set (placeBlock rows cols bw sx sy grid bd). \<forall>c \<in> set r. \<forall>b. c = Some b \<longrightarrow> topOk bw sy rows b"
proof -
  have upd: "\<forall>r \<in> set (grid[i := (grid ! i)[j := Some nb]]). \<forall>c \<in> set r. \<forall>b. c = Some b \<longrightarrow> topOk bw sy rows b"
    if nb: "topOk bw sy rows nb" for i j nb
  proof (intro ballI allI impI)
    fix r c b assume r: "r \<in> set (grid[i := (grid ! i)[j := Some nb]])" and c: "c \<in> set r" and e: "c = Some b"
    from r have "r = (grid ! i)[j := Some nb] \<and> i < length grid \<or> r \<in> set grid"
      by (metis in_set_conv_nth length_list_update nth_list_update_eq nth_list_update_neq)
    then show "topOk bw sy rows b"
    proof
      assume h: "r = (grid ! i)[j := Some nb] \<and> i < length grid"
      with c have "c = Some nb \<or> c \<in> set (grid ! i)"
        using set_update_subset_insert[of "grid ! i" j "Some nb"] by auto
      moreover from h have "grid ! i \<in> set grid" by simp
      ultimately show ?thesis using e nb assms by blast
    next
      assume "r \<in> set grid"
      with c e assms show ?thesis by blast
    qed
  qed
  have "placeBlock rows cols bw sx sy grid bd = grid
        \<or> (\<exists>row col idx. 0 \<le> row \<and> row < int rows
              \<and> placeBlock rows cols bw sx sy grid bd
                  = grid[nat row := (grid ! nat row)[nat col :=
                      Some \<lparr>block_x = sx + of_int col * bw, block_y = sy + of_int row * bw,
                            block_width = bw, block_height = bw, imageIndex = idx\<rparr>]])"
    by (auto simp: placeBlock_def split: list.splits option.splits if_splits)
  then show ?thesis
  proof
    assume "placeBlock rows cols bw sx sy grid bd = grid"
    with assms show ?thesis by simp
  next
    assume "\<exists>row col idx. 0 \<le> row \<and> row < int rows
              \<and> placeBlock rows cols bw sx sy grid bd
                  = grid[nat row := (grid ! nat row)[nat col :=
                      Some \<lparr>block_x = sx + of_int col * bw, block_y = sy + of_int row * bw,
                            block_width = bw, block_height = bw, imageIndex = idx\<rparr>]]"
    then obtain row col idx where rng: "0 \<le> row" "row < int rows"
      and eq: "placeBlock rows cols bw sx sy grid bd
                  = grid[nat row := (grid ! nat row)[nat col :=
                      Some \<lparr>block_x = sx + of_int col * bw, block_y = sy + of_int row * bw,
                            block_width = bw, block_height = bw, imageIndex = idx\<rparr>]]"
      by blast
    have "topOk bw sy rows \<lparr>block_x = sx + of_int col * bw, block_y = sy + of_int row * bw,
                            block_width = bw, block_height = bw, imageIndex = idx\<rparr>"
      unfolding topOk_def using rng by auto
    from upd[OF this] show ?thesis unfolding eq .
  qed
qed

lemma foldl_placeBlock_tops:
  assumes "\<forall>r \<in> set grid. \<forall>c \<in> set r. \<forall>b. c = Some b \<longrightarrow> topOk bw sy rows b"
  shows "\<forall>r \<in> set (foldl (placeBlock rows cols bw sx sy) grid bds).
           \<forall>c \<in> set r. \<forall>b. c = Some b \<longrightarrow> topOk bw sy rows b"
  using assms
proof (induction bds arbitrary: grid)
  case Nil
  then show ?case by simp
next
  case (Cons bd bds)
  from Cons.IH[OF placeBlock_tops[OF Cons.prems]] show ?case
    by (simp only: foldl_Cons)
qed

lemma allBlocks_in_grid:
  assumes "b \<in> set (allBlocks g)"
  shows "\<exists>r \<in> set (blocks g). Some b \<in> set r"
proof -
  from assms obtain rc where "cellAt g (fst rc) (snd rc) = Some b"
    by (auto simp: allBlocks_def allCells_def List.map_filter_def split: option.splits)
  then show ?thesis
    by (auto simp: cellAt_def split: if_splits) (metis nth_mem)
qed

lemma loadMap_blocks:
  "blocks (loadMap md) =
     foldl (placeBlock (mapRows (loadMap md)) (mapCols (loadMap md)) (blockWidth (loadMap md))
              (startX (loadMap md)) (startY (loadMap md)))
       (replicate (mapRows (loadMap md)) (replicate (mapCols (loadMap md)) None)) (md_blocks md)"
  by (simp add: loadMap_def)

lemma loadMap_block_top:
  assumes "b \<in> set (allBlocks (loadMap md))"
  shows "block_y b \<le> 1060"
proof -
  let ?g = "loadMap md"
  let ?bw = "blockWidth ?g" and ?rows = "mapRows ?g"
  note w = loadMap_blockWidth[of md]
  have "\<forall>r \<in> set (blocks ?g). \<forall>c \<in> set r. \<forall>b. c = Some b \<longrightarrow> topOk ?bw (startY ?g) ?rows b"
    by (subst loadMap_blocks, rule foldl_placeBlock_tops) simp
  with allBlocks_in_grid[OF assms] have "topOk ?bw (startY ?g) ?rows b" by blast
  then obtain row :: int where row: "0 \<le> row" "row < int ?rows"
    and y: "block_y b = startY ?g + of_int row * ?bw"
    unfolding topOk_def by blast
  from row have "real_of_int row \<le> real ?rows - 1" by linarith
  with w have "of_int row * ?bw \<le> (real ?rows - 1) * ?bw"
    by (intro mult_right_mono) simp_all
  also have "\<dots> = ?bw * real ?rows - ?bw" by (simp add: algebra_simps)
  finally have "block_y b \<le> startY ?g + ?bw * real ?rows - ?bw" using y by simp
  also have "\<dots> = 540 + (?bw * real ?rows) / 2 - ?bw" using w by simp
  finally show ?thesis using w by linarith
qed

text \<open>The tick of a player at rest, step by step.\<close>

lemma groundCheck_resting:
  assumes "getGroundY g (p_x p) (p_y p) = Some (p_y p)" and "velocityY p = 0"
  shows "groundCheck g p = p\<lparr>onGround := True, jumpsUsed := 0\<rparr>"
  using assms by (simp add: groundCheck_def)

lemma applyMovement_idle:
  "\<not> key_a i \<Longrightarrow> \<not> key_d i \<Longrightarrow> applyMovement g dt (Some i) p = p"
  by (simp add: applyMovement_def Let_def)

lemma processJumpInput_idle:
  "\<not> key_w i \<Longrightarrow> processJumpInput g (Some i) p = (p, Some (i\<lparr>wasPressingW := False\<rparr>))"
  by (simp add: processJumpInput_def Let_def)

lemma verticalMove_resting:
  assumes "getGroundY g (p_x q) (p_y q) = Some (p_y q)"
      and "getJumpPadAt g (p_x q) (p_y q) = None"
      and "velocityY q = 25"
  shows "p_x (verticalMove g fixedTimestep q) = p_x q
       \<and> ((p_y (verticalMove g fixedTimestep q) = p_y q + 5 / 12
            \<and> velocityY (verticalMove g fixedTimestep q) = 25)
           \<or> (p_y (verticalMove g fixedTimestep q) = p_y q
              \<and> velocityY (verticalMove g fixedTimestep q) = 0))"
  using assms by (simp add: verticalMove_def Let_def fixedTimestep_def)

lemma finalGroundCheck_snap:
  assumes "getGroundY g (p_x q) (p_y q) = Some y" and "getJumpPadAt g (p_x q) y = None"
      and "\<bar>p_y q - y\<bar> < 3" and "\<bar>velocityY q\<bar> < 36"
  shows "finalGroundCheck g q = q\<lparr>p_y := y, velocityY := 0, onGround := True, jumpsUsed := 0\<rparr>"
proof -
  from assms(4) have "\<not> velocityY q < - 400" by linarith
  with assms show ?thesis by (simp add: finalGroundCheck_def Let_def)
qed

lemma safetyCheck_grounded:
  assumes "getGroundY g (p_x q) (p_y q) = Some (p_y q)" and "velocityY q = 0" and "onGround q"
  shows "safetyCheck g (q, si) = (q, si)"
  using assms by (simp add: safetyCheck_def Let_def)

lemma fallCheck_inside:
  "p_y q \<le> GAME_HEIGHT \<Longrightarrow> fallCheck g (q, si) = (q, si)"
  by (simp add: fallCheck_def Let_def)

lemma stepPlayer_resting:
  assumes ground: "getGroundY g (p_x p) (p_y p) = Some (p_y p)"
      and nopad: "getJumpPadAt g (p_x p) (p_y p) = None"
      and v0: "velocityY p = 0"
      and keys: "\<not> key_a i" "\<not> key_d i" "\<not> key_w i"
      and low: "p_y p \<le> GAME_HEIGHT"
  shows "p_y (st_player (stepPlayer g fixedTimestep \<lparr>st_player = p, st_input = Some i, st_spawn = si\<rparr>))
           = p_y p
       \<and> velocityY (st_player (stepPlayer g fixedTimestep
                        \<lparr>st_player = p, st_input = Some i, st_spawn = si\<rparr>)) = 0
       \<and> onGround (st_player (stepPlayer g fixedTimestep
                        \<lparr>st_player = p, st_input = Some i, st_spawn = si\<rparr>))"
proof -
  define p1 where "p1 = p\<lparr>onGround := True, jumpsUsed := 0\<rparr>"
  define p3 where "p3 = applyGravity fixedTimestep p1"
  define p4 where "p4 = verticalMove g fixedTimestep p3"
  define p5 where "p5 = finalGroundCheck g p4"
  define p6 where "p6 = updateJumpPadState g p5"
  have f3: "p_x p3 = p_x p" "p_y p3 = p_y p" "velocityY p3 = 25"
    by (simp_all add: p3_def p1_def applyGravity_def Let_def v0 consts_defs)
  from verticalMove_resting[of g p3] ground nopad f3
  have f4: "p_x p4 = p_x p"
    and c4: "(p_y p4 = p_y p + 5 / 12 \<and> velocityY p4 = 25) \<or> (p_y p4 = p_y p \<and> velocityY p4 = 0)"
    by (simp_all add: p4_def)
  have g4: "getGroundY g (p_x p4) (p_y p4) = Some (p_y p)"
    using c4 getGroundY_shift[OF ground, of "5 / 12"] ground f4 by auto
  have "finalGroundCheck g p4 = p4\<lparr>p_y := p_y p, velocityY := 0, onGround := True, jumpsUsed := 0\<rparr>"
    using c4 by (intro finalGroundCheck_snap g4) (auto simp: f4 nopad)
  then have f5: "p_x p5 = p_x p" "p_y p5 = p_y p" "velocityY p5 = 0" "onGround p5"
    by (simp_all add: p5_def f4)
  have f6: "p_x p6 = p_x p" "p_y p6 = p_y p" "velocityY p6 = 0" "onGround p6"
    by (simp_all add: p6_def updateJumpPadState_def f5)
  have s7: "safetyCheck g (p6, si) = (p6, si)"
    by (rule safetyCheck_grounded) (simp_all add: f6 ground)
  have s9: "fallCheck g (boundaryCheck g p6, si) = (boundaryCheck g p6, si)"
    by (rule fallCheck_inside) (simp add: boundaryCheck_def f6 low)
  have "st_player (stepPlayer g fixedTimestep \<lparr>st_player = p, st_input = Some i, st_spawn = si\<rparr>)
        = boundaryCheck g p6"
    unfolding stepPlayer_def Let_def
    by (simp add: groundCheck_resting[OF ground v0] applyMovement_idle keys processJumpInput_idle
          p1_def[symmetric] p3_def[symmetric] p4_def[symmetric] p5_def[symmetric]
          p6_def[symmetric] s7 s9)
  then show ?thesis by (simp add: boundaryCheck_def f6)
qed


lemma stepPlayers_keys:
  "map fst (fst (stepPlayers g dt ps inputs si)) = map fst ps"
  by (induction g dt ps inputs si rule: stepPlayers.induct) (simp_all add: Let_def)

lemma stepPlayers_nth:
  assumes "distinct (map fst ps)" and "k < length ps"
  shows "\<exists>si'. snd (fst (stepPlayers g dt ps inputs si) ! k)
           = st_player (stepPlayer g dt
               \<lparr>st_player = snd (ps ! k), st_input = map_of inputs (fst (ps ! k)), st_spawn = si'\<rparr>)"
  using assms
proof (induction g dt ps inputs si arbitrary: k rule: stepPlayers.induct)
  case (1 g deltaTime inputs si)
  then show ?case by simp
next
  case (2 g deltaTime kp kps inputs si)
  let ?st = "stepPlayer g deltaTime
               \<lparr>st_player = snd kp, st_input = map_of inputs (fst kp), st_spawn = si\<rparr>"
  let ?inputs' = "case st_input ?st of None \<Rightarrow> inputs | Some i \<Rightarrow> AList.update (fst kp) i inputs"
  show ?case
  proof (cases k)
    case 0
    then show ?thesis by (auto simp: Let_def)
  next
    case (Suc j)
    with "2.prems" have d: "distinct (map fst kps)" and j: "j < length kps"
      and out: "fst kp \<notin> fst ` set kps"
      by auto
    from nth_mem[OF j] out have ne: "fst (kps ! j) \<noteq> fst kp"
      by (metis imageI)
    have same: "map_of ?inputs' (fst (kps ! j)) = map_of inputs (fst (kps ! j))"
      using ne by (simp add: update_conv' split: option.splits)
    from "2.IH"[OF refl refl d j] same show ?thesis
      by (simp add: Suc Let_def)
  qed
qed

lemma updateBomb_positions:
  "map (\<lambda>kp. (fst kp, p_y (snd kp), velocityY (snd kp), onGround (snd kp)))
       (fst (updateBomb g dt ps b))
   = map (\<lambda>kp. (fst kp, p_y (snd kp), velocityY (snd kp), onGround (snd kp))) ps"
  by (simp add: updateBomb_def Let_def o_def cong: map_cong)

lemma updateBombs_positions:
  "map (\<lambda>kp. (fst kp, p_y (snd kp), velocityY (snd kp), onGround (snd kp)))
       (fst (updateBombs g dt ps bs))
   = map (\<lambda>kp. (fst kp, p_y (snd kp), velocityY (snd kp), onGround (snd kp))) ps"
  by (induction g dt ps bs rule: updateBombs.induct) (simp_all add: Let_def updateBomb_positions)

lemma paintBlocks_players:
  "players (paintBlocks s) = players s \<and> geom (paintBlocks s) = geom s"
proof -
  have "players (foldl (\<lambda>s' t. setBlockColor (int (fst (fst t))) (int (snd (fst t)))
                                  (fst (snd t)) s') s0 ts) = players s0
        \<and> geom (foldl (\<lambda>s' t. setBlockColor (int (fst (fst t))) (int (snd (fst t)))
                                  (fst (snd t)) s') s0 ts) = geom s0"
    for s0 :: gameServer and ts :: blockTouches
    by (induction ts arbitrary: s0) (simp_all add: setBlockColor_def Let_def)
  then show ?thesis by (simp add: paintBlocks_def Let_def)
qed

lemma updateGame_player:
  assumes "distinct (map fst (players s))" and "k < length (players s)"
  shows "length (players (updateGame dt s)) = length (players s)
       \<and> fst (players (updateGame dt s) ! k) = fst (players s ! k)
       \<and> (\<exists>si' q. q = st_player (stepPlayer (geom s) (min dt (1 / 30))
                 \<lparr>st_player = snd (players s ! k),
                  st_input = map_of (playerInputs s) (fst (players s ! k)), st_spawn = si'\<rparr>)
            \<and> p_y (snd (players (updateGame dt s) ! k)) = p_y q
            \<and> velocityY (snd (players (updateGame dt s) ! k)) = velocityY q
            \<and> onGround (snd (players (updateGame dt s) ! k)) = onGround q)"
proof -
  let ?dt = "min dt (1 / 30)"
  let ?r = "stepPlayers (geom s) ?dt (players s) (playerInputs s) (spawnIndices s)"
  let ?f = "\<lambda>kp :: string \<times> player. (fst kp, p_y (snd kp), velocityY (snd kp), onGround (snd kp))"
  obtain gm bs where pl: "players (updateGame dt s) = fst (updateBombs gm ?dt (fst ?r) bs)"
    by (simp add: updateGame_def Let_def paintBlocks_players)
  have m: "map ?f (players (updateGame dt s)) = map ?f (fst ?r)"
    unfolding pl by (rule updateBombs_positions)
  have len: "length (players (updateGame dt s)) = length (players s)"
    using arg_cong[OF m, of length] arg_cong[OF stepPlayers_keys[of "geom s" ?dt "players s"
        "playerInputs s" "spawnIndices s"], of length] by simp
  have k': "k < length (fst ?r)" using len assms(2) arg_cong[OF m, of length] by simp
  have e: "?f (players (updateGame dt s) ! k) = ?f (fst ?r ! k)"
    using arg_cong[OF m, of "\<lambda>xs. xs ! k"] k' len assms(2) by simp
  have key: "fst (fst ?r ! k) = fst (players s ! k)"
    using arg_cong[OF stepPlayers_keys[of "geom s" ?dt "players s" "playerInputs s"
        "spawnIndices s"], of "\<lambda>xs. xs ! k"] k' assms(2) by simp
  from stepPlayers_nth[OF assms, of "geom s" ?dt "playerInputs s" "spawnIndices s"]
  obtain si' where q: "snd (fst ?r ! k) = st_player (stepPlayer (geom s) ?dt
      \<lparr>st_player = snd (players s ! k),
       st_input = map_of (playerInputs s) (fst (players s ! k)), st_spawn = si'\<rparr>)"
    by blast
  from e have e1: "fst (players (updateGame dt s) ! k) = fst (fst ?r ! k)"
    and e2: "p_y (snd (players (updateGame dt s) ! k)) = p_y (snd (fst ?r ! k))"
    and e3: "velocityY (snd (players (updateGame dt s) ! k)) = velocityY (snd (fst ?r ! k))"
    and e4: "onGround (snd (players (updateGame dt s) ! k)) = onGround (snd (fst ?r ! k))"
    by simp_all
  show ?thesis
  proof (intro conjI exI)
    show "length (players (updateGame dt s)) = length (players s)" by (rule len)
    show "fst (players (updateGame dt s) ! k) = fst (players s ! k)" using e1 key by simp
    show "snd (fst ?r ! k) = st_player (stepPlayer (geom s) ?dt
      \<lparr>st_player = snd (players s ! k),
       st_input = map_of (playerInputs s) (fst (players s ! k)), st_spawn = si'\<rparr>)"
      by (rule q)
    show "p_y (snd (players (updateGame dt s) ! k)) = p_y (snd (fst ?r ! k))" by (rule e2)
    show "velocityY (snd (players (updateGame dt s) ! k)) = velocityY (snd (fst ?r ! k))"
      by (rule e3)
    show "onGround (snd (players (updateGame dt s) ! k)) = onGround (snd (fst ?r ! k))"
      by (rule e4)
  qed
qed

text \<open>
  Claim C5. On a loaded map, take a player of the server that rests exactly on the ground
  (the ground found under it is at its own height), with no jump pad at that ground, with
  vertical velocity 0 and with no key held. After one tick of \<^verbatim>\<open>updateGame\<close> the player
  has the same height, velocity 0 again, and is on the ground: gravity moves it down by
  5/12 of a pixel and the final ground check puts it back.
\<close>

theorem ground_snap_idempotent:
  assumes "geom s = loadMap md"
      and "distinct (map fst (players s))" and "k < length (players s)"
      and "players s ! k = (pid, p)"
      and "map_of (playerInputs s) pid = Some i"
      and "\<not> key_a i \<and> \<not> key_d i \<and> \<not> key_w i \<and> \<not> key_s i"
      and "getGroundY (geom s) (p_x p) (p_y p) = Some (p_y p)"
      and "getJumpPadAt (geom s) (p_x p) (p_y p) = None"
      and "velocityY p = 0"
  shows "fst (players (updateGame fixedTimestep s) ! k) = pid
       \<and> p_y (snd (players (updateGame fixedTimestep s) ! k)) = p_y p
       \<and> velocityY (snd (players (updateGame fixedTimestep s) ! k)) = 0
       \<and> onGround (snd (players (updateGame fixedTimestep s) ! k))"
proof -
  from assms(7) obtain b where "b \<in> set (allBlocks (geom s))" and "block_y b = p_y p"
    unfolding getGroundY_Some by blast
  with loadMap_block_top[of b md] assms(1) have low: "p_y p \<le> GAME_HEIGHT"
    by (simp add: GAME_HEIGHT_def)
  have dt: "min fixedTimestep (1 / 30) = fixedTimestep" by (simp add: fixedTimestep_def)
  from updateGame_player[OF assms(2,3), of fixedTimestep] assms(4,5)
  obtain si' where key: "fst (players (updateGame fixedTimestep s) ! k) = pid"
    and y: "p_y (snd (players (updateGame fixedTimestep s) ! k))
            = p_y (st_player (stepPlayer (geom s) fixedTimestep
                \<lparr>st_player = p, st_input = Some i, st_spawn = si'\<rparr>))"
    and v: "velocityY (snd (players (updateGame fixedTimestep s) ! k))
            = velocityY (st_player (stepPlayer (geom s) fixedTimestep
                \<lparr>st_player = p, st_input = Some i, st_spawn = si'\<rparr>))"
    and o: "onGround (snd (players (updateGame fixedTimestep s) ! k))
            = onGround (st_player (stepPlayer (geom s) fixedTimestep
                \<lparr>st_player = p, st_input = Some i, st_spawn = si'\<rparr>))"
    unfolding dt by auto
  from stepPlayer_resting[OF assms(7,8,9) _ _ _ low, of i si'] assms(6)
  show ?thesis unfolding key y v o by simp
qed

text \<open>On the small map: the player at rest on the first regular block stays at height 713.\<close>

theorem ground_snap_witness:
  "p_y (snd (players (updateGame fixedTimestep demoResting) ! 0)) = 713
   \<and> velocityY (snd (players (updateGame fixedTimestep demoResting) ! 0)) = 0"
proof -
  let ?p = "demoPlayer Red 268 713 0 True 0"
  have g: "geom demoResting = loadMap demoMap"
    by (simp add: demoResting_def demoServer_def addPlayer_def newGameServer_def
          initializeBombs_def Let_def split: option.splits)
  have pl: "players demoResting = [(''p1'', ?p)]"
    by (simp add: demoResting_def)
  have inp: "map_of (playerInputs demoResting) ''p1'' = Some freshInput"
    by (simp add: demoResting_def demoServer_def addPlayer_def newGameServer_def
          initializeBombs_def Let_def split: option.splits)
  have keys: "\<not> key_a freshInput \<and> \<not> key_d freshInput \<and> \<not> key_w freshInput \<and> \<not> key_s freshInput"
    by (simp add: freshInput_def)
  have gr: "getGroundY (geom demoResting) (p_x ?p) (p_y ?p) = Some (p_y ?p)"
    unfolding g by code_simp
  have np: "getJumpPadAt (geom demoResting) (p_x ?p) (p_y ?p) = None"
    unfolding g by code_simp
  have v: "velocityY ?p = 0" by (simp add: demoPlayer_def)
  from ground_snap_idempotent[OF g _ _ _ inp keys gr np v, of 0] pl
  show ?thesis by (simp add: demoPlayer_def)
qed

subsection \<open>Determinism of the physics step\<close>

text \<open>The step reads and advances the round-robin spawn counters of the server when it
  respawns a player; they are the only state it touches beyond the player and the player's
  input entry.\<close>

lemma spawnLe_refl: "spawnLe a a"
  by (simp add: spawnLe_def)

lemma spawnLe_antisym: "spawnLe a b \<Longrightarrow> spawnLe b a \<Longrightarrow> a = b"
  by (simp add: spawnLe_def)

lemma spawnLe_trans: "spawnLe a b \<Longrightarrow> spawnLe b c \<Longrightarrow> spawnLe a c"
  by (simp add: spawnLe_def)

lemma getSpawnPoint_grows: "spawnLe si (snd (getSpawnPoint g t si))"
  by (cases t) (simp_all add: getSpawnPoint_def spawnLe_def Let_def)

lemma getSpawnPoint_same:
  assumes "snd (getSpawnPoint g t si) = si"
  shows "getSpawnPoint g t si' = (fst (getSpawnPoint g t si), si')"
proof -
  have r: "si\<lparr>si_red := si_red si + 1\<rparr> \<noteq> si"
    by (metis Suc_eq_plus1 n_not_Suc_n spawnIndices.select_convs(1) spawnIndices.surjective
          spawnIndices.update_convs(1))
  have b: "si\<lparr>si_blue := si_blue si + 1\<rparr> \<noteq> si"
    by (metis Suc_eq_plus1 n_not_Suc_n spawnIndices.select_convs(2) spawnIndices.surjective
          spawnIndices.update_convs(2))
  from assms r b show ?thesis
    by (cases t) (auto simp: getSpawnPoint_def Let_def split: if_splits)
qed

lemma safetyCheck_grows: "spawnLe si (snd (safetyCheck g (p, si)))"
  by (simp add: safetyCheck_def Let_def getSpawnPoint_grows spawnLe_refl split: option.splits)

lemma safetyCheck_same:
  assumes "snd (safetyCheck g (p, si)) = si"
  shows "safetyCheck g (p, si') = (fst (safetyCheck g (p, si)), si')"
  using assms getSpawnPoint_same[of g "team p" si si']
  by (auto simp: safetyCheck_def Let_def split: option.splits if_splits)

lemma fallCheck_grows: "spawnLe si (snd (fallCheck g (p, si)))"
  by (simp add: fallCheck_def Let_def getSpawnPoint_grows spawnLe_refl split: option.splits)

lemma fallCheck_same:
  assumes "snd (fallCheck g (p, si)) = si"
  shows "fallCheck g (p, si') = (fst (fallCheck g (p, si)), si')"
  using assms getSpawnPoint_same[of g "team p" si si']
  by (auto simp: fallCheck_def Let_def split: option.splits if_splits)

text \<open>
  Claim C1, as the code has it. The per-player step is a function of the player, the
  player's input state, the map, the time step and the spawn counters of the server. When
  a run leaves the spawn counters as they were (it took no spawn point by round-robin), a
  run from the same player, input state, map and time step gives the same player and the
  same input state whatever the spawn counters are, and leaves those counters alone.
\<close>

theorem stepPlayer_independent_of_spawn_counters:
  assumes "st_spawn (stepPlayer g dt st) = st_spawn st"
  shows "st_player (stepPlayer g dt (st\<lparr>st_spawn := si'\<rparr>)) = st_player (stepPlayer g dt st)
       \<and> st_input (stepPlayer g dt (st\<lparr>st_spawn := si'\<rparr>)) = st_input (stepPlayer g dt st)
       \<and> st_spawn (stepPlayer g dt (st\<lparr>st_spawn := si'\<rparr>)) = si'"
proof -
  define j where "j = processJumpInput g (st_input st)
                        (applyMovement g dt (st_input st) (groundCheck g (st_player st)))"
  define p6 where "p6 = updateJumpPadState g (finalGroundCheck g
                          (verticalMove g dt (applyGravity dt (fst j))))"
  define s7 where "s7 = safetyCheck g (p6, st_spawn st)"
  define s9 where "s9 = fallCheck g (boundaryCheck g (fst s7), snd s7)"
  have run: "stepPlayer g dt st = \<lparr>st_player = fst s9, st_input = snd j, st_spawn = snd s9\<rparr>"
    by (simp add: stepPlayer_def Let_def j_def p6_def s7_def s9_def)
  have run': "stepPlayer g dt (st\<lparr>st_spawn := si'\<rparr>)
      = \<lparr>st_player = fst (fallCheck g (boundaryCheck g (fst (safetyCheck g (p6, si'))),
                                      snd (safetyCheck g (p6, si')))),
         st_input = snd j,
         st_spawn = snd (fallCheck g (boundaryCheck g (fst (safetyCheck g (p6, si'))),
                                      snd (safetyCheck g (p6, si'))))\<rparr>"
    by (simp add: stepPlayer_def Let_def j_def p6_def)
  from assms run have e9: "snd s9 = st_spawn st" by simp
  have g7: "spawnLe (st_spawn st) (snd s7)"
    unfolding s7_def by (rule safetyCheck_grows)
  have g9: "spawnLe (snd s7) (snd s9)"
    unfolding s9_def by (rule fallCheck_grows)
  from g7 g9 e9 have e7: "snd s7 = st_spawn st"
    by (metis spawnLe_antisym)
  have a7: "safetyCheck g (p6, si') = (fst s7, si')"
    using safetyCheck_same[of g p6 "st_spawn st" si'] e7 by (simp add: s7_def)
  have a9: "fallCheck g (boundaryCheck g (fst s7), si') = (fst s9, si')"
    using fallCheck_same[of g "boundaryCheck g (fst s7)" "st_spawn st" si'] e7 e9
    by (simp add: s9_def)
  show ?thesis
    by (simp add: run run' a7 a9)
qed

text \<open>On the small map: the player at rest steps to the same state under other spawn
  counters.\<close>

theorem stepPlayer_determinism_witness:
  "st_player (stepPlayer (loadMap demoMap) (1 / 60) (demoStanding\<lparr>st_spawn := \<lparr>si_red = 5, si_blue = 7\<rparr>\<rparr>))
   = st_player (stepPlayer (loadMap demoMap) (1 / 60) demoStanding)
   \<and> st_input (stepPlayer (loadMap demoMap) (1 / 60) (demoStanding\<lparr>st_spawn := \<lparr>si_red = 5, si_blue = 7\<rparr>\<rparr>))
   = st_input (stepPlayer (loadMap demoMap) (1 / 60) demoStanding)"
proof -
  have "st_spawn (stepPlayer (loadMap demoMap) (1 / 60) demoStanding) = st_spawn demoStanding"
    by code_simp
  from stepPlayer_independent_of_spawn_counters[OF this, of "\<lparr>si_red = 5, si_blue = 7\<rparr>"]
  show ?thesis by simp
qed

text \<open>
  Claim C1 as the specification words it leaves the spawn counters out. A blue player that
  falls below the game area with no ground under it is respawned: the first run puts it on
  the first blue spawn point (x = 614) and advances the counter; the second run, from the
  same player, input state, map and time step on the server as the first run left it, puts
  it on the second blue spawn point (x = 1306).
\<close>

theorem stepPlayer_determinism_counterexample:
  "p_x (st_player (stepPlayer (loadMap demoMap) (1 / 60) demoFalling)) = 614
   \<and> p_x (st_player (stepPlayer (loadMap demoMap) (1 / 60)
            (demoFalling\<lparr>st_spawn := st_spawn (stepPlayer (loadMap demoMap) (1 / 60) demoFalling)\<rparr>)))
       = 1306"
  by code_simp

subsection \<open>Steps of the fixed-timestep loop\<close>

lemma scaleExp_numeral:
  "scaleExp (numeral k) x e =
     (if x \<ge> 2 ^ 53 then scaleExp (pred_numeral k) (x / 2) (e + 1)
      else if x < 2 ^ 52 then scaleExp (pred_numeral k) (x * 2) (e - 1)
      else e)"
  by (simp add: numeral_eq_Suc)

lemmas double_eval = round64_def scaleExp_numeral roundEven_def pow2_def Let_def
  dadd_def dsub_def dmul_def

text \<open>The two constants, as Node prints them: 0.016666666666666666 and 0.1.\<close>

lemma fixedTimestep64_value: "fixedTimestep64 = 4803839602528529 / 288230376151711744"
  by (simp add: fixedTimestep64_def double_eval)

lemma maxDelta_value: "maxDelta = 3602879701896397 / 36028797018963968"
  by (simp add: maxDelta_def double_eval)

lemma setBlockColor_frame:
  "gameTime (setBlockColor row col c s) = gameTime s
   \<and> accumulator (setBlockColor row col c s) = accumulator s"
  by (simp add: setBlockColor_def Let_def)

lemma paintBlocks_frame:
  "gameTime (paintBlocks s) = gameTime s \<and> accumulator (paintBlocks s) = accumulator s"
proof -
  have "gameTime (foldl (\<lambda>s' t. setBlockColor (int (fst (fst t))) (int (snd (fst t)))
                                  (fst (snd t)) s') s0 ts) = gameTime s0
        \<and> accumulator (foldl (\<lambda>s' t. setBlockColor (int (fst (fst t))) (int (snd (fst t)))
                                  (fst (snd t)) s') s0 ts) = accumulator s0"
    for s0 :: gameServer and ts :: blockTouches
    by (induction ts arbitrary: s0) (simp_all add: setBlockColor_frame)
  then show ?thesis by (simp add: paintBlocks_def Let_def)
qed

lemma updateGame_frame:
  "gameTime (updateGame dt s) = gameTime s \<and> accumulator (updateGame dt s) = accumulator s"
  by (simp add: updateGame_def Let_def paintBlocks_frame)

lemma fixedStep_clocks:
  "gameTime (fixedStep s) = dadd (gameTime s) fixedTimestep64
   \<and> accumulator (fixedStep s) = dsub (accumulator s) fixedTimestep64"
  by (simp add: fixedStep_def Let_def updateGame_frame)

lemma fixedStep_body:
  "fixedStep =
     (\<lambda>t. (updateGame fixedTimestep64 (t\<lparr>gameTime := dadd (gameTime t) fixedTimestep64\<rparr>))
             \<lparr>accumulator :=
                dsub (accumulator
                        (updateGame fixedTimestep64
                           (t\<lparr>gameTime := dadd (gameTime t) fixedTimestep64\<rparr>)))
                  fixedTimestep64\<rparr>)"
  by (rule ext) (simp add: fixedStep_def Let_def)

lemma funpow_clocks:
  "gameTime ((fixedStep ^^ n) s) = ((\<lambda>t. dadd t fixedTimestep64) ^^ n) (gameTime s)
   \<and> accumulator ((fixedStep ^^ n) s) = ((\<lambda>a. dsub a fixedTimestep64) ^^ n) (accumulator s)"
  by (induction n) (simp_all add: fixedStep_clocks)

lemma updateLoop_steps:
  "updates \<le> snd (updateLoop updates s)
   \<and> (updates \<le> 5 \<longrightarrow> snd (updateLoop updates s) \<le> 5)
   \<and> fst (updateLoop updates s) = (fixedStep ^^ (snd (updateLoop updates s) - updates)) s"
proof (induction updates s rule: updateLoop.induct)
  case (1 updates s)
  show ?case
  proof (cases "accumulator s \<ge> fixedTimestep64 \<and> updates < 5")
    case True
    then have eq: "updateLoop updates s = updateLoop (updates + 1) (fixedStep s)"
      by (subst updateLoop.simps) simp
    let ?n = "snd (updateLoop (updates + 1) (fixedStep s))"
    from "1.IH"[OF True] have ih1: "updates + 1 \<le> ?n"
      and ih2: "updates + 1 \<le> 5 \<longrightarrow> ?n \<le> 5"
      and ih3: "fst (updateLoop (updates + 1) (fixedStep s))
                = (fixedStep ^^ (?n - (updates + 1))) (fixedStep s)"
      by blast+
    from ih1 have k: "?n - updates = Suc (?n - (updates + 1))" by simp
    have "(fixedStep ^^ (?n - updates)) s = (fixedStep ^^ (?n - (updates + 1))) (fixedStep s)"
      unfolding k by (simp only: funpow_Suc_right o_apply)
    with ih1 ih2 ih3 True show ?thesis
      unfolding eq by simp
  next
    case False
    then have "updateLoop updates s = (s, updates)"
      by (subst updateLoop.simps) auto
    then show ?thesis by simp
  qed
qed

text \<open>The loop runs as long as the accumulator holds a full step, and stops at five steps or
  when it no longer does.\<close>

lemma updateLoop_guard:
  "(\<forall>j. j < snd (updateLoop updates s) - updates \<longrightarrow>
        fixedTimestep64 \<le> ((\<lambda>a. dsub a fixedTimestep64) ^^ j) (accumulator s))
   \<and> (5 \<le> snd (updateLoop updates s)
      \<or> ((\<lambda>a. dsub a fixedTimestep64) ^^ (snd (updateLoop updates s) - updates)) (accumulator s)
          < fixedTimestep64)"
proof (induction updates s rule: updateLoop.induct)
  case (1 updates s)
  show ?case
  proof (cases "accumulator s \<ge> fixedTimestep64 \<and> updates < 5")
    case True
    then have eq: "updateLoop updates s = updateLoop (updates + 1) (fixedStep s)"
      by (subst updateLoop.simps) simp
    let ?n = "snd (updateLoop (updates + 1) (fixedStep s))"
    let ?d = "\<lambda>a. dsub a fixedTimestep64"
    have ge: "updates + 1 \<le> ?n" using updateLoop_steps[of "updates + 1" "fixedStep s"] by simp
    then have k: "?n - updates = Suc (?n - (updates + 1))" by simp
    from "1.IH"[OF True]
    have ih1: "\<And>j. j < ?n - (updates + 1) \<Longrightarrow> fixedTimestep64 \<le> (?d ^^ j) (?d (accumulator s))"
      and ih2: "5 \<le> ?n \<or> (?d ^^ (?n - (updates + 1))) (?d (accumulator s)) < fixedTimestep64"
      by (simp_all add: fixedStep_clocks)
    have a: "fixedTimestep64 \<le> (?d ^^ j) (accumulator s)" if "j < ?n - updates" for j
    proof (cases j)
      case 0
      with True show ?thesis by simp
    next
      case (Suc i)
      with that k have "i < ?n - (updates + 1)" by simp
      from ih1[OF this] show ?thesis
        unfolding Suc by (simp only: funpow_Suc_right o_apply)
    qed
    have b: "5 \<le> ?n \<or> (?d ^^ (?n - updates)) (accumulator s) < fixedTimestep64"
      using ih2 unfolding k by (simp only: funpow_Suc_right o_apply)
    from a b show ?thesis unfolding eq by blast
  next
    case False
    then have "updateLoop updates s = (s, updates)"
      by (subst updateLoop.simps) auto
    with False show ?thesis by auto
  qed
qed

lemma updateLoop_clocks:
  "(snd (updateLoop updates s), accumulator (fst (updateLoop updates s)),
    gameTime (fst (updateLoop updates s)))
   = clockLoop updates (accumulator s) (gameTime s)"
proof (induction updates s rule: updateLoop.induct)
  case (1 updates s)
  show ?case
  proof (cases "accumulator s \<ge> fixedTimestep64 \<and> updates < 5")
    case True
    then have "updateLoop updates s = updateLoop (updates + 1) (fixedStep s)"
      by (subst updateLoop.simps) simp
    moreover from True have "clockLoop updates (accumulator s) (gameTime s)
        = clockLoop (updates + 1) (dsub (accumulator s) fixedTimestep64)
            (dadd (gameTime s) fixedTimestep64)"
      by (subst clockLoop.simps) simp
    ultimately show ?thesis using "1.IH"[OF True] by (simp add: fixedStep_clocks)
  next
    case False
    then have "updateLoop updates s = (s, updates)"
      by (subst updateLoop.simps) auto
    moreover from False have "clockLoop updates (accumulator s) (gameTime s)
        = (updates, accumulator s, gameTime s)"
      by (subst clockLoop.simps) auto
    ultimately show ?thesis by simp
  qed
qed

lemma update_clocks:
  "(stepsRun dt s, accumulator (update dt s), gameTime (update dt s))
   = updateClocks dt (accumulator s, gameTime s)"
proof -
  have a: "accumulator (addDelta dt s) = dadd (accumulator s) (min dt maxDelta)"
    and g: "gameTime (addDelta dt s) = gameTime s"
    by (simp_all add: addDelta_def Let_def)
  obtain n a' g' where c: "clockLoop 0 (dadd (accumulator s) (min dt maxDelta)) (gameTime s)
      = (n, a', g')"
    by (cases "clockLoop 0 (dadd (accumulator s) (min dt maxDelta)) (gameTime s)") auto
  from updateLoop_clocks[of 0 "addDelta dt s"]
  have "snd (updateLoop 0 (addDelta dt s)) = n"
    and "accumulator (fst (updateLoop 0 (addDelta dt s))) = a'"
    and "gameTime (fst (updateLoop 0 (addDelta dt s))) = g'"
    unfolding a g c by simp_all
  then show ?thesis
    by (simp add: stepsRun_def update_def updateClocks_def capAccumulator_def Let_def c)
qed


lemma clocks_run_1:
  "updateClocks (round64 (1 / 200)) (0, 0) = (0, round64 (1 / 200), 0)"
  by (simp add: updateClocks_def clockLoop.simps fixedTimestep64_value maxDelta_value double_eval)

lemma clocks_run_2:
  "updateClocks (round64 (9 / 200)) (round64 (1 / 200), 0)
   = (2, 4803839602528527 / 288230376151711744, 4803839602528529 / 144115188075855872)"
  by (simp add: updateClocks_def clockLoop.simps fixedTimestep64_value maxDelta_value double_eval)

lemma clocks_run_3:
  "updateClocks maxDelta (0, 0)
   = (5, 4803839602528529 / 288230376151711744, 6004799503160661 / 72057594037927936)"
  by (simp add: updateClocks_def clockLoop.simps fixedTimestep64_value maxDelta_value double_eval)

lemma clocks_run_4:
  "updateClocks fixedTimestep64
     (4803839602528529 / 288230376151711744, 6004799503160661 / 72057594037927936)
   = (2, 0, 8406719304424925 / 72057594037927936)"
  by (simp add: updateClocks_def clockLoop.simps fixedTimestep64_value maxDelta_value double_eval)


lemma demoServer_clocks: "accumulator demoServer = 0" "gameTime demoServer = 0"
  by (simp_all add: demoServer_def addPlayer_def newGameServer_def initializeBombs_def Let_def
        split: option.splits)

text \<open>
  Claim C9, as the code has it. The accumulator and the game time are doubles. Every call of
  \<^verbatim>\<open>update(deltaTime)\<close> clamps \<^verbatim>\<open>deltaTime\<close> to at most 0.1, adds it to the accumulator (one
  double addition) and then runs the loop body a number \<^term>\<open>stepsRun deltaTime s\<close> of times
  that is at most 5: the body runs as long as the accumulator, after the subtractions done so far,
  still holds a full step, and stops at the fifth step or when it no longer does. Each run of
  the body adds the double \<^verbatim>\<open>1/60\<close> to \<^verbatim>\<open>gameTime\<close>, calls \<^verbatim>\<open>updateGame(1/60)\<close> and subtracts
  \<^verbatim>\<open>1/60\<close> from the accumulator; afterwards an accumulator that still holds a full step is cut
  to one step. The game time after the call is the game time before it with the double
  \<^verbatim>\<open>1/60\<close> added once per executed step, each addition rounded.
\<close>

theorem update_fixed_steps:
  "stepsRun deltaTime s \<le> 5
   \<and> (\<forall>k < stepsRun deltaTime s.
         fixedTimestep64
           \<le> ((\<lambda>a. dsub a fixedTimestep64) ^^ k)
                (dadd (accumulator s) (min deltaTime maxDelta)))
   \<and> (stepsRun deltaTime s = 5
      \<or> ((\<lambda>a. dsub a fixedTimestep64) ^^ stepsRun deltaTime s)
            (dadd (accumulator s) (min deltaTime maxDelta)) < fixedTimestep64)
   \<and> update deltaTime s
       = (((\<lambda>t. let s1 = t\<lparr>gameTime := dadd (gameTime t) fixedTimestep64\<rparr>;
                     s2 = updateGame fixedTimestep64 s1
                 in s2\<lparr>accumulator := dsub (accumulator s2) fixedTimestep64\<rparr>)
            ^^ stepsRun deltaTime s)
           (s\<lparr>accumulator := dadd (accumulator s) (min deltaTime maxDelta)\<rparr>))
         \<lparr>accumulator :=
            min fixedTimestep64
              (((\<lambda>a. dsub a fixedTimestep64) ^^ stepsRun deltaTime s)
                 (dadd (accumulator s) (min deltaTime maxDelta)))\<rparr>
   \<and> gameTime (update deltaTime s)
       = ((\<lambda>t. dadd t fixedTimestep64) ^^ stepsRun deltaTime s) (gameTime s)"
proof -
  let ?s0 = "addDelta deltaTime s"
  let ?n = "stepsRun deltaTime s"
  let ?a0 = "dadd (accumulator s) (min deltaTime maxDelta)"
  let ?d = "\<lambda>a. dsub a fixedTimestep64"
  have s0: "?s0 = s\<lparr>accumulator := ?a0\<rparr>"
    by (simp add: addDelta_def Let_def)
  have a0: "accumulator ?s0 = ?a0" and g0: "gameTime ?s0 = gameTime s"
    by (simp_all add: s0)
  have body: "(\<lambda>t. let s1 = t\<lparr>gameTime := dadd (gameTime t) fixedTimestep64\<rparr>;
                       s2 = updateGame fixedTimestep64 s1
                   in s2\<lparr>accumulator := dsub (accumulator s2) fixedTimestep64\<rparr>) = fixedStep"
    by (rule ext) (simp add: fixedStep_def)
  have n5: "?n \<le> 5"
    using updateLoop_steps[of 0 ?s0] by (simp add: stepsRun_def)
  have run: "fst (updateLoop 0 ?s0) = (fixedStep ^^ ?n) ?s0"
    using updateLoop_steps[of 0 ?s0] by (simp add: stepsRun_def)
  have guard: "\<forall>k < ?n. fixedTimestep64 \<le> (?d ^^ k) ?a0"
    using updateLoop_guard[of 0 ?s0] by (simp add: stepsRun_def a0)
  have stop: "?n = 5 \<or> (?d ^^ ?n) ?a0 < fixedTimestep64"
    using updateLoop_guard[of 0 ?s0] n5 by (auto simp: stepsRun_def a0)
  have acc: "accumulator ((fixedStep ^^ ?n) ?s0) = (?d ^^ ?n) ?a0"
    by (simp add: funpow_clocks a0)
  have gt: "gameTime ((fixedStep ^^ ?n) ?s0) = ((\<lambda>t. dadd t fixedTimestep64) ^^ ?n) (gameTime s)"
    by (simp add: funpow_clocks g0)
  have cap: "capAccumulator t = t\<lparr>accumulator := min fixedTimestep64 (accumulator t)\<rparr>" for t
    by (simp add: capAccumulator_def min_def)
  have upd: "update deltaTime s
             = ((fixedStep ^^ ?n) ?s0)\<lparr>accumulator := min fixedTimestep64 ((?d ^^ ?n) ?a0)\<rparr>"
    by (simp only: update_def run cap acc)
  have gt': "gameTime (update deltaTime s)
             = ((\<lambda>t. dadd t fixedTimestep64) ^^ ?n) (gameTime s)"
    by (simp add: upd gt)
  from n5 guard stop upd gt' show ?thesis
    unfolding body s0 by blast
qed

text \<open>On the server of the small map: a call with 5 ms runs no step, the next call with 45 ms
  runs two steps (the accumulator holds \<^verbatim>\<open>0.049999999999999996\<close>, short of three steps), the
  loop guard held before the second of them, and the game time is the double \<^verbatim>\<open>1/60\<close> added
  twice to 0.\<close>

theorem update_fixed_steps_witness:
  "stepsRun (round64 (1 / 200)) demoServer = 0
   \<and> stepsRun (round64 (9 / 200)) (update (round64 (1 / 200)) demoServer) = 2
   \<and> fixedTimestep64
       \<le> dsub (dadd (round64 (1 / 200)) (min (round64 (9 / 200)) maxDelta)) fixedTimestep64
   \<and> gameTime (update (round64 (9 / 200)) (update (round64 (1 / 200)) demoServer))
       = dadd (dadd 0 fixedTimestep64) fixedTimestep64"
proof -
  let ?s1 = "update (round64 (1 / 200)) demoServer"
  from update_clocks[of "round64 (1 / 200)" demoServer]
  have r1: "stepsRun (round64 (1 / 200)) demoServer = 0"
    "accumulator ?s1 = round64 (1 / 200)" "gameTime ?s1 = 0"
    unfolding demoServer_clocks clocks_run_1 by simp_all
  from update_clocks[of "round64 (9 / 200)" ?s1]
  have r2: "stepsRun (round64 (9 / 200)) ?s1 = 2"
    unfolding r1 clocks_run_2 by simp
  note t = update_fixed_steps[of "round64 (9 / 200)" ?s1, unfolded r1 r2]
  from t have g: "\<forall>k<2. fixedTimestep64
      \<le> ((\<lambda>a. dsub a fixedTimestep64) ^^ k)
           (dadd (round64 (1 / 200)) (min (round64 (9 / 200)) maxDelta))"
    by blast
  from g[rule_format, of 1]
  have g1: "fixedTimestep64
      \<le> dsub (dadd (round64 (1 / 200)) (min (round64 (9 / 200)) maxDelta)) fixedTimestep64"
    by simp
  from t have "gameTime (update (round64 (9 / 200)) ?s1)
      = ((\<lambda>t. dadd t fixedTimestep64) ^^ 2) 0"
    by blast
  then have g2: "gameTime (update (round64 (9 / 200)) ?s1)
      = dadd (dadd 0 fixedTimestep64) fixedTimestep64"
    by (simp add: numeral_2_eq_2)
  from r1(1) r2 g1 g2 show ?thesis by blast
qed

text \<open>
  Claim C9 as the specification words it, that \<^verbatim>\<open>gameTime\<close> increases by exactly the number of
  executed steps times \<^verbatim>\<open>1/60\<close>, fails in double arithmetic. On the server of the small map,
  \<^verbatim>\<open>update(0.1)\<close> runs five steps and leaves \<^verbatim>\<open>gameTime = 0.08333333333333333\<close>; the following
  \<^verbatim>\<open>update(1/60)\<close> runs two steps and leaves \<^verbatim>\<open>gameTime = 0.11666666666666665\<close>. The increase
  is neither twice the real \<^verbatim>\<open>1/60\<close>, nor twice the double \<^verbatim>\<open>1/60\<close>, and the result is not the
  double sum \<^verbatim>\<open>gameTime + 2 * (1/60)\<close>, which is \<^verbatim>\<open>0.11666666666666667\<close>.
\<close>

theorem update_fixed_steps_counterexample:
  "stepsRun maxDelta demoServer = 5
   \<and> stepsRun fixedTimestep64 (update maxDelta demoServer) = 2
   \<and> gameTime (update fixedTimestep64 (update maxDelta demoServer))
        - gameTime (update maxDelta demoServer) \<noteq> 2 * (1 / 60)
   \<and> gameTime (update fixedTimestep64 (update maxDelta demoServer))
        - gameTime (update maxDelta demoServer) \<noteq> 2 * fixedTimestep64
   \<and> gameTime (update fixedTimestep64 (update maxDelta demoServer))
        \<noteq> dadd (gameTime (update maxDelta demoServer)) (dmul 2 fixedTimestep64)"
proof -
  let ?s1 = "update maxDelta demoServer"
  from update_clocks[of maxDelta demoServer]
  have r1: "stepsRun maxDelta demoServer = 5"
    "accumulator ?s1 = 4803839602528529 / 288230376151711744"
    "gameTime ?s1 = 6004799503160661 / 72057594037927936"
    unfolding demoServer_clocks clocks_run_3 by simp_all
  from update_clocks[of fixedTimestep64 ?s1]
  have r2: "stepsRun fixedTimestep64 ?s1 = 2"
    "gameTime (update fixedTimestep64 ?s1) = 8406719304424925 / 72057594037927936"
    unfolding r1 clocks_run_4 by simp_all
  have d: "dadd (6004799503160661 / 72057594037927936) (dmul 2 fixedTimestep64)
           = 4203359652212463 / 36028797018963968"
    by (simp add: fixedTimestep64_value double_eval)
  show ?thesis
    unfolding r1 r2 d by (simp add: fixedTimestep64_value)
qed

subsection \<open>Expiry of the queue countdown\<close>

lemma updateTimersQueue_expired:
  "dsub (queueCountdown m) (ddiv (real_of_int (now - lastQueueUpdate m)) 1000) \<le> 0
   \<Longrightarrow> updateTimersQueue now m
       = (m\<lparr>lastQueueUpdate := now, queueCountdown := round64 (1 / 10)\<rparr>, True)"
  by (simp add: updateTimersQueue_def Let_def)

lemma updateTimersQueue_running:
  "\<not> dsub (queueCountdown m) (ddiv (real_of_int (now - lastQueueUpdate m)) 1000) \<le> 0
   \<Longrightarrow> updateTimersQueue now m
       = (m\<lparr>lastQueueUpdate := now,
            queueCountdown :=
              dsub (queueCountdown m) (ddiv (real_of_int (now - lastQueueUpdate m)) 1000)\<rparr>,
          False)"
  by (simp add: updateTimersQueue_def Let_def)

lemma colorAt_setColorAt:
  "colorAt (setColorAt cs r c v) r' c'
   = (if r' = r \<and> c' = c \<and> r < length cs \<and> c < length (cs ! r) then v else colorAt cs r' c')"
proof (cases "r' = r")
  case True
  then show ?thesis
    by (cases "r < length cs") (auto simp: colorAt_def setColorAt_def nth_list_update)
next
  case False
  then show ?thesis
    by (auto simp: colorAt_def setColorAt_def nth_list_update)
qed

lemma gridShape_setColorAt:
  "gridShape R C cs \<Longrightarrow> gridShape R C (setColorAt cs r c v)"
proof -
  assume g: "gridShape R C cs"
  have "length (cs[r := (cs ! r)[c := v]] ! n) = C" if "n < length cs" for n
  proof (cases "n = r")
    case True
    with that g show ?thesis by (simp add: gridShape_def list_all_length)
  next
    case False
    with that g show ?thesis by (simp add: gridShape_def list_all_length)
  qed
  with g show ?thesis
    by (simp add: gridShape_def setColorAt_def list_all_length)
qed

lemma foldl_resetCell_colors:
  assumes "gridShape R C (blockColors s)"
      and "\<forall>rcb \<in> set cells. fst (fst rcb) < R \<and> snd (fst rcb) < C"
  shows "gridShape R C (blockColors (foldl resetCell s cells))
         \<and> (\<forall>r c. colorAt (blockColors (foldl resetCell s cells)) r c
                   = (if (r, c) \<in> fst ` set cells then White else colorAt (blockColors s) r c))"
  using assms
proof (induction cells arbitrary: s)
  case Nil
  then show ?case by simp
next
  case (Cons x cells)
  let ?s1 = "resetCell s x"
  have sh: "gridShape R C (blockColors ?s1)"
    using Cons.prems(1) by (simp add: resetCell_def gridShape_setColorAt)
  have rng: "fst (fst x) < length (blockColors s) \<and> snd (fst x) < length (blockColors s ! fst (fst x))"
    using Cons.prems by (auto simp: gridShape_def list_all_iff)
  have c1: "colorAt (blockColors ?s1) r c
            = (if (r, c) = fst x then White else colorAt (blockColors s) r c)" for r c
    using rng by (cases x) (auto simp: resetCell_def colorAt_setColorAt)
  from Cons.IH[OF sh] Cons.prems(2)
  have ih: "gridShape R C (blockColors (foldl resetCell ?s1 cells))"
    and ih2: "\<And>r c. colorAt (blockColors (foldl resetCell ?s1 cells)) r c
                   = (if (r, c) \<in> fst ` set cells then White else colorAt (blockColors ?s1) r c)"
    by simp_all
  show ?case
    using ih by (auto simp: ih2 c1)
qed

lemma foldl_resetCell_rest:
  "bombs (foldl resetCell s cs) = bombs s \<and> players (foldl resetCell s cs) = players s"
  by (induction cs arbitrary: s) (simp_all add: resetCell_def)

lemma resetAllBlocks_white:
  assumes "wfColors s"
  shows "wfColors (resetAllBlocks s)
         \<and> (\<forall>rc \<in> fst ` set (allCells (geom s)).
               colorAt (blockColors (resetAllBlocks s)) (fst rc) (snd rc) = White)"
proof -
  have rng: "\<forall>rcb \<in> set (allCells (geom s)).
               fst (fst rcb) < mapRows (geom s) \<and> snd (fst rcb) < mapCols (geom s)"
    using allCells_range[of _ "geom s"] by auto
  from foldl_resetCell_colors[OF assms[unfolded wfColors_def] rng]
  show ?thesis
    by (auto simp: wfColors_def resetAllBlocks_def foldl_resetCell)
qed

lemma addPlayer_frame:
  "geom (snd (addPlayer pid t s)) = geom s
   \<and> blockColors (snd (addPlayer pid t s)) = blockColors s
   \<and> changedBlocks (snd (addPlayer pid t s)) = changedBlocks s
   \<and> bombs (snd (addPlayer pid t s)) = bombs s
   \<and> map_of (players (snd (addPlayer pid t s))) = (map_of (players s))(pid \<mapsto> fst (addPlayer pid t s))
   \<and> team (fst (addPlayer pid t s)) = t"
  by (simp add: addPlayer_def Let_def update_conv')

lemma assignTeams_frame:
  "geom (snd (assignTeams k ps gs)) = geom gs
   \<and> blockColors (snd (assignTeams k ps gs)) = blockColors gs
   \<and> changedBlocks (snd (assignTeams k ps gs)) = changedBlocks gs
   \<and> bombs (snd (assignTeams k ps gs)) = bombs gs
   \<and> map fst (fst (assignTeams k ps gs)) = map fst ps"
  by (induction k ps gs rule: assignTeams.induct) (simp_all add: Let_def addPlayer_frame)

lemma assignTeams_other:
  "pid \<notin> fst ` set ps
   \<Longrightarrow> map_of (players (snd (assignTeams k ps gs))) pid = map_of (players gs) pid"
  by (induction k ps gs rule: assignTeams.induct) (auto simp: Let_def addPlayer_frame)

lemma pick_team: "[Red, Blue] ! (k mod 2) = alternating k"
  by (cases "even k") (auto simp: alternating_def odd_iff_mod_2_eq_one)

lemma assignTeams_teams:
  "distinct (map fst ps) \<Longrightarrow> i < length ps
   \<Longrightarrow> pi_team (snd (fst (assignTeams k ps gs) ! i)) = Some (alternating (k + i))
       \<and> teamOf (snd (assignTeams k ps gs)) (fst (ps ! i)) = Some (alternating (k + i))"
proof (induction k ps gs arbitrary: i rule: assignTeams.induct)
  case (1 teamIndex gs)
  then show ?case by simp
next
  case (2 teamIndex kp kps gs)
  let ?r = "addPlayer (fst kp) ([Red, Blue] ! (teamIndex mod 2)) gs"
  show ?case
  proof (cases i)
    case 0
    have "fst kp \<notin> fst ` set kps" using "2.prems"(1) by auto
    from assignTeams_other[OF this, of "teamIndex + 1" "snd ?r"]
    show ?thesis
      by (simp add: 0 Let_def teamOf_def addPlayer_frame pick_team)
  next
    case (Suc j)
    have d: "distinct (map fst kps)" and j: "j < length kps"
      using "2.prems" Suc by auto
    from "2.IH"[OF refl refl refl d j] show ?thesis
      by (simp add: Suc Let_def)
  qed
qed

text \<open>The loop of \<^verbatim>\<open>initializeBombs\<close> appends one bomb for every spawn that lies in the grid,
  numbered by its place in the array, and skips the others.\<close>

lemma foldl_addBomb:
  "foldl (addBomb g) acc sp
   = acc @ map (\<lambda>krc. \<lparr>bomb_id = fst krc,
                        bomb_x = fst (bombPlace g (snd krc)), bomb_y = snd (bombPlace g (snd krc)),
                        bomb_width = 20, bomb_height = 20,
                        bomb_spawn = \<lparr>spawn_x = fst (bombPlace g (snd krc)),
                                      spawn_y = snd (bombPlace g (snd krc)),
                                      spawn_row = Some (fst (snd krc)),
                                      spawn_col = Some (snd (snd krc))\<rparr>,
                        collected = False, respawnTimer = 0, respawnDelay = 10\<rparr>)
           (enumerate (length acc) (filter (spawnInGrid g) sp))"
proof (induction sp arbitrary: acc)
  case Nil
  show ?case by simp
next
  case (Cons x sp)
  show ?case
  proof (cases "spawnInGrid g x")
    case True
    then have "addBomb g acc x
        = acc @ [\<lparr>bomb_id = length acc,
                   bomb_x = fst (bombPlace g x), bomb_y = snd (bombPlace g x),
                   bomb_width = 20, bomb_height = 20,
                   bomb_spawn = \<lparr>spawn_x = fst (bombPlace g x), spawn_y = snd (bombPlace g x),
                                 spawn_row = Some (fst x), spawn_col = Some (snd x)\<rparr>,
                   collected = False, respawnTimer = 0, respawnDelay = 10\<rparr>]"
      by (simp add: addBomb_def spawnInGrid_def bombPlace_def Let_def)
    with True show ?thesis
      by (simp add: Cons.IH)
  next
    case False
    then have "addBomb g acc x = acc"
      by (auto simp: addBomb_def spawnInGrid_def Let_def)
    with False show ?thesis
      by (simp add: Cons.IH)
  qed
qed

lemma initializeBombs_frame:
  "geom (initializeBombs s) = geom s \<and> blockColors (initializeBombs s) = blockColors s
   \<and> changedBlocks (initializeBombs s) = changedBlocks s
   \<and> gameTime (initializeBombs s) = gameTime s"
  by (simp add: initializeBombs_def split: option.splits)

text \<open>The constructor establishes \<open>bombsInv\<close>, and the simulation step keeps it: only
  \<^verbatim>\<open>initializeBombs\<close> and the constructor assign \<^verbatim>\<open>this.bombs\<close>.\<close>

lemma newGameServer_bombsInv: "bombsInv (newGameServer md)"
  by (simp add: bombsInv_def newGameServer_def initializeBombs_def Let_def split: option.splits)

lemma updateGame_bombsInv: "bombsInv s \<Longrightarrow> bombsInv (updateGame dt s)"
proof -
  have g: "geom (paintBlocks t) = geom t" and b: "bombs (paintBlocks t) = bombs t"
    for t :: gameServer
  proof -
    have "geom (foldl (\<lambda>s' u. setBlockColor (int (fst (fst u))) (int (snd (fst u)))
                                  (fst (snd u)) s') s0 ts) = geom s0
          \<and> bombs (foldl (\<lambda>s' u. setBlockColor (int (fst (fst u))) (int (snd (fst u)))
                                  (fst (snd u)) s') s0 ts) = bombs s0"
      for s0 :: gameServer and ts :: blockTouches
      by (induction ts arbitrary: s0) (simp_all add: setBlockColor_def Let_def)
    then show "geom (paintBlocks t) = geom t" and "bombs (paintBlocks t) = bombs t"
      by (simp_all add: paintBlocks_def Let_def)
  qed
  assume "bombsInv s"
  then show ?thesis
    by (auto simp: bombsInv_def updateGame_def Let_def g b)
qed

lemma getSnapshot_after:
  "snd (getSnapshot now s) = s\<lparr>changedBlocks := []\<rparr>
   \<and> blockChanges (fst (getSnapshot now s))
       = map (\<lambda>rc. (fst rc, snd rc, colorAt (blockColors s) (fst rc) (snd rc)))
           (filter (\<lambda>rc. fst rc < mapRows (geom s) \<and> snd rc < mapCols (geom s))
              (changedBlocks s))"
  by (simp add: getSnapshot_def Let_def)

lemma startGame_props:
  assumes "wfColors (gameServer m)" and "distinct (map fst (queued m))"
  shows "gameState (fst (startGame now m)) = PLAYING"
    and "gameCountdown (fst (startGame now m)) = 120"
    and "map fst (queued (fst (startGame now m))) = map fst (queued m)"
    and "i < length (queued m) \<Longrightarrow>
           pi_team (snd (queued (fst (startGame now m)) ! i)) = Some (alternating i)
           \<and> teamOf (gameServer (fst (startGame now m))) (fst (queued m ! i))
               = Some (alternating i)"
    and "rc \<in> fst ` set (allCells (geom (gameServer m))) \<Longrightarrow>
           colorAt (blockColors (gameServer (fst (startGame now m)))) (fst rc) (snd rc) = White
           \<and> (fst rc, snd rc, White) \<in> set (blockChanges (snd (startGame now m)))"
    and "bombSpawns (geom (gameServer m)) = Some sp \<Longrightarrow>
           bombs (gameServer (fst (startGame now m))) = foldl (addBomb (geom (gameServer m))) [] sp"
    and "bombSpawns (geom (gameServer m)) = None \<Longrightarrow>
           bombs (gameServer (fst (startGame now m))) = bombs (gameServer m)"
    and "geom (gameServer (fst (startGame now m))) = geom (gameServer m)"
    and "changedBlocks (gameServer (fst (startGame now m))) = []"
proof -
  let ?gs1 = "resetAllBlocks (gameServer m)"
  let ?gs3 = "initializeBombs (?gs1\<lparr>gameTime := 0\<rparr>)"
  let ?r = "assignTeams 0 (queued m) ?gs3"
  let ?m2 = "m\<lparr>gameState := PLAYING, gameCountdown := 120, lastGameUpdate := now,
        roundNumber := roundNumber m + 1, currentRoundStartTime := Some now,
        queued := fst ?r, gameServer := snd ?r\<rparr>"
  have sg: "startGame now m
      = (?m2\<lparr>gameServer := (snd ?r)\<lparr>changedBlocks := []\<rparr>\<rparr>, fst (getSnapshot now (snd ?r)))"
    by (simp add: startGame_def broadcastSnapshot_def Let_def getSnapshot_after)
  have g1: "geom ?gs1 = geom (gameServer m)"
    by (simp add: resetAllBlocks_def foldl_resetCell)
  have g3: "geom ?gs3 = geom (gameServer m)"
    by (simp add: initializeBombs_def g1 split: option.splits)
  have g4: "geom (snd ?r) = geom (gameServer m)"
    by (simp add: assignTeams_frame g3)
  have c4: "blockColors (snd ?r) = blockColors ?gs1"
    by (simp add: assignTeams_frame initializeBombs_frame)
  have d4: "set (changedBlocks (snd ?r))
            = set (changedBlocks (gameServer m)) \<union> fst ` set (allCells (geom (gameServer m)))"
    by (simp add: assignTeams_frame initializeBombs_frame resetAllBlocks_def foldl_resetCell)
  show "gameState (fst (startGame now m)) = PLAYING" by (simp add: sg)
  show "gameCountdown (fst (startGame now m)) = 120" by (simp add: sg)
  show "map fst (queued (fst (startGame now m))) = map fst (queued m)"
    by (simp add: sg assignTeams_frame)
  show "geom (gameServer (fst (startGame now m))) = geom (gameServer m)"
    by (simp add: sg g4)
  show "changedBlocks (gameServer (fst (startGame now m))) = []"
    by (simp add: sg)
  show "pi_team (snd (queued (fst (startGame now m)) ! i)) = Some (alternating i)
        \<and> teamOf (gameServer (fst (startGame now m))) (fst (queued m ! i)) = Some (alternating i)"
    if "i < length (queued m)"
    using assignTeams_teams[OF assms(2) that, of 0 ?gs3] by (simp add: sg teamOf_def)
  show "colorAt (blockColors (gameServer (fst (startGame now m)))) (fst rc) (snd rc) = White
        \<and> (fst rc, snd rc, White) \<in> set (blockChanges (snd (startGame now m)))"
    if rc: "rc \<in> fst ` set (allCells (geom (gameServer m)))"
  proof -
    from resetAllBlocks_white[OF assms(1)] rc
    have w: "colorAt (blockColors (snd ?r)) (fst rc) (snd rc) = White"
      unfolding c4 by blast
    from rc have "rc \<in> set (changedBlocks (snd ?r))" by (simp add: d4)
    moreover from allCells_range[OF rc]
    have "fst rc < mapRows (geom (snd ?r)) \<and> snd rc < mapCols (geom (snd ?r))"
      by (simp add: g4)
    ultimately have "(fst rc, snd rc, colorAt (blockColors (snd ?r)) (fst rc) (snd rc))
        \<in> set (blockChanges (fst (getSnapshot now (snd ?r))))"
      by (simp add: getSnapshot_after image_iff)
    with w show ?thesis by (simp add: sg)
  qed
  show "bombs (gameServer (fst (startGame now m))) = foldl (addBomb (geom (gameServer m))) [] sp"
    if "bombSpawns (geom (gameServer m)) = Some sp"
    using that by (simp add: sg assignTeams_frame initializeBombs_def g1)
  show "bombs (gameServer (fst (startGame now m))) = bombs (gameServer m)"
    if "bombSpawns (geom (gameServer m)) = None"
    using that
    by (simp add: sg assignTeams_frame initializeBombs_def resetAllBlocks_def
          foldl_resetCell foldl_resetCell_rest)
qed


text \<open>
  Claim C3. A tick of the timers in state \<^verbatim>\<open>QUEUE\<close> at which the countdown runs out (the
  countdown less the seconds since the last tick, as the code computes them, is at most 0)
  asks for the pause flag, and the continuation runs with the answer. With the flag set, or with fewer
  than two queued players, the state stays \<^verbatim>\<open>QUEUE\<close> and the countdown is back at 60 s;
  nothing else changes but the time of the last tick, and no snapshot is sent. Otherwise the
  state is \<^verbatim>\<open>PLAYING\<close>; the queued players keep their order, and the \<open>i\<close>-th of them (counting
  from 0) is red when \<open>i\<close> is even and blue when it is odd, both in the queue entry and as the
  player of the game server; every cell that holds a block is white, is listed as white in
  the snapshot that is sent, and the set of changed blocks is empty afterwards; the pickup
  bombs are as many as the map's bomb spawns that lie in the grid, in their order, the \<open>k\<close>-th
  with id \<open>k\<close>, not collected, its respawn timer at 0 and its delay at 10, at the top centre of
  the block in the cell of its spawn, or of the empty cell; a map with no bomb spawns has no
  bombs.
\<close>

theorem queue_expiry:
  assumes "gameState m = QUEUE"
      and "dsub (queueCountdown m) (ddiv (real_of_int (now - lastQueueUpdate m)) 1000) \<le> 0"
      and "wfColors (gameServer m)" and "distinct (map fst (queued m))"
      and "bombsInv (gameServer m)"
  shows "snd (updateTimersQueue now m)
       \<and> (isPaused \<or> length (queued m) < 2
            \<longrightarrow> queueTick now later isPaused m
                  = (m\<lparr>lastQueueUpdate := now, queueCountdown := 60\<rparr>, None)
                \<and> gameState (fst (queueTick now later isPaused m)) = QUEUE)
       \<and> (\<not> isPaused \<and> 2 \<le> length (queued m)
            \<longrightarrow> (let m' = fst (queueTick now later isPaused m);
                     gs' = gameServer m';
                     g = geom (gameServer m)
                 in gameState m' = PLAYING
                  \<and> map fst (queued m') = map fst (queued m)
                  \<and> (\<forall>i<length (queued m).
                        pi_team (snd (queued m' ! i)) = Some (if even i then Red else Blue)
                        \<and> map_option team (map_of (players gs') (fst (queued m ! i)))
                            = Some (if even i then Red else Blue))
                  \<and> (\<forall>rc \<in> fst ` set (allCells g).
                        colorAt (blockColors gs') (fst rc) (snd rc) = White)
                  \<and> changedBlocks gs' = []
                  \<and> (\<exists>snap. snd (queueTick now later isPaused m) = Some snap
                        \<and> (\<forall>rc \<in> fst ` set (allCells g).
                              (fst rc, snd rc, White) \<in> set (blockChanges snap)))
                  \<and> (bombSpawns g = None \<longrightarrow> bombs gs' = [])
                  \<and> (\<forall>sp. bombSpawns g = Some sp \<longrightarrow>
                        (let valid = filter (\<lambda>rc. 0 \<le> fst rc \<and> fst rc < int (mapRows g)
                                                  \<and> 0 \<le> snd rc \<and> snd rc < int (mapCols g)) sp
                         in length (bombs gs') = length valid
                          \<and> (\<forall>k<length valid.
                                bomb_id (bombs gs' ! k) = k
                                \<and> collected (bombs gs' ! k) = False
                                \<and> respawnTimer (bombs gs' ! k) = 0
                                \<and> respawnDelay (bombs gs' ! k) = 10
                                \<and> spawn_row (bomb_spawn (bombs gs' ! k)) = Some (fst (valid ! k))
                                \<and> spawn_col (bomb_spawn (bombs gs' ! k)) = Some (snd (valid ! k))
                                \<and> (bomb_x (bombs gs' ! k), bomb_y (bombs gs' ! k))
                                    = (case cellAt g (nat (fst (valid ! k))) (nat (snd (valid ! k))) of
                                         Some b \<Rightarrow> (block_x b + block_width b / 2, block_y b)
                                       | None \<Rightarrow>
                                           (startX g + of_int (snd (valid ! k)) * blockWidth g
                                              + blockWidth g / 2,
                                            startY g + of_int (fst (valid ! k)) * blockHeight g)))))))"
proof (intro conjI impI)
  let ?m1 = "m\<lparr>lastQueueUpdate := now, queueCountdown := round64 (1 / 10)\<rparr>"
  have u: "updateTimersQueue now m = (?m1, True)"
    using assms(2) by (rule updateTimersQueue_expired)
  have qt: "queueTick now later isPaused m = queueExpired later isPaused ?m1"
    by (simp add: queueTick_def u)
  show "snd (updateTimersQueue now m)" by (simp add: u)
  {
    assume "isPaused \<or> length (queued m) < 2"
    then show "queueTick now later isPaused m
               = (m\<lparr>lastQueueUpdate := now, queueCountdown := 60\<rparr>, None)"
      by (auto simp: qt queueExpired_def)
    then show "gameState (fst (queueTick now later isPaused m)) = QUEUE"
      by (simp add: assms(1))
  }
  assume a: "\<not> isPaused \<and> 2 \<le> length (queued m)"
  then have q: "queueTick now later isPaused m
                = (fst (startGame later ?m1), Some (snd (startGame later ?m1)))"
    unfolding qt queueExpired_def by (simp add: Let_def)
  have w1: "wfColors (gameServer ?m1)" and d1: "distinct (map fst (queued ?m1))"
    using assms(3,4) by simp_all
  note sp = startGame_props[OF w1 d1, where now = later, simplified]
  let ?gs = "gameServer (fst (startGame later ?m1))"
  let ?g = "geom (gameServer m)"
  have teams: "\<forall>i<length (queued m).
      pi_team (snd (queued (fst (startGame later ?m1)) ! i)) = Some (if even i then Red else Blue)
      \<and> map_option team (map_of (players ?gs) (fst (queued m ! i)))
          = Some (if even i then Red else Blue)"
    using sp(4) by (simp add: alternating_def teamOf_def)
  have white: "\<forall>rc \<in> fst ` set (allCells ?g). colorAt (blockColors ?gs) (fst rc) (snd rc) = White"
    using sp(5) by blast
  have snap: "\<forall>rc \<in> fst ` set (allCells ?g).
                (fst rc, snd rc, White) \<in> set (blockChanges (snd (startGame later ?m1)))"
    using sp(5) by blast
  have ex: "\<exists>snap. Some (snd (startGame later ?m1)) = Some snap
                \<and> (\<forall>rc \<in> fst ` set (allCells ?g).
                      (fst rc, snd rc, White) \<in> set (blockChanges snap))"
    using snap by blast
  have none: "bombSpawns ?g = None \<longrightarrow> bombs ?gs = []"
    using sp(7) assms(5) by (simp add: bombsInv_def)
  have some: "\<forall>sp. bombSpawns ?g = Some sp \<longrightarrow>
      (let valid = filter (\<lambda>rc. 0 \<le> fst rc \<and> fst rc < int (mapRows ?g)
                                \<and> 0 \<le> snd rc \<and> snd rc < int (mapCols ?g)) sp
       in length (bombs ?gs) = length valid
        \<and> (\<forall>k<length valid.
              bomb_id (bombs ?gs ! k) = k
              \<and> collected (bombs ?gs ! k) = False
              \<and> respawnTimer (bombs ?gs ! k) = 0
              \<and> respawnDelay (bombs ?gs ! k) = 10
              \<and> spawn_row (bomb_spawn (bombs ?gs ! k)) = Some (fst (valid ! k))
              \<and> spawn_col (bomb_spawn (bombs ?gs ! k)) = Some (snd (valid ! k))
              \<and> (bomb_x (bombs ?gs ! k), bomb_y (bombs ?gs ! k))
                  = (case cellAt ?g (nat (fst (valid ! k))) (nat (snd (valid ! k))) of
                       Some b \<Rightarrow> (block_x b + block_width b / 2, block_y b)
                     | None \<Rightarrow>
                         (startX ?g + of_int (snd (valid ! k)) * blockWidth ?g + blockWidth ?g / 2,
                          startY ?g + of_int (fst (valid ! k)) * blockHeight ?g))))"
  proof (intro allI impI)
    fix sp0 assume s0: "bombSpawns ?g = Some sp0"
    have f: "filter (\<lambda>rc. 0 \<le> fst rc \<and> fst rc < int (mapRows ?g)
                           \<and> 0 \<le> snd rc \<and> snd rc < int (mapCols ?g)) sp0
             = filter (spawnInGrid ?g) sp0"
      by (rule filter_cong) (simp_all add: spawnInGrid_def)
    have b: "bombs ?gs = foldl (addBomb ?g) [] sp0"
      using sp(6)[OF s0] .
    show "let valid = filter (\<lambda>rc. 0 \<le> fst rc \<and> fst rc < int (mapRows ?g)
                                \<and> 0 \<le> snd rc \<and> snd rc < int (mapCols ?g)) sp0
       in length (bombs ?gs) = length valid
        \<and> (\<forall>k<length valid.
              bomb_id (bombs ?gs ! k) = k
              \<and> collected (bombs ?gs ! k) = False
              \<and> respawnTimer (bombs ?gs ! k) = 0
              \<and> respawnDelay (bombs ?gs ! k) = 10
              \<and> spawn_row (bomb_spawn (bombs ?gs ! k)) = Some (fst (valid ! k))
              \<and> spawn_col (bomb_spawn (bombs ?gs ! k)) = Some (snd (valid ! k))
              \<and> (bomb_x (bombs ?gs ! k), bomb_y (bombs ?gs ! k))
                  = (case cellAt ?g (nat (fst (valid ! k))) (nat (snd (valid ! k))) of
                       Some b \<Rightarrow> (block_x b + block_width b / 2, block_y b)
                     | None \<Rightarrow>
                         (startX ?g + of_int (snd (valid ! k)) * blockWidth ?g + blockWidth ?g / 2,
                          startY ?g + of_int (fst (valid ! k)) * blockHeight ?g)))"
      unfolding f b foldl_addBomb Let_def
      by (simp add: nth_enumerate_eq bombPlace_def split: option.splits)
  qed
  show "let m' = fst (queueTick now later isPaused m);
            gs' = gameServer m';
            g = geom (gameServer m)
        in gameState m' = PLAYING
         \<and> map fst (queued m') = map fst (queued m)
         \<and> (\<forall>i<length (queued m).
               pi_team (snd (queued m' ! i)) = Some (if even i then Red else Blue)
               \<and> map_option team (map_of (players gs') (fst (queued m ! i)))
                   = Some (if even i then Red else Blue))
         \<and> (\<forall>rc \<in> fst ` set (allCells g).
               colorAt (blockColors gs') (fst rc) (snd rc) = White)
         \<and> changedBlocks gs' = []
         \<and> (\<exists>snap. snd (queueTick now later isPaused m) = Some snap
               \<and> (\<forall>rc \<in> fst ` set (allCells g).
                     (fst rc, snd rc, White) \<in> set (blockChanges snap)))
         \<and> (bombSpawns g = None \<longrightarrow> bombs gs' = [])
         \<and> (\<forall>sp. bombSpawns g = Some sp \<longrightarrow>
               (let valid = filter (\<lambda>rc. 0 \<le> fst rc \<and> fst rc < int (mapRows g)
                                         \<and> 0 \<le> snd rc \<and> snd rc < int (mapCols g)) sp
                in length (bombs gs') = length valid
                 \<and> (\<forall>k<length valid.
                       bomb_id (bombs gs' ! k) = k
                       \<and> collected (bombs gs' ! k) = False
                       \<and> respawnTimer (bombs gs' ! k) = 0
                       \<and> respawnDelay (bombs gs' ! k) = 10
                       \<and> spawn_row (bomb_spawn (bombs gs' ! k)) = Some (fst (valid ! k))
                       \<and> spawn_col (bomb_spawn (bombs gs' ! k)) = Some (snd (valid ! k))
                       \<and> (bomb_x (bombs gs' ! k), bomb_y (bombs gs' ! k))
                           = (case cellAt g (nat (fst (valid ! k))) (nat (snd (valid ! k))) of
                                Some b \<Rightarrow> (block_x b + block_width b / 2, block_y b)
                              | None \<Rightarrow>
                                  (startX g + of_int (snd (valid ! k)) * blockWidth g
                                     + blockWidth g / 2,
                                   startY g + of_int (fst (valid ! k)) * blockHeight g)))))"
    unfolding Let_def q fst_conv snd_conv
    using sp(1) sp(3) teams white sp(9) ex none some[unfolded Let_def]
    by (intro conjI)
qed


lemma demoManager_wf:
  "gameState demoManager = QUEUE \<and> wfColors (gameServer demoManager)
   \<and> distinct (map fst (queued demoManager)) \<and> length (queued demoManager) = 3
   \<and> bombsInv (gameServer demoManager)"
  by code_simp

lemma demoManager_expired:
  "dsub (queueCountdown demoManager)
     (ddiv (real_of_int (200 - lastQueueUpdate demoManager)) 1000) \<le> 0"
  by (simp add: demoManager_def ddiv_def double_eval)

lemma demoManager_before:
  "colorAt (blockColors (gameServer demoManager)) 2 0 = Red
   \<and> map collected (bombs (gameServer demoManager)) = [True]"
  by code_simp

lemma demoManager_geom:
  "(2, 0) \<in> fst ` set (allCells (geom (gameServer demoManager)))"
  "bombSpawns (geom (gameServer demoManager)) = Some [(1, 1)]"
  "mapRows (geom (gameServer demoManager)) = 3"
  "mapCols (geom (gameServer demoManager)) = 5"
  "cellAt (geom (gameServer demoManager)) (Suc 0) (Suc 0) = None"
  by code_simp+

lemma demoManager_sizes:
  "startX (geom (gameServer demoManager)) = 95 \<and> startY (geom (gameServer demoManager)) = 21
   \<and> blockWidth (geom (gameServer demoManager)) = 346
   \<and> blockHeight (geom (gameServer demoManager)) = 346"
  by code_simp

lemma demoBareManager_wf:
  "gameState demoBareManager = QUEUE \<and> wfColors (gameServer demoBareManager)
   \<and> distinct (map fst (queued demoBareManager)) \<and> length (queued demoBareManager) = 3
   \<and> bombsInv (gameServer demoBareManager)
   \<and> bombSpawns (geom (gameServer demoBareManager)) = None"
  by code_simp

lemma demoBareManager_expired:
  "dsub (queueCountdown demoBareManager)
     (ddiv (real_of_int (200 - lastQueueUpdate demoBareManager)) 1000) \<le> 0"
  by (simp add: demoBareManager_def demoManager_def ddiv_def double_eval)

text \<open>Three queued players on the small map, 200 ms after the last tick with 125 ms left:
  red, blue, red; the red block is white again, nothing is left in the set of changed blocks,
  and the collected bomb is replaced by a fresh one at its spawn. With the pause flag the
  manager only resets the countdown. On the same map without bomb spawns there is no bomb.\<close>

theorem queue_expiry_witness:
  "gameState (fst (queueTick 200 250 False demoManager)) = PLAYING
   \<and> map fst (queued (fst (queueTick 200 250 False demoManager))) = [''p1'', ''p2'', ''p3'']
   \<and> pi_team (snd (queued (fst (queueTick 200 250 False demoManager)) ! 0)) = Some Red
   \<and> pi_team (snd (queued (fst (queueTick 200 250 False demoManager)) ! 1)) = Some Blue
   \<and> pi_team (snd (queued (fst (queueTick 200 250 False demoManager)) ! 2)) = Some Red
   \<and> map_option team
        (map_of (players (gameServer (fst (queueTick 200 250 False demoManager)))) ''p2'')
       = Some Blue
   \<and> colorAt (blockColors (gameServer demoManager)) 2 0 = Red
   \<and> colorAt (blockColors (gameServer (fst (queueTick 200 250 False demoManager)))) 2 0 = White
   \<and> changedBlocks (gameServer (fst (queueTick 200 250 False demoManager))) = []
   \<and> map collected (bombs (gameServer demoManager)) = [True]
   \<and> length (bombs (gameServer (fst (queueTick 200 250 False demoManager)))) = 1
   \<and> collected (bombs (gameServer (fst (queueTick 200 250 False demoManager))) ! 0) = False
   \<and> (bomb_x (bombs (gameServer (fst (queueTick 200 250 False demoManager))) ! 0),
       bomb_y (bombs (gameServer (fst (queueTick 200 250 False demoManager))) ! 0)) = (614, 367)
   \<and> queueTick 200 250 True demoManager
       = (demoManager\<lparr>lastQueueUpdate := 200, queueCountdown := 60\<rparr>, None)
   \<and> bombs (gameServer (fst (queueTick 200 250 False demoBareManager))) = []"
proof -
  have w: "gameState demoManager = QUEUE" "wfColors (gameServer demoManager)"
    "distinct (map fst (queued demoManager))" "length (queued demoManager) = 3"
    "bombsInv (gameServer demoManager)"
    using demoManager_wf by simp_all
  have wb: "gameState demoBareManager = QUEUE" "wfColors (gameServer demoBareManager)"
    "distinct (map fst (queued demoBareManager))" "length (queued demoBareManager) = 3"
    "bombsInv (gameServer demoBareManager)"
    "bombSpawns (geom (gameServer demoBareManager)) = None"
    using demoBareManager_wf by simp_all
  have q: "map fst (queued demoManager) = [''p1'', ''p2'', ''p3'']"
    "fst (queued demoManager ! 1) = ''p2''"
    by (simp_all add: demoManager_def)
  let ?m = "fst (queueTick 200 250 False demoManager)"
  note run = queue_expiry[OF w(1) demoManager_expired w(2,3,5), of False 250,
      unfolded Let_def w(4)]
  note paused = queue_expiry[OF w(1) demoManager_expired w(2,3,5), of True 250]
  note bare = queue_expiry[OF wb(1) demoBareManager_expired wb(2,3,5), of False 250,
      unfolded Let_def wb(4)]
  from run have t: "\<forall>i<3. pi_team (snd (queued ?m ! i)) = Some (if even i then Red else Blue)
                         \<and> map_option team
                              (map_of (players (gameServer ?m)) (fst (queued demoManager ! i)))
                             = Some (if even i then Red else Blue)"
    by simp
  from t[rule_format, of 0] t[rule_format, of 1] t[rule_format, of 2]
  have teams: "pi_team (snd (queued ?m ! 0)) = Some Red"
    "pi_team (snd (queued ?m ! 1)) = Some Blue"
    "pi_team (snd (queued ?m ! 2)) = Some Red"
    "map_option team (map_of (players (gameServer ?m)) ''p2'') = Some Blue"
    using q(2) by simp_all
  from run have st: "gameState ?m = PLAYING"
    "map fst (queued ?m) = [''p1'', ''p2'', ''p3'']"
    "changedBlocks (gameServer ?m) = []"
    by (simp_all add: q(1))
  from run have "\<forall>rc \<in> fst ` set (allCells (geom (gameServer demoManager))).
                    colorAt (blockColors (gameServer ?m)) (fst rc) (snd rc) = White"
    by simp
  from this[rule_format, OF demoManager_geom(1)]
  have white: "colorAt (blockColors (gameServer ?m)) 2 0 = White" by simp
  from run have "\<forall>sp. bombSpawns (geom (gameServer demoManager)) = Some sp \<longrightarrow>
      length (bombs (gameServer ?m))
        = length (filter (\<lambda>rc. 0 \<le> fst rc \<and> fst rc < int (mapRows (geom (gameServer demoManager)))
                    \<and> 0 \<le> snd rc \<and> snd rc < int (mapCols (geom (gameServer demoManager)))) sp)
      \<and> (\<forall>k<length (filter (\<lambda>rc. 0 \<le> fst rc
                    \<and> fst rc < int (mapRows (geom (gameServer demoManager)))
                    \<and> 0 \<le> snd rc \<and> snd rc < int (mapCols (geom (gameServer demoManager)))) sp).
            collected (bombs (gameServer ?m) ! k) = False
            \<and> (bomb_x (bombs (gameServer ?m) ! k), bomb_y (bombs (gameServer ?m) ! k))
                = (case cellAt (geom (gameServer demoManager))
                          (nat (fst (filter (\<lambda>rc. 0 \<le> fst rc
                    \<and> fst rc < int (mapRows (geom (gameServer demoManager)))
                    \<and> 0 \<le> snd rc \<and> snd rc < int (mapCols (geom (gameServer demoManager)))) sp ! k)))
                          (nat (snd (filter (\<lambda>rc. 0 \<le> fst rc
                    \<and> fst rc < int (mapRows (geom (gameServer demoManager)))
                    \<and> 0 \<le> snd rc \<and> snd rc < int (mapCols (geom (gameServer demoManager)))) sp ! k))) of
                     Some b \<Rightarrow> (block_x b + block_width b / 2, block_y b)
                   | None \<Rightarrow>
                       (startX (geom (gameServer demoManager))
                          + of_int (snd (filter (\<lambda>rc. 0 \<le> fst rc
                    \<and> fst rc < int (mapRows (geom (gameServer demoManager)))
                    \<and> 0 \<le> snd rc \<and> snd rc < int (mapCols (geom (gameServer demoManager)))) sp ! k))
                            * blockWidth (geom (gameServer demoManager))
                          + blockWidth (geom (gameServer demoManager)) / 2,
                        startY (geom (gameServer demoManager))
                          + of_int (fst (filter (\<lambda>rc. 0 \<le> fst rc
                    \<and> fst rc < int (mapRows (geom (gameServer demoManager)))
                    \<and> 0 \<le> snd rc \<and> snd rc < int (mapCols (geom (gameServer demoManager)))) sp ! k))
                            * blockHeight (geom (gameServer demoManager)))))"
    by simp
  from this[rule_format, OF demoManager_geom(2)]
  have bombs: "length (bombs (gameServer ?m)) = 1"
    "collected (bombs (gameServer ?m) ! 0) = False"
    "(bomb_x (bombs (gameServer ?m) ! 0), bomb_y (bombs (gameServer ?m) ! 0)) = (614, 367)"
    by (simp_all add: demoManager_geom(3,4,5) demoManager_sizes)
  from paused have p: "queueTick 200 250 True demoManager
       = (demoManager\<lparr>lastQueueUpdate := 200, queueCountdown := 60\<rparr>, None)"
    by simp
  from bare have b: "bombs (gameServer (fst (queueTick 200 250 False demoBareManager))) = []"
    by (simp add: wb(6))
  from st teams white bombs p b demoManager_before show ?thesis by simp
qed

end
